(* ===== verification/Prelude.thy ===== *)
theory Prelude
  imports Main
begin

text \<open>
  Shared vocabulary of the development. The handler of
  \<^verbatim>\<open>src/supabase/functions/create-github-issue/index.ts\<close> is one \<^verbatim>\<open>async\<close> function
  whose body is a sequence of \<^verbatim>\<open>await\<close>ed steps inside one \<^verbatim>\<open>try\<close>: each step
  may throw, and the outbound calls change the outside world. Such a step is modelled
  as an action \<open>('s, 'e, 'a) exc_state = 's \<Rightarrow> ('e + 'a) \<times> 's\<close>: it takes the state,
  returns an exception (\<open>Inl\<close>) or a value (\<open>Inr\<close>) and the new state. A thrown
  exception skips the rest of the block but keeps the state changes made so far, which
  is how a partially completed request leaves an issue created but not filed.
  The theory holds these combinators, their laws (collection \<open>exc_simps\<close>) and
  generic lemmas on sums and lists shared by the component theories.
\<close>

named_theorems exc_simps "evaluation rules of the exception-state combinators"
named_theorems js_simps "evaluation rules of the JavaScript value semantics"

type_synonym ('s, 'e, 'a) exc_state = "'s \<Rightarrow> ('e + 'a) \<times> 's"

definition returnE :: "'a \<Rightarrow> ('s, 'e, 'a) exc_state" where
  "returnE a = (\<lambda>s. (Inr a, s))"

definition throwE :: "'e \<Rightarrow> ('s, 'e, 'a) exc_state" where
  "throwE e = (\<lambda>s. (Inl e, s))"

text \<open>A pure computation that may throw, run without touching the state.\<close>

definition liftE :: "'e + 'a \<Rightarrow> ('s, 'e, 'a) exc_state" where
  "liftE r = (\<lambda>s. (r, s))"

text \<open>\<^verbatim>\<open>const x = await m; rest(x)\<close>: an exception of \<open>m\<close> skips \<open>rest\<close>.\<close>

definition bindE :: "('s, 'e, 'a) exc_state \<Rightarrow> ('a \<Rightarrow> ('s, 'e, 'b) exc_state) \<Rightarrow> ('s, 'e, 'b) exc_state" where
  "bindE m f = (\<lambda>s. case m s of (Inl e, s') \<Rightarrow> (Inl e, s') | (Inr a, s') \<Rightarrow> f a s')"

text \<open>Sequencing of pure fallible computations (the sum monad).\<close>

definition bindS :: "'e + 'a \<Rightarrow> ('a \<Rightarrow> 'e + 'b) \<Rightarrow> 'e + 'b" where
  "bindS r f = (case r of Inl e \<Rightarrow> Inl e | Inr a \<Rightarrow> f a)"

lemma returnE_apply [exc_simps, simp]: "returnE a s = (Inr a, s)"
  by (simp add: returnE_def)

lemma throwE_apply [exc_simps, simp]: "throwE e s = (Inl e, s)"
  by (simp add: throwE_def)

lemma liftE_apply [exc_simps, simp]: "liftE r s = (r, s)"
  by (simp add: liftE_def)

lemma bindE_apply [exc_simps]:
  "bindE m f s = (case m s of (Inl e, s') \<Rightarrow> (Inl e, s') | (Inr a, s') \<Rightarrow> f a s')"
  by (simp add: bindE_def)

lemma bindE_returnE [exc_simps, simp]: "bindE (returnE a) f = f a"
  by (simp add: bindE_def fun_eq_iff)

lemma bindE_throwE [exc_simps, simp]: "bindE (throwE e) f = throwE e"
  by (simp add: bindE_def fun_eq_iff)

lemma bindE_liftE_Inl [exc_simps, simp]: "bindE (liftE (Inl e)) f = throwE e"
  by (simp add: bindE_def fun_eq_iff)

lemma bindE_liftE_Inr [exc_simps, simp]: "bindE (liftE (Inr a)) f = f a"
  by (simp add: bindE_def fun_eq_iff)

lemma bindE_assoc [exc_simps]:
  "bindE (bindE m f) g = bindE m (\<lambda>a. bindE (f a) g)"
  by (auto simp: bindE_def fun_eq_iff split: prod.splits sum.splits)

lemma bindE_Inl [exc_simps]: "m s = (Inl e, s') \<Longrightarrow> bindE m f s = (Inl e, s')"
  by (simp add: bindE_def)

lemma bindE_Inr [exc_simps]: "m s = (Inr a, s') \<Longrightarrow> bindE m f s = f a s'"
  by (simp add: bindE_def)

lemma bindS_simps [simp]:
  "bindS (Inl e) f = Inl e"
  "bindS (Inr a) f = f a"
  by (simp_all add: bindS_def)

lemma bindS_eq_Inr [simp]:
  "bindS r f = Inr b \<longleftrightarrow> (\<exists>a. r = Inr a \<and> f a = Inr b)"
  by (cases r) simp_all

lemma find_SomeD: "find P xs = Some x \<Longrightarrow> P x \<and> x \<in> set xs"
  by (induction xs) (auto split: if_splits)

lemma find_take_Some: "find P (take n xs) = Some x \<Longrightarrow> find P xs = Some x"
  by (induction xs arbitrary: n) (auto simp: take_Cons split: nat.splits if_splits)

lemma find_snoc_other: "\<not> P x \<Longrightarrow> find P (xs @ [x]) = find P xs"
  by (induction xs) auto

lemma find_snoc_new: "find P xs = None \<Longrightarrow> P x \<Longrightarrow> find P (xs @ [x]) = Some x"
  by (induction xs) auto

lemma upt_Suc_Cons: "[Suc n..<Suc (Suc (n + k))] = Suc n # [Suc (Suc n)..<Suc (Suc (n + k))]"
  by (simp add: upt_conv_Cons)

end
