(* ===== verification/JsValue.thy ===== *)
theory JsValue
  imports Prelude
begin

text \<open>
  The JavaScript semantics the handler depends on, at the values it handles: JSON values
  (what \<^verbatim>\<open>await r.json()\<close> returns) plus \<^verbatim>\<open>undefined\<close>; exceptions with their
  class and \<^verbatim>\<open>message\<close>; truthiness as tested by \<^verbatim>\<open>!x\<close>; property reads
  \<^verbatim>\<open>v.k\<close>, which throw a \<^verbatim>\<open>TypeError\<close> on \<^verbatim>\<open>undefined\<close> and \<^verbatim>\<open>null\<close>;
  \<^verbatim>\<open>Array.prototype.find\<close> with a callback that may itself throw; the decimal
  printing of numbers used by template literals; \<^verbatim>\<open>parseInt\<close>; and
  \<^verbatim>\<open>JSON.stringify\<close>, which drops object members whose value is \<^verbatim>\<open>undefined\<close>.
  Numbers are the integers the code meets (issue and project numbers), read as safe
  integers (below \<open>2\<^sup>5\<^sup>3\<close> in magnitude): fractions, NaN and infinities are
  not values of the model; \<^verbatim>\<open>parseInt\<close>'s NaN is \<open>None\<close>.
  Strings are \<open>char list\<close>s.
\<close>

datatype exn_class = Error | TypeError | SyntaxError

datatype exn = JsExn (exn_class: exn_class) (message: string)

datatype jsval =
    Undefined
  | Null
  | Bool bool
  | Num int
  | Str string
  | Arr "jsval list"
  | Obj "(string \<times> jsval) list"

subsection \<open>Truthiness: \<^verbatim>\<open>!x\<close>\<close>

text \<open>\<^verbatim>\<open>undefined\<close>, \<^verbatim>\<open>null\<close>, \<^verbatim>\<open>false\<close>, \<^verbatim>\<open>0\<close> and \<^verbatim>\<open>''\<close> are falsy; every object and array is truthy.\<close>

fun truthy :: "jsval \<Rightarrow> bool" where
  "truthy Undefined = False"
| "truthy Null = False"
| "truthy (Bool b) = b"
| "truthy (Num n) = (n \<noteq> 0)"
| "truthy (Str s) = (s \<noteq> [])"
| "truthy (Arr xs) = True"
| "truthy (Obj kvs) = True"

subsection \<open>Property reads\<close>

definition squote :: "string \<Rightarrow> string" where
  "squote k = CHR 0x27 # k @ [CHR 0x27]"

definition read_error :: "string \<Rightarrow> string \<Rightarrow> exn" where
  "read_error what k = JsExn TypeError (''Cannot read properties of '' @ what @ '' (reading '' @ squote k @ '')'')"

text \<open>
  \<^verbatim>\<open>v.k\<close>: an object member, or \<^verbatim>\<open>undefined\<close> when the member is absent or the value
  is a primitive or an array (the code reads no array property by name).
\<close>

fun get_prop :: "jsval \<Rightarrow> string \<Rightarrow> exn + jsval" where
  "get_prop Undefined k = Inl (read_error ''undefined'' k)"
| "get_prop Null k = Inl (read_error ''null'' k)"
| "get_prop (Obj kvs) k = Inr (case map_of kvs k of None \<Rightarrow> Undefined | Some v \<Rightarrow> v)"
| "get_prop v k = Inr Undefined"

text \<open>The member read when it cannot throw, for stating results.\<close>

definition member :: "jsval \<Rightarrow> string \<Rightarrow> jsval" where
  "member v k = (case v of Obj kvs \<Rightarrow> (case map_of kvs k of None \<Rightarrow> Undefined | Some x \<Rightarrow> x) | _ \<Rightarrow> Undefined)"

text \<open>A chain \<^verbatim>\<open>v.k1.k2...kn\<close>, evaluated left to right.\<close>

fun get_path :: "jsval \<Rightarrow> string list \<Rightarrow> exn + jsval" where
  "get_path v [] = Inr v"
| "get_path v (k # ks) = bindS (get_prop v k) (\<lambda>w. get_path w ks)"

subsection \<open>\<^verbatim>\<open>Array.prototype.find\<close>\<close>

text \<open>
  The callback runs on the elements in order; the first element it accepts is the result,
  \<^verbatim>\<open>undefined\<close> if there is none, and an exception of the callback stops the search.
\<close>

fun find_js :: "(jsval \<Rightarrow> exn + bool) \<Rightarrow> jsval list \<Rightarrow> exn + jsval" where
  "find_js p [] = Inr Undefined"
| "find_js p (x # xs) = (case p x of Inl e \<Rightarrow> Inl e | Inr b \<Rightarrow> if b then Inr x else find_js p xs)"

text \<open>
  \<^verbatim>\<open>e.find(p)\<close>, \<open>e\<close> the text of the receiver expression, which the runtime
  names when the receiver has no \<^verbatim>\<open>find\<close> method.
\<close>

definition array_find :: "string \<Rightarrow> jsval \<Rightarrow> (jsval \<Rightarrow> exn + bool) \<Rightarrow> exn + jsval" where
  "array_find e recv p =
     (case recv of
        Undefined \<Rightarrow> Inl (read_error ''undefined'' ''find'')
      | Null \<Rightarrow> Inl (read_error ''null'' ''find'')
      | Arr xs \<Rightarrow> find_js p xs
      | _ \<Rightarrow> Inl (JsExn TypeError (e @ ''.find is not a function'')))"

text \<open>The callbacks of the source, \<^verbatim>\<open>(x: any) => x.name === s\<close>.\<close>

definition name_is :: "string \<Rightarrow> jsval \<Rightarrow> exn + bool" where
  "name_is s v = bindS (get_prop v ''name'') (\<lambda>n. Inr (n = Str s))"

subsection \<open>Numbers as text\<close>

definition digit_char :: "nat \<Rightarrow> char" where
  "digit_char d = char_of (48 + d)"

fun nat_to_str :: "nat \<Rightarrow> string" where
  "nat_to_str n = (if n < 10 then [digit_char n] else nat_to_str (n div 10) @ [digit_char (n mod 10)])"

declare nat_to_str.simps [simp del]

text \<open>
  \<^verbatim>\<open>String(n)\<close> (and \<^verbatim>\<open>${n}\<close>) for an integer-valued number. A value
  \<open>Num n\<close> stands for the JavaScript number \<open>n\<close> only while \<open>n\<close> is a safe integer,
  \<open>\<bar>n\<bar> < 2\<^sup>5\<^sup>3\<close>: beyond it a double no longer holds every integer, and from
  \<open>10\<^sup>2\<^sup>1\<close> on \<^verbatim>\<open>String\<close> prints an exponent. The numbers the handler prints
  are \<^verbatim>\<open>PROJECT_NUMBER\<close> (1) and the issue numbers GitHub returns, all safe.
\<close>

definition int_to_str :: "int \<Rightarrow> string" where
  "int_to_str i = (if i < 0 then CHR ''-'' # nat_to_str (nat (- i)) else nat_to_str (nat i))"

text \<open>
  \<^verbatim>\<open>parseInt(s)\<close> with no radix: leading white space is skipped, a sign is read, a
  \<^verbatim>\<open>0x\<close> or \<^verbatim>\<open>0X\<close> prefix selects radix 16, then the longest prefix of digits is
  read; no digit at all gives NaN (\<open>None\<close>). \<^verbatim>\<open>parseInt(n)\<close> of a number first
  converts it with \<^verbatim>\<open>String(n)\<close>.
\<close>

definition js_space :: "char \<Rightarrow> bool" where
  "js_space c \<longleftrightarrow> c \<in> {CHR '' '', CHR 0x09, CHR 0x0A, CHR 0x0B, CHR 0x0C, CHR 0x0D}"

definition digit_val :: "nat \<Rightarrow> char \<Rightarrow> nat option" where
  "digit_val radix c =
     (let n = of_char c :: nat;
          d = (if 48 \<le> n \<and> n \<le> 57 then Some (n - 48)
               else if 97 \<le> n \<and> n \<le> 122 then Some (n - 87)
               else if 65 \<le> n \<and> n \<le> 90 then Some (n - 55) else None)
      in case d of Some v \<Rightarrow> if v < radix then Some v else None | None \<Rightarrow> None)"

definition digits_value :: "nat \<Rightarrow> nat list \<Rightarrow> nat" where
  "digits_value radix ds = foldl (\<lambda>acc d. acc * radix + d) 0 ds"

definition js_parseInt :: "string \<Rightarrow> int option" where
  "js_parseInt s =
     (let s1 = dropWhile js_space s;
          (sign, s2) = (case s1 of c # r \<Rightarrow> if c = CHR ''-'' then (-1::int, r)
                                          else if c = CHR ''+'' then (1, r) else (1, s1)
                                 | [] \<Rightarrow> (1, s1));
          (radix, s3) = (case s2 of c # x # r \<Rightarrow>
                              if c = CHR ''0'' \<and> (x = CHR ''x'' \<or> x = CHR ''X'') then (16::nat, r) else (10, s2)
                          | _ \<Rightarrow> (10, s2));
          ds = takeWhile (\<lambda>c. digit_val radix c \<noteq> None) s3
      in if ds = [] then None else Some (sign * int (digits_value radix (List.map_filter (digit_val radix) ds))))"

subsection \<open>\<^verbatim>\<open>JSON.stringify\<close>\<close>

text \<open>String literals: quote, backslash and control characters are escaped.\<close>

definition hex_digit :: "nat \<Rightarrow> char" where
  "hex_digit d = (if d < 10 then char_of (48 + d) else char_of (87 + d))"

definition json_escape :: "char \<Rightarrow> string" where
  "json_escape c =
     (if c = CHR 0x22 then [CHR 0x5C, CHR 0x22]
      else if c = CHR 0x5C then [CHR 0x5C, CHR 0x5C]
      else if c = CHR 0x08 then [CHR 0x5C, CHR ''b'']
      else if c = CHR 0x09 then [CHR 0x5C, CHR ''t'']
      else if c = CHR 0x0A then [CHR 0x5C, CHR ''n'']
      else if c = CHR 0x0C then [CHR 0x5C, CHR ''f'']
      else if c = CHR 0x0D then [CHR 0x5C, CHR ''r'']
      else if of_char c < (32::nat)
        then [CHR 0x5C, CHR ''u'', CHR ''0'', CHR ''0'', hex_digit (of_char c div 16), hex_digit (of_char c mod 16)]
      else [c])"

definition json_quote :: "string \<Rightarrow> string" where
  "json_quote s = CHR 0x22 # concat (map json_escape s) @ [CHR 0x22]"

fun join_comma :: "string list \<Rightarrow> string" where
  "join_comma [] = []"
| "join_comma [x] = x"
| "join_comma (x # xs) = x @ '','' @ join_comma xs"

text \<open>
  The text of a value in an array position (\<^verbatim>\<open>undefined\<close> prints as \<^verbatim>\<open>null\<close>
  there) and of an object's members (members whose value is \<^verbatim>\<open>undefined\<close> are left
  out).
\<close>

fun json_text :: "jsval \<Rightarrow> string"
and json_elems :: "jsval list \<Rightarrow> string list"
and json_members :: "(string \<times> jsval) list \<Rightarrow> string list" where
  "json_text Undefined = ''null''"
| "json_text Null = ''null''"
| "json_text (Bool b) = (if b then ''true'' else ''false'')"
| "json_text (Num n) = int_to_str n"
| "json_text (Str s) = json_quote s"
| "json_text (Arr xs) = ''['' @ join_comma (json_elems xs) @ '']''"
| "json_text (Obj kvs) = ''{'' @ join_comma (json_members kvs) @ ''}''"
| "json_elems [] = []"
| "json_elems (x # xs) = json_text x # json_elems xs"
| "json_members [] = []"
| "json_members ((k, v) # kvs) =
     (if v = Undefined then json_members kvs
      else (json_quote k @ '':'' @ json_text v) # json_members kvs)"

text \<open>\<^verbatim>\<open>JSON.stringify(v)\<close>: a string, or \<^verbatim>\<open>undefined\<close> for \<^verbatim>\<open>undefined\<close>.\<close>

definition js_stringify :: "jsval \<Rightarrow> jsval" where
  "js_stringify v = (if v = Undefined then Undefined else Str (json_text v))"

text \<open>
  \<^verbatim>\<open>${v}\<close> in a template literal, for the values the code interpolates; an array
  is joined with commas, its \<^verbatim>\<open>undefined\<close> and \<^verbatim>\<open>null\<close> elements as empty text.
\<close>

fun to_js_string :: "jsval \<Rightarrow> string" where
  "to_js_string Undefined = ''undefined''"
| "to_js_string Null = ''null''"
| "to_js_string (Bool b) = (if b then ''true'' else ''false'')"
| "to_js_string (Num n) = int_to_str n"
| "to_js_string (Str s) = s"
| "to_js_string (Arr xs) = join_comma (map (\<lambda>x. if x = Undefined \<or> x = Null then [] else to_js_string x) xs)"
| "to_js_string (Obj kvs) = ''[object Object]''"

text \<open>
  The value a receiver reads back from \<^verbatim>\<open>JSON.stringify(v)\<close>: members with value
  \<^verbatim>\<open>undefined\<close> are gone and \<^verbatim>\<open>undefined\<close> array elements are \<^verbatim>\<open>null\<close>.
\<close>

fun wire :: "jsval \<Rightarrow> jsval"
and wire_elems :: "jsval list \<Rightarrow> jsval list"
and wire_members :: "(string \<times> jsval) list \<Rightarrow> (string \<times> jsval) list" where
  "wire Undefined = Null"
| "wire Null = Null"
| "wire (Bool b) = Bool b"
| "wire (Num n) = Num n"
| "wire (Str s) = Str s"
| "wire (Arr xs) = Arr (wire_elems xs)"
| "wire (Obj kvs) = Obj (wire_members kvs)"
| "wire_elems [] = []"
| "wire_elems (x # xs) = wire x # wire_elems xs"
| "wire_members [] = []"
| "wire_members ((k, v) # kvs) =
     (if v = Undefined then wire_members kvs else (k, wire v) # wire_members kvs)"

subsection \<open>Lemmas: property reads and \<^verbatim>\<open>find\<close>\<close>

text \<open>A read from a truthy value never throws: only \<^verbatim>\<open>undefined\<close> and \<^verbatim>\<open>null\<close> do.\<close>

lemma get_prop_truthy [js_simps]: "truthy v \<Longrightarrow> get_prop v k = Inr (member v k)"
  by (cases v) (auto simp: member_def)

lemma member_Obj [simp]: "member (Obj kvs) k = (case map_of kvs k of None \<Rightarrow> Undefined | Some x \<Rightarrow> x)"
  by (simp add: member_def)

lemma name_is_Obj [simp, js_simps]: "name_is s (Obj kvs) = Inr (map_of kvs ''name'' = Some (Str s))"
  by (auto simp: name_is_def split: option.splits)

lemma find_js_none: "\<forall>x\<in>set xs. p x = Inr False \<Longrightarrow> find_js p xs = Inr Undefined"
  by (induction xs) auto

lemma find_js_found: "find_js p xs = Inr v \<Longrightarrow> v \<noteq> Undefined \<Longrightarrow> v \<in> set xs \<and> p v = Inr True"
  by (induction xs) (auto split: sum.splits if_splits)

lemma find_js_append_none: "\<forall>x\<in>set xs. p x = Inr False \<Longrightarrow> find_js p (xs @ ys) = find_js p ys"
  by (induction xs) auto

subsection \<open>Lemmas: numbers as text\<close>

lemma digit_char_simps [simp]:
  "digit_char 0 = CHR ''0''" "digit_char 1 = CHR ''1''" "digit_char 2 = CHR ''2''"
  "digit_char 3 = CHR ''3''" "digit_char 4 = CHR ''4''" "digit_char 5 = CHR ''5''"
  "digit_char 6 = CHR ''6''" "digit_char 7 = CHR ''7''" "digit_char 8 = CHR ''8''"
  "digit_char 9 = CHR ''9''" "digit_char (Suc 0) = CHR ''1''"
  unfolding digit_char_def by code_simp+

lemma of_char_digit_char: "d < 10 \<Longrightarrow> of_char (digit_char d) = 48 + d"
  by (simp add: digit_char_def)

lemma digit_val_digit_char: "d < 10 \<Longrightarrow> digit_val 10 (digit_char d) = Some d"
  by (simp add: digit_val_def of_char_digit_char)

lemma nat_to_str_digits: "\<forall>c\<in>set (nat_to_str n). \<exists>d<10. c = digit_char d"
proof (induction n rule: nat_to_str.induct)
  case (1 n)
  then show ?case by (subst nat_to_str.simps) (auto intro!: exI [of _ "n mod 10"])
qed

lemma nat_to_str_nonempty: "nat_to_str n \<noteq> []"
  by (subst nat_to_str.simps) simp

lemma digits_value_snoc: "digits_value r (ds @ [d]) = digits_value r ds * r + d"
  by (simp add: digits_value_def)

lemma map_filter_snoc: "List.map_filter f (xs @ [x]) = List.map_filter f xs @ List.map_filter f [x]"
  by (simp add: List.map_filter_def)

lemma nat_to_str_value: "digits_value 10 (List.map_filter (digit_val 10) (nat_to_str n)) = n"
proof (induction n rule: nat_to_str.induct)
  case (1 n)
  show ?case
  proof (cases "n < 10")
    case True
    then show ?thesis
      by (subst nat_to_str.simps) (simp add: List.map_filter_def digit_val_digit_char digits_value_def)
  next
    case False
    then have "digits_value 10 (List.map_filter (digit_val 10) (nat_to_str (n div 10))) = n div 10"
      using "1" by simp
    with False show ?thesis
      by (subst nat_to_str.simps) (simp add: map_filter_snoc digits_value_snoc List.map_filter_def digit_val_digit_char)
  qed
qed

lemma digit_char_not_sign: "d < 10 \<Longrightarrow> digit_char d \<noteq> CHR ''-'' \<and> digit_char d \<noteq> CHR ''+'' \<and> \<not> js_space (digit_char d)"
  using of_char_digit_char [of d] by (auto simp: js_space_def)

end
