(* ===== verification/Http.thy ===== *)
theory Http
  imports JsValue
begin

text \<open>
  The HTTP side of the handler: the requests it sends with \<^verbatim>\<open>fetch\<close>, the
  \<^verbatim>\<open>Response\<close> objects \<^verbatim>\<open>fetch\<close> resolves to, and the \<^verbatim>\<open>Response\<close> the handler
  returns. The remote side (GitHub) is a parameter: an \<open>'w upstream\<close> answers a request
  in a world \<open>'w\<close> and returns the next world, as an IO action over a world state does.
  The handler's state \<open>'w hstate\<close> is that world together with the list of requests
  sent so far, in order: the observable trace of one invocation. A request's body is the
  value the code passes to \<^verbatim>\<open>JSON.stringify\<close>; the text on the wire is
  \<open>json_text\<close> of it.
\<close>

record http_req =
  req_method :: string
  req_url :: string
  req_headers :: "(string \<times> string) list"
  req_body :: jsval

text \<open>
  What \<^verbatim>\<open>await fetch(...)\<close> gives: a rejection (network failure, a \<^verbatim>\<open>TypeError\<close>)
  or a response with its status and its body, which \<^verbatim>\<open>.json()\<close> parses (\<open>Inl\<close>: the
  body is not JSON, with the parser's message).
\<close>

datatype fetch_res = NetworkError string | Reply int "string + jsval"

type_synonym 'w upstream = "'w \<Rightarrow> http_req \<Rightarrow> fetch_res \<times> 'w"

record reply =
  http_status :: int
  reply_body :: "string + jsval"

record 'w hstate =
  world :: 'w
  sent :: "http_req list"

type_synonym ('w, 'a) act = "('w hstate, exn, 'a) exc_state"

definition fetch :: "'w upstream \<Rightarrow> http_req \<Rightarrow> ('w, reply) act" where
  "fetch up r =
     (\<lambda>s. case up (world s) r of
       (res, w') \<Rightarrow>
         (let s' = s\<lparr>world := w', sent := sent s @ [r]\<rparr>
          in case res of
               NetworkError m \<Rightarrow> (Inl (JsExn TypeError m), s')
             | Reply st b \<Rightarrow> (Inr \<lparr>http_status = st, reply_body = b\<rparr>, s')))"

text \<open>\<^verbatim>\<open>response.ok\<close>: the status is in 200--299.\<close>

definition ok :: "reply \<Rightarrow> bool" where
  "ok r \<longleftrightarrow> 200 \<le> http_status r \<and> http_status r \<le> 299"

text \<open>\<^verbatim>\<open>await response.json()\<close>.\<close>

definition reply_json :: "reply \<Rightarrow> exn + jsval" where
  "reply_json r = (case reply_body r of Inl m \<Rightarrow> Inl (JsExn SyntaxError m) | Inr v \<Rightarrow> Inr v)"

text \<open>The handler's own \<^verbatim>\<open>new Response(JSON.stringify(body), {headers, status})\<close>.\<close>

record response =
  resp_status :: int
  resp_headers :: "(string \<times> string) list"
  resp_body :: jsval

text \<open>
  An action keeps a property of the world when every run from a world with the property
  ends in a world with it; an upstream keeps it when every answer does.
\<close>

definition keeps_world :: "('w \<Rightarrow> bool) \<Rightarrow> ('w, 'a) act \<Rightarrow> bool" where
  "keeps_world P m \<longleftrightarrow> (\<forall>s x s'. P (world s) \<longrightarrow> m s = (x, s') \<longrightarrow> P (world s'))"

definition upstream_keeps :: "('w \<Rightarrow> bool) \<Rightarrow> 'w upstream \<Rightarrow> bool" where
  "upstream_keeps P up \<longleftrightarrow> (\<forall>w r. P w \<longrightarrow> P (snd (up w r)))"

lemma fetch_sent [simp]: "sent (snd (fetch up r s)) = sent s @ [r]"
  by (simp add: fetch_def Let_def split: prod.split fetch_res.split)

lemma fetch_world [simp]: "world (snd (fetch up r s)) = snd (up (world s) r)"
  by (simp add: fetch_def Let_def split: prod.split fetch_res.split)

lemma fetch_sentD: "fetch up r s = (x, s') \<Longrightarrow> sent s' = sent s @ [r]"
  using fetch_sent [of up r s] by simp

lemma fetch_worldD: "fetch up r s = (x, s') \<Longrightarrow> world s' = snd (up (world s) r)"
  using fetch_world [of up r s] by simp

lemma fetch_NetworkError:
  "up (world s) r = (NetworkError m, w') \<Longrightarrow>
   fetch up r s = (Inl (JsExn TypeError m), s\<lparr>world := w', sent := sent s @ [r]\<rparr>)"
  by (simp add: fetch_def)

lemma fetch_Reply:
  "up (world s) r = (Reply st b, w') \<Longrightarrow>
   fetch up r s = (Inr \<lparr>http_status = st, reply_body = b\<rparr>, s\<lparr>world := w', sent := sent s @ [r]\<rparr>)"
  by (simp add: fetch_def)

lemma keeps_world_returnE [intro!]: "keeps_world P (returnE a)"
  and keeps_world_throwE [intro!]: "keeps_world P (throwE e)"
  and keeps_world_liftE [intro!]: "keeps_world P (liftE r)"
  by (simp_all add: keeps_world_def)

lemma keeps_world_bindE [intro!]:
  "keeps_world P m \<Longrightarrow> (\<And>a. keeps_world P (f a)) \<Longrightarrow> keeps_world P (bindE m f)"
  unfolding keeps_world_def
proof (intro allI impI)
  fix s x s'
  assume m: "\<forall>s x s'. P (world s) \<longrightarrow> m s = (x, s') \<longrightarrow> P (world s')"
    and f: "\<And>a. \<forall>s x s'. P (world s) \<longrightarrow> f a s = (x, s') \<longrightarrow> P (world s')"
    and p: "P (world s)" and run: "bindE m f s = (x, s')"
  obtain r s1 where s1: "m s = (r, s1)" by fastforce
  then have "P (world s1)" using m p by blast
  then show "P (world s')"
    using run s1 f by (cases r) (auto simp: bindE_apply)
qed

lemma keeps_world_case_prod [intro!]:
  "(\<And>a b. keeps_world P (f a b)) \<Longrightarrow> keeps_world P (case_prod f p)"
  by (cases p) simp

lemma keeps_world_if [intro!]:
  "keeps_world P m \<Longrightarrow> keeps_world P m' \<Longrightarrow> keeps_world P (if c then m else m')"
  by simp

lemma keeps_world_fetch [intro!]: "upstream_keeps P up \<Longrightarrow> keeps_world P (fetch up r)"
  by (auto simp: keeps_world_def upstream_keeps_def dest: fetch_worldD)

end
