(* ===== verification/Handler.thy ===== *)
theory Handler
  imports Http
begin

text \<open>
  The request handler passed to \<^verbatim>\<open>Deno.serve\<close> in
  \<^verbatim>\<open>src/supabase/functions/create-github-issue/index.ts\<close>, one definition per stage
  of its \<^verbatim>\<open>try\<close> block, in the order of the source: the configuration read from the
  environment (lines 16--23), the request body (26--30), the issue creation (33--55), the
  project query (58--95), the lookup of the Status field and the Icebox option (96--108),
  adding the issue to the project (111--140), setting its status (143--175) and the
  success response (177--190); \<open>serve\<close> is the whole handler with its \<^verbatim>\<open>catch\<close>
  (191--202). The GraphQL documents are kept with their white space collapsed to single
  spaces, which GraphQL ignores.
\<close>

type_synonym env = "string \<Rightarrow> string option"

record config =
  github_token :: string
  github_owner :: string
  github_repo :: string
  project_number :: int

subsection \<open>Configuration\<close>

definition PROJECT_NUMBER :: int where
  "PROJECT_NUMBER = 1"

text \<open>\<^verbatim>\<open>Deno.env.get(k)\<close>: the variable's value, or \<^verbatim>\<open>undefined\<close>.\<close>

definition env_get :: "env \<Rightarrow> string \<Rightarrow> jsval" where
  "env_get env k = (case env k of None \<Rightarrow> Undefined | Some v \<Rightarrow> Str v)"

definition read_config :: "env \<Rightarrow> exn + config" where
  "read_config env =
     (let tok = env_get env ''GITHUB_TOKEN'';
          owner = env_get env ''GITHUB_OWNER'';
          repo = env_get env ''GITHUB_REPO''
      in if \<not> truthy tok \<or> \<not> truthy owner \<or> \<not> truthy repo \<or> \<not> truthy (Num PROJECT_NUMBER)
         then Inl (JsExn Error ''Required environment variables are not set'')
         else Inr \<lparr>github_token = to_js_string tok, github_owner = to_js_string owner,
                   github_repo = to_js_string repo, project_number = PROJECT_NUMBER\<rparr>)"

subsection \<open>The request body\<close>

record issue_request =
  rq_title :: jsval
  rq_body :: jsval
  rq_labels :: jsval

text \<open>
  \<^verbatim>\<open>const { title, body, labels }: IssueRequest = await req.json()\<close>: the type
  annotation is not checked at run time, so the members are whatever the JSON holds;
  destructuring \<^verbatim>\<open>null\<close> throws.
\<close>

definition destructure_request :: "jsval \<Rightarrow> exn + issue_request" where
  "destructure_request v =
     (case v of
        Undefined \<Rightarrow> Inl (JsExn TypeError (''Cannot destructure property '' @ squote ''title'' @
                         '' of '' @ squote ''(intermediate value)'' @ '' as it is undefined.''))
      | Null \<Rightarrow> Inl (JsExn TypeError (''Cannot destructure property '' @ squote ''title'' @
                         '' of '' @ squote ''(intermediate value)'' @ '' as it is null.''))
      | _ \<Rightarrow> bindS (get_prop v ''title'') (\<lambda>t. bindS (get_prop v ''body'') (\<lambda>b.
             bindS (get_prop v ''labels'') (\<lambda>l. Inr \<lparr>rq_title = t, rq_body = b, rq_labels = l\<rparr>))))"

text \<open>The outcome of \<^verbatim>\<open>req.json()\<close> is the input: a parse error message or a value.\<close>

definition parse_request :: "string + jsval \<Rightarrow> exn + issue_request" where
  "parse_request raw =
     bindS (case raw of Inl m \<Rightarrow> Inl (JsExn SyntaxError m) | Inr v \<Rightarrow> Inr v) (\<lambda>v.
     bindS (destructure_request v) (\<lambda>rq.
       if \<not> truthy (rq_title rq) then Inl (JsExn Error ''Issue title is required'') else Inr rq))"

subsection \<open>Outbound requests\<close>

definition graphql_url :: string where
  "graphql_url = ''https://api.github.com/graphql''"

definition issues_url :: "config \<Rightarrow> string" where
  "issues_url cfg = ''https://api.github.com/repos/'' @ github_owner cfg @ ''/'' @ github_repo cfg @ ''/issues''"

definition rest_headers :: "config \<Rightarrow> (string \<times> string) list" where
  "rest_headers cfg =
     [(''Accept'', ''application/vnd.github.v3+json''),
      (''Authorization'', ''Bearer '' @ github_token cfg),
      (''Content-Type'', ''application/json'')]"

definition graphql_headers :: "config \<Rightarrow> (string \<times> string) list" where
  "graphql_headers cfg =
     [(''Authorization'', ''Bearer '' @ github_token cfg),
      (''Content-Type'', ''application/json'')]"

definition create_issue_req :: "config \<Rightarrow> issue_request \<Rightarrow> http_req" where
  "create_issue_req cfg rq =
     \<lparr>req_method = ''POST'', req_url = issues_url cfg, req_headers = rest_headers cfg,
      req_body = Obj [(''title'', rq_title rq), (''body'', rq_body rq), (''labels'', rq_labels rq)]\<rparr>"

definition projectQuery :: string where
  "projectQuery = ''query($owner: String!, $number: Int!) { organization(login: $owner) { projectV2(number: $number) { id fields(first: 20) { nodes { ... on ProjectV2SingleSelectField { id name options { id name } } } } } } }''"

definition addToProjectMutation :: string where
  "addToProjectMutation = ''mutation($projectId: ID!, $contentId: ID!) { addProjectV2ItemById(input: { projectId: $projectId contentId: $contentId }) { item { id } } }''"

definition updateFieldMutation :: string where
  "updateFieldMutation = ''mutation($projectId: ID!, $itemId: ID!, $fieldId: ID!, $optionId: String!) { updateProjectV2ItemFieldValue(input: { projectId: $projectId itemId: $itemId fieldId: $fieldId value: { singleSelectOptionId: $optionId } }) { projectV2Item { id } } }''"

text \<open>
  \<^verbatim>\<open>number: parseInt(PROJECT_NUMBER)\<close>: \<^verbatim>\<open>parseInt\<close> of the number's decimal text; a
  NaN would be written \<^verbatim>\<open>null\<close> by \<^verbatim>\<open>JSON.stringify\<close>.
\<close>

definition project_number_var :: "config \<Rightarrow> jsval" where
  "project_number_var cfg =
     (case js_parseInt (to_js_string (Num (project_number cfg))) of Some n \<Rightarrow> Num n | None \<Rightarrow> Null)"

definition project_query_req :: "config \<Rightarrow> http_req" where
  "project_query_req cfg =
     \<lparr>req_method = ''POST'', req_url = graphql_url, req_headers = graphql_headers cfg,
      req_body = Obj [(''query'', Str projectQuery),
                      (''variables'', Obj [(''owner'', Str (github_owner cfg)), (''number'', project_number_var cfg)])]\<rparr>"

definition add_item_req :: "config \<Rightarrow> jsval \<Rightarrow> jsval \<Rightarrow> http_req" where
  "add_item_req cfg projectId contentId =
     \<lparr>req_method = ''POST'', req_url = graphql_url, req_headers = graphql_headers cfg,
      req_body = Obj [(''query'', Str addToProjectMutation),
                      (''variables'', Obj [(''projectId'', projectId), (''contentId'', contentId)])]\<rparr>"

definition update_field_req :: "config \<Rightarrow> jsval \<Rightarrow> jsval \<Rightarrow> jsval \<Rightarrow> jsval \<Rightarrow> http_req" where
  "update_field_req cfg projectId itemId fieldId optionId =
     \<lparr>req_method = ''POST'', req_url = graphql_url, req_headers = graphql_headers cfg,
      req_body = Obj [(''query'', Str updateFieldMutation),
                      (''variables'', Obj [(''projectId'', projectId), (''itemId'', itemId),
                                           (''fieldId'', fieldId), (''optionId'', optionId)])]\<rparr>"

subsection \<open>The stages\<close>

definition create_issue :: "'w upstream \<Rightarrow> config \<Rightarrow> issue_request \<Rightarrow> ('w, jsval) act" where
  "create_issue up cfg rq =
     bindE (fetch up (create_issue_req cfg rq)) (\<lambda>r.
       if \<not> ok r
       then bindE (liftE (reply_json r)) (\<lambda>err.
              throwE (JsExn Error (''GitHub API error: '' @ to_js_string (js_stringify err))))
       else liftE (reply_json r))"

definition query_project :: "'w upstream \<Rightarrow> config \<Rightarrow> ('w, jsval) act" where
  "query_project up cfg = bindE (fetch up (project_query_req cfg)) (\<lambda>r. liftE (reply_json r))"

text \<open>
  Lines 96--108: the project id, then the field named Status among the project's fields,
  then the option named Icebox among that field's options, then the guard. The
  \<^verbatim>\<open>.options\<close> read comes before the guard, so a missing Status field throws a
  \<^verbatim>\<open>TypeError\<close> there.
\<close>

definition project_path :: "string list" where
  "project_path = [''data'', ''organization'', ''projectV2'']"

definition resolve_project :: "jsval \<Rightarrow> exn + jsval \<times> jsval \<times> jsval" where
  "resolve_project pd =
     bindS (get_path pd (project_path @ [''id''])) (\<lambda>projectId.
     bindS (bindS (get_path pd (project_path @ [''fields'', ''nodes''])) (\<lambda>nodes.
              array_find ''projectData.data.organization.projectV2.fields.nodes'' nodes (name_is ''Status''))) (\<lambda>statusField.
     bindS (bindS (get_prop statusField ''options'') (\<lambda>options.
              array_find ''statusField.options'' options (name_is ''Icebox''))) (\<lambda>iceboxOption.
       if \<not> truthy statusField \<or> \<not> truthy iceboxOption
       then Inl (JsExn Error ''Status field or Icebox option not found in the project'')
       else Inr (projectId, statusField, iceboxOption))))"

definition add_to_project :: "'w upstream \<Rightarrow> config \<Rightarrow> jsval \<Rightarrow> jsval \<Rightarrow> ('w, jsval) act" where
  "add_to_project up cfg projectId issue =
     bindE (liftE (get_prop issue ''node_id'')) (\<lambda>contentId.
     bindE (fetch up (add_item_req cfg projectId contentId)) (\<lambda>r.
     bindE (liftE (reply_json r)) (\<lambda>projectItemData.
       liftE (get_path projectItemData [''data'', ''addProjectV2ItemById'', ''item'', ''id'']))))"

text \<open>Lines 160--175: the response of the last mutation is not looked at.\<close>

definition set_status :: "'w upstream \<Rightarrow> config \<Rightarrow> jsval \<Rightarrow> jsval \<Rightarrow> jsval \<Rightarrow> jsval \<Rightarrow> ('w, unit) act" where
  "set_status up cfg projectId itemId statusField iceboxOption =
     bindE (liftE (get_prop statusField ''id'')) (\<lambda>fieldId.
     bindE (liftE (get_prop iceboxOption ''id'')) (\<lambda>optionId.
     bindE (fetch up (update_field_req cfg projectId itemId fieldId optionId)) (\<lambda>_. returnE ())))"

definition json_headers :: "(string \<times> string) list" where
  "json_headers = [(''Content-Type'', ''application/json'')]"

definition project_url :: "config \<Rightarrow> string" where
  "project_url cfg = ''https://github.com/orgs/'' @ github_owner cfg @ ''/projects/'' @ int_to_str (project_number cfg)"

definition success_response :: "config \<Rightarrow> jsval \<Rightarrow> exn + response" where
  "success_response cfg issue =
     bindS (get_prop issue ''html_url'') (\<lambda>url. bindS (get_prop issue ''number'') (\<lambda>num.
       Inr \<lparr>resp_status = 201, resp_headers = json_headers,
            resp_body = Obj [(''success'', Bool True),
                             (''data'', Obj [(''issue_url'', url), (''issue_number'', num),
                                             (''project_url'', Str (project_url cfg))])]\<rparr>))"

definition error_response :: "exn \<Rightarrow> response" where
  "error_response e =
     \<lparr>resp_status = 400, resp_headers = json_headers,
      resp_body = Obj [(''success'', Bool False), (''error'', Str (message e))]\<rparr>"

subsection \<open>The handler\<close>

definition handle_body :: "'w upstream \<Rightarrow> env \<Rightarrow> string + jsval \<Rightarrow> ('w, response) act" where
  "handle_body up env raw =
     bindE (liftE (read_config env)) (\<lambda>cfg.
     bindE (liftE (parse_request raw)) (\<lambda>rq.
     bindE (create_issue up cfg rq) (\<lambda>issue.
     bindE (query_project up cfg) (\<lambda>projectData.
     bindE (liftE (resolve_project projectData)) (\<lambda>(projectId, statusField, iceboxOption).
     bindE (add_to_project up cfg projectId issue) (\<lambda>itemId.
     bindE (set_status up cfg projectId itemId statusField iceboxOption) (\<lambda>_.
       liftE (success_response cfg issue))))))))"

definition serve :: "'w upstream \<Rightarrow> env \<Rightarrow> string + jsval \<Rightarrow> 'w hstate \<Rightarrow> response \<times> 'w hstate" where
  "serve up env raw s =
     (case handle_body up env raw s of
        (Inl e, s') \<Rightarrow> (error_response e, s')
      | (Inr r, s') \<Rightarrow> (r, s'))"

subsection \<open>The kinds of outbound call\<close>

text \<open>
  Not part of the code: a classification of the requests the handler sends, by URL and
  GraphQL document, used to state in which order the calls are made.
\<close>

datatype call_kind = CreateIssueCall | ProjectQueryCall | AddItemCall | UpdateFieldCall | OtherCall

definition call_kind :: "http_req \<Rightarrow> call_kind" where
  "call_kind r =
     (if req_url r = graphql_url then
        (case get_prop (req_body r) ''query'' of
           Inr (Str q) \<Rightarrow>
             if q = projectQuery then ProjectQueryCall
             else if q = addToProjectMutation then AddItemCall
             else if q = updateFieldMutation then UpdateFieldCall else OtherCall
         | _ \<Rightarrow> OtherCall)
      else if req_method r = ''POST'' then CreateIssueCall else OtherCall)"


subsection \<open>Lemmas: configuration and request\<close>

lemma read_config_Inr:
  "read_config env = Inr cfg \<longleftrightarrow>
   (\<exists>tk ow rp. env ''GITHUB_TOKEN'' = Some tk \<and> env ''GITHUB_OWNER'' = Some ow \<and> env ''GITHUB_REPO'' = Some rp \<and>
      tk \<noteq> [] \<and> ow \<noteq> [] \<and> rp \<noteq> [] \<and>
      cfg = \<lparr>github_token = tk, github_owner = ow, github_repo = rp, project_number = PROJECT_NUMBER\<rparr>)"
  by (auto simp: read_config_def env_get_def PROJECT_NUMBER_def Let_def split: option.splits)

lemma read_config_Inl:
  "read_config env = Inl e \<Longrightarrow> e = JsExn Error ''Required environment variables are not set''"
  by (auto simp: read_config_def Let_def split: if_splits)

lemma parse_request_Inr:
  "parse_request raw = Inr rq \<longleftrightarrow>
   (\<exists>v. raw = Inr v \<and> destructure_request v = Inr rq \<and> truthy (rq_title rq))"
  by (auto simp: parse_request_def split: sum.splits)

lemma destructure_request_Inr:
  "destructure_request v = Inr rq \<longleftrightarrow> v \<noteq> Undefined \<and> v \<noteq> Null \<and>
     rq = \<lparr>rq_title = member v ''title'', rq_body = member v ''body'', rq_labels = member v ''labels''\<rparr>"
  by (cases v) (auto simp: destructure_request_def member_def)

lemma create_issue_sent [simp]:
  "sent (snd (create_issue up cfg rq s)) = sent s @ [create_issue_req cfg rq]"
  by (auto simp: create_issue_def bindE_apply dest: fetch_sentD split: prod.splits sum.splits)

lemma query_project_sent [simp]:
  "sent (snd (query_project up cfg s)) = sent s @ [project_query_req cfg]"
  by (auto simp: query_project_def bindE_apply dest: fetch_sentD split: prod.splits sum.splits)

subsection \<open>Lemmas: the stages on each branch\<close>

lemma resolve_project_no_status:
  assumes "get_path pd (project_path @ [''id'']) = Inr pid"
    and "get_path pd (project_path @ [''fields'', ''nodes'']) = Inr (Arr nodes)"
    and "\<forall>n\<in>set nodes. name_is ''Status'' n = Inr False"
  shows "resolve_project pd = Inl (read_error ''undefined'' ''options'')"
  using assms by (simp add: resolve_project_def array_find_def find_js_none)

lemma resolve_project_no_icebox:
  assumes "get_path pd (project_path @ [''id'']) = Inr pid"
    and "get_path pd (project_path @ [''fields'', ''nodes'']) = Inr (Arr nodes)"
    and "find_js (name_is ''Status'') nodes = Inr (Obj f)"
    and "map_of f ''options'' = Some (Arr opts)"
    and "\<forall>n\<in>set opts. name_is ''Icebox'' n = Inr False"
  shows "resolve_project pd = Inl (JsExn Error ''Status field or Icebox option not found in the project'')"
  using assms by (simp add: resolve_project_def array_find_def find_js_none)

lemma resolve_project_found:
  assumes "get_path pd (project_path @ [''id'']) = Inr pid"
    and "get_path pd (project_path @ [''fields'', ''nodes'']) = Inr (Arr nodes)"
    and "find_js (name_is ''Status'') nodes = Inr (Obj f)"
    and "map_of f ''options'' = Some (Arr opts)"
    and "find_js (name_is ''Icebox'') opts = Inr (Obj o')"
  shows "resolve_project pd = Inr (pid, Obj f, Obj o')"
  using assms by (simp add: resolve_project_def array_find_def)

lemma create_issue_Reply:
  assumes "up (world s) (create_issue_req cfg rq) = (Reply st b, w')"
  shows "create_issue up cfg rq s =
    (if 200 \<le> st \<and> st \<le> 299
     then (case b of Inl m \<Rightarrow> Inl (JsExn SyntaxError m) | Inr v \<Rightarrow> Inr v)
     else Inl (case b of Inl m \<Rightarrow> JsExn SyntaxError m
                       | Inr v \<Rightarrow> JsExn Error (''GitHub API error: '' @ to_js_string (js_stringify v))),
     s\<lparr>world := w', sent := sent s @ [create_issue_req cfg rq]\<rparr>)"
  using assms by (simp add: create_issue_def bindE_apply fetch_Reply ok_def reply_json_def split: sum.splits)

lemma create_issue_NetworkError:
  assumes "up (world s) (create_issue_req cfg rq) = (NetworkError m, w')"
  shows "create_issue up cfg rq s = (Inl (JsExn TypeError m), s\<lparr>world := w', sent := sent s @ [create_issue_req cfg rq]\<rparr>)"
  using assms by (simp add: create_issue_def bindE_apply fetch_NetworkError)

lemma query_project_Reply:
  assumes "up (world s) (project_query_req cfg) = (Reply st b, w')"
  shows "query_project up cfg s =
    (case b of Inl m \<Rightarrow> Inl (JsExn SyntaxError m) | Inr v \<Rightarrow> Inr v, s\<lparr>world := w', sent := sent s @ [project_query_req cfg]\<rparr>)"
  using assms by (simp add: query_project_def bindE_apply fetch_Reply reply_json_def split: sum.splits)

lemma handle_body_stages:
  assumes "read_config env = Inr cfg" "parse_request raw = Inr rq"
  shows "handle_body up env raw =
     bindE (create_issue up cfg rq) (\<lambda>issue.
     bindE (query_project up cfg) (\<lambda>projectData.
     bindE (liftE (resolve_project projectData)) (\<lambda>(projectId, statusField, iceboxOption).
     bindE (add_to_project up cfg projectId issue) (\<lambda>itemId.
     bindE (set_status up cfg projectId itemId statusField iceboxOption) (\<lambda>_.
       liftE (success_response cfg issue))))))"
  using assms by (simp add: handle_body_def)

subsection \<open>Lemmas: the requests each stage sends\<close>

lemma call_kind_reqs [simp]:
  "call_kind (create_issue_req cfg rq) = CreateIssueCall"
  "call_kind (project_query_req cfg) = ProjectQueryCall"
  "call_kind (add_item_req cfg p c) = AddItemCall"
  "call_kind (update_field_req cfg p i f o') = UpdateFieldCall"
  by (simp_all add: call_kind_def create_issue_req_def issues_url_def graphql_url_def project_query_req_def
      add_item_req_def update_field_req_def projectQuery_def addToProjectMutation_def updateFieldMutation_def)

lemma create_issue_sentD: "create_issue up cfg rq s = (x, s') \<Longrightarrow> sent s' = sent s @ [create_issue_req cfg rq]"
  by (auto simp: create_issue_def bindE_apply dest: fetch_sentD split: prod.splits sum.splits if_splits)

lemma query_project_sentD: "query_project up cfg s = (x, s') \<Longrightarrow> sent s' = sent s @ [project_query_req cfg]"
  by (auto simp: query_project_def bindE_apply dest: fetch_sentD split: prod.splits sum.splits)

lemma add_to_project_sentD:
  "add_to_project up cfg p issue s = (x, s') \<Longrightarrow>
   (sent s' = sent s \<and> (\<exists>e. x = Inl e)) \<or> (\<exists>c. sent s' = sent s @ [add_item_req cfg p c])"
  by (auto simp: add_to_project_def bindE_apply dest: fetch_sentD split: prod.splits sum.splits) metis

lemma set_status_sentD:
  "set_status up cfg p i f o' s = (x, s') \<Longrightarrow>
   (sent s' = sent s \<and> (\<exists>e. x = Inl e)) \<or> (\<exists>fi oi. sent s' = sent s @ [update_field_req cfg p i fi oi])"
  by (cases "get_prop f ''id''"; cases "get_prop o' ''id''") (auto simp: set_status_def bindE_apply dest: fetch_sentD split: prod.splits sum.splits)

lemma handle_body_trace:
  assumes "handle_body up env raw s = (x, s')"
  shows "\<exists>cs. sent s' = sent s @ cs \<and> length cs \<le> 4 \<and>
           map call_kind cs = take (length cs) [CreateIssueCall, ProjectQueryCall, AddItemCall, UpdateFieldCall] \<and>
           (\<not> isl x \<longrightarrow> length cs = 4)"
  using assms
  apply (auto simp: handle_body_def bindE_apply split: prod.splits sum.splits
      dest!: create_issue_sentD query_project_sentD add_to_project_sentD set_status_sentD)
  done

subsection \<open>Lemmas: the later stages\<close>

lemma resolve_project_Inr_truthy:
  "resolve_project pd = Inr (p, f, o') \<Longrightarrow> truthy f \<and> truthy o'"
  by (auto simp: resolve_project_def split: if_splits)

lemma add_to_project_Reply:
  assumes "get_prop issue ''node_id'' = Inr c"
    and "up (world s) (add_item_req cfg p c) = (Reply st b, w')"
  shows "add_to_project up cfg p issue s =
    (bindS (case b of Inl m \<Rightarrow> Inl (JsExn SyntaxError m) | Inr v \<Rightarrow> Inr v)
       (\<lambda>d. get_path d [''data'', ''addProjectV2ItemById'', ''item'', ''id'']),
     s\<lparr>world := w', sent := sent s @ [add_item_req cfg p c]\<rparr>)"
  using assms by (simp add: add_to_project_def bindE_apply fetch_Reply reply_json_def split: sum.splits)

text \<open>Whatever the last mutation answers, the stage succeeds.\<close>

lemma set_status_Reply:
  assumes "truthy f" "truthy o'"
    and "up (world s) (update_field_req cfg p i (member f ''id'') (member o' ''id'')) = (Reply st b, w')"
  shows "set_status up cfg p i f o' s =
    (Inr (), s\<lparr>world := w', sent := sent s @ [update_field_req cfg p i (member f ''id'') (member o' ''id'')]\<rparr>)"
  using assms by (simp add: set_status_def bindE_apply fetch_Reply get_prop_truthy [of f] get_prop_truthy [of o'])

lemma set_status_NetworkError:
  assumes "truthy f" "truthy o'"
    and "up (world s) (update_field_req cfg p i (member f ''id'') (member o' ''id'')) = (NetworkError m, w')"
  shows "set_status up cfg p i f o' s =
    (Inl (JsExn TypeError m), s\<lparr>world := w', sent := sent s @ [update_field_req cfg p i (member f ''id'') (member o' ''id'')]\<rparr>)"
  using assms by (simp add: set_status_def bindE_apply fetch_NetworkError get_prop_truthy [of f] get_prop_truthy [of o'])

lemma success_response_truthy:
  "truthy issue \<Longrightarrow> success_response cfg issue =
     Inr \<lparr>resp_status = 201, resp_headers = json_headers,
          resp_body = Obj [(''success'', Bool True),
                           (''data'', Obj [(''issue_url'', member issue ''html_url''),
                                           (''issue_number'', member issue ''number''),
                                           (''project_url'', Str (project_url cfg))])]\<rparr>"
  by (simp add: success_response_def get_prop_truthy [of issue])

lemma project_url_read_config:
  "read_config env = Inr cfg \<Longrightarrow> project_url cfg = ''https://github.com/orgs/'' @ github_owner cfg @ ''/projects/1''"
  by (auto simp: read_config_Inr project_url_def int_to_str_def PROJECT_NUMBER_def nat_to_str.simps)

subsection \<open>Lemmas: runs of the whole handler\<close>

lemma handle_body_after_query:
  assumes cfg: "read_config env = Inr cfg" and rq: "parse_request raw = Inr rq"
    and c: "up (world s) (create_issue_req cfg rq) = (Reply st1 (Inr issue), w1)" "200 \<le> st1" "st1 \<le> 299"
    and q: "up w1 (project_query_req cfg) = (Reply st2 (Inr pd), w2)"
  shows "handle_body up env raw s =
     bindE (liftE (resolve_project pd)) (\<lambda>(projectId, statusField, iceboxOption).
     bindE (add_to_project up cfg projectId issue) (\<lambda>itemId.
     bindE (set_status up cfg projectId itemId statusField iceboxOption) (\<lambda>_.
       liftE (success_response cfg issue))))
     (s\<lparr>world := w2, sent := sent s @ [create_issue_req cfg rq, project_query_req cfg]\<rparr>)"
proof -
  define s1 where "s1 = s\<lparr>world := w1, sent := sent s @ [create_issue_req cfg rq]\<rparr>"
  have 1: "create_issue up cfg rq s = (Inr issue, s1)"
    using create_issue_Reply [of up s cfg rq st1 "Inr issue" w1, OF c(1)] c(2,3) by (simp add: s1_def)
  have 2: "query_project up cfg s1 = (Inr pd, s1\<lparr>world := w2, sent := sent s1 @ [project_query_req cfg]\<rparr>)"
    using query_project_Reply [of up s1] q by (simp add: s1_def)
  show ?thesis
    using 1 2 by (simp add: handle_body_stages [OF cfg rq] bindE_apply s1_def)
qed

lemma handle_body_after_add:
  assumes cfg: "read_config env = Inr cfg" and rq: "parse_request raw = Inr rq"
    and c: "up (world s) (create_issue_req cfg rq) = (Reply st1 (Inr issue), w1)" "200 \<le> st1" "st1 \<le> 299" "truthy issue"
    and q: "up w1 (project_query_req cfg) = (Reply st2 (Inr pd), w2)"
    and r: "resolve_project pd = Inr (pid, sf, io)"
    and a: "up w2 (add_item_req cfg pid (member issue ''node_id'')) = (Reply st3 (Inr ad), w3)"
  shows "handle_body up env raw s =
     bindE (liftE (get_path ad [''data'', ''addProjectV2ItemById'', ''item'', ''id''])) (\<lambda>itemId.
     bindE (set_status up cfg pid itemId sf io) (\<lambda>_. liftE (success_response cfg issue)))
     (s\<lparr>world := w3, sent := sent s @ [create_issue_req cfg rq, project_query_req cfg,
                                          add_item_req cfg pid (member issue ''node_id'')]\<rparr>)"
proof -
  define s2 where "s2 = s\<lparr>world := w2, sent := sent s @ [create_issue_req cfg rq, project_query_req cfg]\<rparr>"
  have 3: "add_to_project up cfg pid issue s2 =
      (get_path ad [''data'', ''addProjectV2ItemById'', ''item'', ''id''],
       s2\<lparr>world := w3, sent := sent s2 @ [add_item_req cfg pid (member issue ''node_id'')]\<rparr>)"
    using add_to_project_Reply [of issue "member issue ''node_id''" up s2] a c(4)
    by (simp add: s2_def get_prop_truthy)
  show ?thesis
    using 3 r by (simp add: handle_body_after_query [OF cfg rq c(1-3) q] bindE_apply s2_def)
qed

lemma handle_body_Inr:
  "handle_body up env raw s = (Inr r, s') \<Longrightarrow> \<exists>cfg issue. success_response cfg issue = Inr r"
  by (auto simp: handle_body_def bindE_apply split: prod.splits sum.splits)

lemma success_response_Inr:
  "success_response cfg issue = Inr r \<Longrightarrow> resp_status r = 201 \<and> member (resp_body r) ''success'' = Bool True"
  by (auto simp: success_response_def)

lemma handle_body_trace_auth:
  assumes "handle_body up env raw s = (x, s')"
  shows "\<exists>cs. sent s' = sent s @ cs \<and> (\<forall>r\<in>set cs. \<exists>cfg. read_config env = Inr cfg \<and>
           req_headers r \<in> {rest_headers cfg, graphql_headers cfg} \<and> req_method r = ''POST'')"
  using assms
  by (auto simp: handle_body_def bindE_apply create_issue_req_def project_query_req_def add_item_req_def
      update_field_req_def split: prod.splits sum.splits
      dest!: create_issue_sentD query_project_sentD add_to_project_sentD set_status_sentD)

lemma serve_resolve_fails:
  assumes cfg: "read_config env = Inr cfg" and rq: "parse_request raw = Inr rq"
    and c: "up (world s) (create_issue_req cfg rq) = (Reply st1 (Inr issue), w1)" "200 \<le> st1" "st1 \<le> 299"
    and q: "up w1 (project_query_req cfg) = (Reply st2 (Inr pd), w2)"
    and r: "resolve_project pd = Inl e"
  shows "serve up env raw s = (error_response e, s\<lparr>world := w2, sent := sent s @ [create_issue_req cfg rq, project_query_req cfg]\<rparr>)"
  using r by (simp add: serve_def handle_body_after_query [OF cfg rq c q])

subsection \<open>Lemmas: the world through a run\<close>

text \<open>
  The handler changes the world only through its requests: a property of the world that
  every answer of the upstream keeps holds after the whole invocation.
\<close>

lemma handle_body_keeps_world: "upstream_keeps P up \<Longrightarrow> keeps_world P (handle_body up env raw)"
  unfolding handle_body_def create_issue_def query_project_def add_to_project_def set_status_def
  by (intro keeps_world_bindE keeps_world_case_prod keeps_world_if keeps_world_fetch keeps_world_liftE
      keeps_world_returnE keeps_world_throwE)

lemma serve_keeps_world:
  assumes "upstream_keeps P up" "P (world s)"
  shows "P (world (snd (serve up env raw s)))"
  using handle_body_keeps_world [OF assms(1), of env raw] assms(2)
  by (auto simp: serve_def keeps_world_def split: prod.splits sum.splits)

subsection \<open>The issue payload on the wire\<close>

end
