(* ===== verification/GitHub.thy ===== *)
theory GitHub
  imports Handler "HOL-Library.AList"
begin

text \<open>
  The collaborator of the handler: GitHub's REST issue endpoint and its GraphQL endpoint,
  as far as the handler uses them (specification, section 6). GitHub is not code of the
  repository; it is modelled as a world \<open>github\<close> (one repository and one organisation
  project) and an \<open>github upstream\<close>, \<open>gh_serve\<close>, that answers one request of the
  handler and returns the next world. A request is authorised when its
  \<^verbatim>\<open>Authorization\<close> header carries the world's token; GitHub reads the request's body
  from the JSON text, which is \<open>wire\<close> of the value the handler stringified. Issues are
  numbered from 1 in order of creation; the project's items are numbered likewise, and an
  item records, per single-select field, the id of the option it holds. The project query
  returns the first \<open>n\<close> fields, \<open>n\<close> read from the document's
  \<^verbatim>\<open>fields(first: n)\<close> argument (GitHub refuses a connection without it and one
  over 100), a field of another type as an empty object (the inline fragment selects
  nothing of it). An issue needs a title that is a non-empty string or an integer (GitHub
  documents the title as "string or integer"); GitHub's further checks (label names, body
  type, rate limits) are not modelled, and the mutations need ids that exist.
\<close>

record gh_issue =
  iss_number :: nat
  iss_title :: string
  iss_body :: jsval
  iss_labels :: jsval

datatype gh_field =
    SingleSelect (fld_id: string) (fld_name: string) (fld_options: "(string \<times> string) list")
  | OtherField (fld_id: string) (fld_name: string)

record gh_item =
  item_id :: string
  item_content :: string
  item_values :: "(string \<times> string) list"

record github =
  gh_token :: string
  gh_owner :: string
  gh_repo :: string
  gh_number :: int
  gh_project_id :: string
  gh_fields :: "gh_field list"
  gh_issues :: "gh_issue list"
  gh_items :: "gh_item list"

subsection \<open>Identifiers and JSON of GitHub's objects\<close>

text \<open>A member of a body as GitHub reads it: absent when the handler's value is \<^verbatim>\<open>undefined\<close>.\<close>

definition received :: "jsval \<Rightarrow> jsval" where
  "received v = (if v = Undefined then Undefined else wire v)"

text \<open>An id variable of a GraphQL request: GitHub accepts a string.\<close>

fun id_var :: "jsval \<Rightarrow> string option" where
  "id_var (Str s) = Some s"
| "id_var v = None"

definition issue_node :: "nat \<Rightarrow> string" where
  "issue_node n = ''I_'' @ nat_to_str n"

definition item_name :: "nat \<Rightarrow> string" where
  "item_name n = ''PVTI_'' @ nat_to_str n"

definition gh_issues_url :: "github \<Rightarrow> string" where
  "gh_issues_url g = ''https://api.github.com/repos/'' @ gh_owner g @ ''/'' @ gh_repo g @ ''/issues''"

definition issue_html_url :: "github \<Rightarrow> nat \<Rightarrow> string" where
  "issue_html_url g n = ''https://github.com/'' @ gh_owner g @ ''/'' @ gh_repo g @ ''/issues/'' @ nat_to_str n"

definition issue_json :: "github \<Rightarrow> gh_issue \<Rightarrow> jsval" where
  "issue_json g i =
     Obj [(''node_id'', Str (issue_node (iss_number i))), (''number'', Num (int (iss_number i))),
          (''html_url'', Str (issue_html_url g (iss_number i))), (''title'', Str (iss_title i))]"

definition option_json :: "string \<times> string \<Rightarrow> jsval" where
  "option_json opt = Obj [(''id'', Str (fst opt)), (''name'', Str (snd opt))]"

primrec field_json :: "gh_field \<Rightarrow> jsval" where
  "field_json (SingleSelect i n opts) = Obj [(''id'', Str i), (''name'', Str n), (''options'', Arr (map option_json opts))]"
| "field_json (OtherField i n) = Obj []"

definition gql_data :: "string \<Rightarrow> jsval \<Rightarrow> jsval" where
  "gql_data k v = Obj [(''data'', Obj [(k, v)])]"

definition gql_error :: "string \<Rightarrow> jsval \<Rightarrow> string \<Rightarrow> jsval" where
  "gql_error k v msg = Obj [(''data'', Obj [(k, v)]), (''errors'', Arr [Obj [(''message'', Str msg)]])]"

definition rest_error :: "string \<Rightarrow> jsval" where
  "rest_error msg = Obj [(''message'', Str msg)]"

text \<open>A document rejected by GitHub's validation: no \<^verbatim>\<open>data\<close>, only the errors.\<close>

definition gql_errors :: "string \<Rightarrow> jsval" where
  "gql_errors msg = Obj [(''errors'', Arr [Obj [(''message'', Str msg)]])]"

definition project_nodes :: "nat \<Rightarrow> github \<Rightarrow> jsval" where
  "project_nodes n g = Arr (map field_json (take n (gh_fields g)))"

text \<open>The data of the project query: the project's id and its first \<open>n\<close> fields.\<close>

definition gh_project_answer :: "github \<Rightarrow> nat \<Rightarrow> jsval" where
  "gh_project_answer g n =
     gql_data ''organization'' (Obj [(''projectV2'', Obj [(''id'', Str (gh_project_id g)),
       (''fields'', Obj [(''nodes'', project_nodes n g)])])])"

text \<open>The rest of a document after the first occurrence of \<open>p\<close>.\<close>

fun after_infix :: "string \<Rightarrow> string \<Rightarrow> string option" where
  "after_infix p [] = (if p = [] then Some [] else None)"
| "after_infix p (c # cs) =
     (if take (length p) (c # cs) = p then Some (drop (length p) (c # cs)) else after_infix p cs)"

text \<open>The page size a document asks of the project's \<^verbatim>\<open>fields\<close> connection.\<close>

definition fields_first :: "string \<Rightarrow> nat option" where
  "fields_first d =
     (case after_infix ''fields(first: '' d of
        None \<Rightarrow> None
      | Some r \<Rightarrow>
          (let ds = takeWhile (\<lambda>c. digit_val 10 c \<noteq> None) r in
           if ds = [] then None else Some (digits_value 10 (List.map_filter (digit_val 10) ds))))"

subsection \<open>The endpoints\<close>

text \<open>The title of a new issue: a string, or an integer, which GitHub stores as its decimal text.\<close>

fun title_text :: "jsval \<Rightarrow> string option" where
  "title_text (Str t) = Some t"
| "title_text (Num n) = Some (int_to_str n)"
| "title_text v = None"

text \<open>\<^verbatim>\<open>POST /repos/{owner}/{repo}/issues\<close> with the request's JSON body \<open>b\<close>.\<close>

definition gh_create_issue :: "github \<Rightarrow> jsval \<Rightarrow> fetch_res \<times> github" where
  "gh_create_issue g b =
     (case title_text (member b ''title'') of
        Some t \<Rightarrow>
          if t = [] then (Reply 422 (Inr (rest_error ''Validation Failed'')), g)
          else (let i = \<lparr>iss_number = Suc (length (gh_issues g)), iss_title = t,
                         iss_body = member b ''body'', iss_labels = member b ''labels''\<rparr>
                in (Reply 201 (Inr (issue_json g i)), g\<lparr>gh_issues := gh_issues g @ [i]\<rparr>))
      | None \<Rightarrow> (Reply 422 (Inr (rest_error ''Validation Failed'')), g))"

text \<open>
  The project query \<open>d\<close>: its page size validated first, then the organisation by login,
  then its project by number.
\<close>

definition gh_project_query :: "github \<Rightarrow> string \<Rightarrow> jsval \<Rightarrow> fetch_res" where
  "gh_project_query g d vars =
     (case fields_first d of
        None \<Rightarrow> Reply 200 (Inr (gql_errors ''You must provide a first or last value to properly paginate the fields connection.''))
      | Some n \<Rightarrow>
          if 100 < n
          then Reply 200 (Inr (gql_errors (''Requesting '' @ nat_to_str n @ '' records on the fields connection exceeds the first limit of 100 records.'')))
          else if member vars ''owner'' \<noteq> Str (gh_owner g)
          then Reply 200 (Inr (gql_error ''organization'' Null ''Could not resolve to an Organization''))
          else if member vars ''number'' \<noteq> Num (gh_number g)
          then Reply 200 (Inr (gql_error ''organization'' (Obj [(''projectV2'', Null)]) ''Could not resolve to a ProjectV2''))
          else Reply 200 (Inr (gh_project_answer g n)))"

definition added_json :: "gh_item \<Rightarrow> jsval" where
  "added_json it = gql_data ''addProjectV2ItemById'' (Obj [(''item'', Obj [(''id'', Str (item_id it))])])"

text \<open>Adding content that is already an item of the project returns that item.\<close>

definition gh_add_item :: "github \<Rightarrow> jsval \<Rightarrow> fetch_res \<times> github" where
  "gh_add_item g vars =
     (case (id_var (member vars ''projectId''), id_var (member vars ''contentId'')) of
        (Some p, Some c) \<Rightarrow>
          if p = gh_project_id g \<and> c \<in> set (map (issue_node \<circ> iss_number) (gh_issues g)) then
            (case find (\<lambda>it. item_content it = c) (gh_items g) of
               Some it \<Rightarrow> (Reply 200 (Inr (added_json it)), g)
             | None \<Rightarrow>
                 (let it = \<lparr>item_id = item_name (Suc (length (gh_items g))), item_content = c, item_values = []\<rparr>
                  in (Reply 200 (Inr (added_json it)), g\<lparr>gh_items := gh_items g @ [it]\<rparr>)))
          else (Reply 200 (Inr (gql_error ''addProjectV2ItemById'' Null ''Could not resolve to a node'')), g)
      | _ \<Rightarrow> (Reply 200 (Inr (gql_error ''addProjectV2ItemById'' Null ''Expected an ID'')), g))"

definition has_option :: "github \<Rightarrow> string \<Rightarrow> string \<Rightarrow> bool" where
  "has_option g f o' =
     list_ex (\<lambda>fl. case fl of SingleSelect i n opts \<Rightarrow> i = f \<and> o' \<in> set (map fst opts) | OtherField i n \<Rightarrow> False)
       (gh_fields g)"

definition set_value :: "string \<Rightarrow> string \<Rightarrow> string \<Rightarrow> gh_item \<Rightarrow> gh_item" where
  "set_value i f o' it = (if item_id it = i then it\<lparr>item_values := AList.update f o' (item_values it)\<rparr> else it)"

definition gh_update_field :: "github \<Rightarrow> jsval \<Rightarrow> fetch_res \<times> github" where
  "gh_update_field g vars =
     (case (id_var (member vars ''projectId''), id_var (member vars ''itemId''),
           id_var (member vars ''fieldId''), id_var (member vars ''optionId'')) of
        (Some p, Some i, Some f, Some o') \<Rightarrow>
          if p = gh_project_id g \<and> i \<in> set (map item_id (gh_items g)) \<and> has_option g f o' then
            (Reply 200 (Inr (gql_data ''updateProjectV2ItemFieldValue'' (Obj [(''projectV2Item'', Obj [(''id'', Str i)])]))),
             g\<lparr>gh_items := map (set_value i f o') (gh_items g)\<rparr>)
          else (Reply 200 (Inr (gql_error ''updateProjectV2ItemFieldValue'' Null ''Could not resolve to a node'')), g)
      | _ \<Rightarrow> (Reply 200 (Inr (gql_error ''updateProjectV2ItemFieldValue'' Null ''Expected an ID'')), g))"

text \<open>
  The dispatch: authorisation first, then the REST route, then the GraphQL document; the
  three documents of the handler are the ones GitHub is modelled to understand.
\<close>

definition gh_serve :: "github upstream" where
  "gh_serve g r =
     (let b = wire (req_body r) in
      if map_of (req_headers r) ''Authorization'' \<noteq> Some (''Bearer '' @ gh_token g)
      then (Reply 401 (Inr (rest_error ''Bad credentials'')), g)
      else if req_method r = ''POST'' \<and> req_url r = gh_issues_url g then gh_create_issue g b
      else if req_method r = ''POST'' \<and> req_url r = graphql_url then
        (let q = member b ''query''; vars = member b ''variables'' in
         if q = Str projectQuery then (gh_project_query g projectQuery vars, g)
         else if q = Str addToProjectMutation then gh_add_item g vars
         else if q = Str updateFieldMutation then gh_update_field g vars
         else (Reply 200 (Inr (gql_error ''query'' Null ''Parse error'')), g))
      else (Reply 404 (Inr (rest_error ''Not Found'')), g))"

subsection \<open>Well-formed worlds\<close>

text \<open>
  The invariant GitHub maintains: the \<open>k\<close>-th issue has number \<open>k + 1\<close> and the
  \<open>k\<close>-th item the name \<open>item_name (k + 1)\<close>; each item holds an issue of the repository
  and no issue is held twice; every value an item holds is an option of a single-select
  field; field ids and the option ids of a field are distinct.
\<close>

definition field_ok :: "gh_field \<Rightarrow> bool" where
  "field_ok fl = (case fl of SingleSelect i n opts \<Rightarrow> distinct (map fst opts) | OtherField i n \<Rightarrow> True)"

definition gh_wf :: "github \<Rightarrow> bool" where
  "gh_wf g \<longleftrightarrow>
     map iss_number (gh_issues g) = [1..<Suc (length (gh_issues g))] \<and>
     map item_id (gh_items g) = map item_name [1..<Suc (length (gh_items g))] \<and>
     set (map item_content (gh_items g)) \<subseteq> set (map (issue_node \<circ> iss_number) (gh_issues g)) \<and>
     distinct (map item_content (gh_items g)) \<and>
     list_all (\<lambda>it. list_all (\<lambda>(f, o'). has_option g f o') (item_values it)) (gh_items g) \<and>
     distinct (map fld_id (gh_fields g)) \<and> list_all field_ok (gh_fields g)"

text \<open>Two worlds with the same token, repository, project and fields.\<close>

definition same_settings :: "github \<Rightarrow> github \<Rightarrow> bool" where
  "same_settings g g' \<longleftrightarrow>
     gh_token g' = gh_token g \<and> gh_owner g' = gh_owner g \<and> gh_repo g' = gh_repo g \<and>
     gh_number g' = gh_number g \<and> gh_project_id g' = gh_project_id g \<and> gh_fields g' = gh_fields g"

subsection \<open>Lemmas: identifiers\<close>

lemma nat_to_str_inj: "nat_to_str m = nat_to_str n \<longleftrightarrow> m = n"
  by (metis nat_to_str_value)

lemma issue_node_inj [simp]: "issue_node m = issue_node n \<longleftrightarrow> m = n"
  by (simp add: issue_node_def nat_to_str_inj)

lemma item_name_inj [simp]: "item_name m = item_name n \<longleftrightarrow> m = n"
  by (simp add: item_name_def nat_to_str_inj)

lemma documents_distinct [simp]:
  "projectQuery \<noteq> addToProjectMutation" "projectQuery \<noteq> updateFieldMutation"
  "addToProjectMutation \<noteq> projectQuery" "addToProjectMutation \<noteq> updateFieldMutation"
  "updateFieldMutation \<noteq> projectQuery" "updateFieldMutation \<noteq> addToProjectMutation"
  by (simp_all add: projectQuery_def addToProjectMutation_def updateFieldMutation_def)

text \<open>The handler's project query asks for a page of 20 fields (line 63).\<close>

lemma projectQuery_fields_first: "fields_first projectQuery = Some 20"
  by code_simp

lemma graphql_url_not_issues [simp]: "graphql_url \<noteq> gh_issues_url g"
  by (simp add: graphql_url_def gh_issues_url_def)

lemma project_number_var_one: "project_number cfg = 1 \<Longrightarrow> project_number_var cfg = Num 1"
  by (simp add: project_number_var_def int_to_str_def nat_to_str.simps js_parseInt_def js_space_def
      digit_val_def digits_value_def List.map_filter_def)

subsection \<open>Lemmas: GitHub's answers to the handler's requests\<close>

lemma gh_serve_create_req:
  assumes "github_token cfg = gh_token g" "github_owner cfg = gh_owner g" "github_repo cfg = gh_repo g"
    and "rq_title rq = Str t" "t \<noteq> []"
  shows "gh_serve g (create_issue_req cfg rq) =
    (let i = \<lparr>iss_number = Suc (length (gh_issues g)), iss_title = t,
              iss_body = received (rq_body rq), iss_labels = received (rq_labels rq)\<rparr>
     in (Reply 201 (Inr (issue_json g i)), g\<lparr>gh_issues := gh_issues g @ [i]\<rparr>))"
  using assms
  by (simp add: gh_serve_def create_issue_req_def rest_headers_def issues_url_def gh_issues_url_def
      gh_create_issue_def received_def Let_def)

lemma gh_serve_create_req_rejected:
  assumes "github_token cfg = gh_token g" "github_owner cfg = gh_owner g" "github_repo cfg = gh_repo g"
    and "\<forall>t. rq_title rq = Str t \<longrightarrow> t = []" "\<forall>n. rq_title rq \<noteq> Num n" "rq_title rq \<noteq> Undefined"
  shows "gh_serve g (create_issue_req cfg rq) = (Reply 422 (Inr (rest_error ''Validation Failed'')), g)"
  using assms
  by (cases "rq_title rq")
     (simp_all add: gh_serve_def create_issue_req_def rest_headers_def issues_url_def gh_issues_url_def
      gh_create_issue_def Let_def)

lemma gh_serve_query_req:
  assumes "github_token cfg = gh_token g" "github_owner cfg = gh_owner g"
    and "project_number cfg = 1" "gh_number g = 1"
  shows "gh_serve g (project_query_req cfg) = (Reply 200 (Inr (gh_project_answer g 20)), g)"
  using assms
  by (simp add: gh_serve_def project_query_req_def graphql_headers_def graphql_url_def gh_issues_url_def
      gh_project_query_def project_number_var_one projectQuery_fields_first)

lemma gh_serve_add_req:
  assumes "github_token cfg = gh_token g" "n \<in> set (map iss_number (gh_issues g))"
    and "find (\<lambda>it. item_content it = issue_node n) (gh_items g) = None"
  shows "gh_serve g (add_item_req cfg (Str (gh_project_id g)) (Str (issue_node n))) =
    (let it = \<lparr>item_id = item_name (Suc (length (gh_items g))), item_content = issue_node n, item_values = []\<rparr>
     in (Reply 200 (Inr (added_json it)), g\<lparr>gh_items := gh_items g @ [it]\<rparr>))"
proof -
  have "issue_node n \<in> set (map (issue_node \<circ> iss_number) (gh_issues g))" using assms(2) by auto
  then show ?thesis
    using assms
    by (simp add: gh_serve_def add_item_req_def graphql_headers_def graphql_url_def gh_issues_url_def
        gh_add_item_def)
qed

lemma gh_serve_update_req:
  assumes "github_token cfg = gh_token g" "i \<in> set (map item_id (gh_items g))" "has_option g f o'"
  shows "gh_serve g (update_field_req cfg (Str (gh_project_id g)) (Str i) (Str f) (Str o')) =
    (Reply 200 (Inr (gql_data ''updateProjectV2ItemFieldValue'' (Obj [(''projectV2Item'', Obj [(''id'', Str i)])]))),
     g\<lparr>gh_items := map (set_value i f o') (gh_items g)\<rparr>)"
  using assms
  by (simp add: gh_serve_def update_field_req_def graphql_headers_def graphql_url_def gh_issues_url_def
      gh_update_field_def)

subsection \<open>Lemmas: the invariant\<close>

lemma same_settings_refl [simp]: "same_settings g g"
  unfolding same_settings_def by simp

lemma gh_create_issue_settings: "same_settings g (snd (gh_create_issue g b))"
  unfolding gh_create_issue_def same_settings_def Let_def
  by (auto split: option.split)

lemma gh_add_item_settings: "same_settings g (snd (gh_add_item g v))"
  unfolding gh_add_item_def same_settings_def Let_def
  by (auto split: option.split)

lemma gh_update_field_settings: "same_settings g (snd (gh_update_field g v))"
  unfolding gh_update_field_def same_settings_def
  by (auto split: option.split)

lemma gh_serve_settings: "same_settings g (snd (gh_serve g r))"
  unfolding gh_serve_def Let_def
  by (simp add: gh_create_issue_settings gh_add_item_settings gh_update_field_settings)

lemma same_settingsD:
  "same_settings g g' \<Longrightarrow> gh_token g' = gh_token g \<and> gh_owner g' = gh_owner g \<and> gh_repo g' = gh_repo g \<and>
     gh_number g' = gh_number g \<and> gh_project_id g' = gh_project_id g \<and> gh_fields g' = gh_fields g"
  unfolding same_settings_def by simp

lemma same_settings_trans: "same_settings g g' \<Longrightarrow> same_settings g' g'' \<Longrightarrow> same_settings g g''"
  unfolding same_settings_def by simp

lemma has_option_settings: "same_settings g g' \<Longrightarrow> has_option g' = has_option g"
  by (simp add: has_option_def same_settingsD fun_eq_iff)

lemma gh_wf_create: "gh_wf g \<Longrightarrow> gh_wf (snd (gh_create_issue g b))"
  unfolding gh_create_issue_def Let_def
  by (auto simp: gh_wf_def has_option_def split: option.split)

lemma gh_wf_add: "gh_wf g \<Longrightarrow> gh_wf (snd (gh_add_item g v))"
  unfolding gh_add_item_def Let_def
  by (auto simp: gh_wf_def has_option_def find_None_iff split: option.split)

lemma set_value_id [simp]: "item_id (set_value i f o' it) = item_id it"
  by (simp add: set_value_def)

lemma set_value_content [simp]: "item_content (set_value i f o' it) = item_content it"
  by (simp add: set_value_def)

lemma update_set_subset: "set (AList.update k v al) \<subseteq> insert (k, v) (set al)"
  by (induction al) auto

lemma set_value_values:
  "(a, b) \<in> set (item_values (set_value i f o' it)) \<Longrightarrow> (a, b) = (f, o') \<or> (a, b) \<in> set (item_values it)"
  using update_set_subset [of f o' "item_values it"]
  by (auto simp: set_value_def split: if_splits)

lemma gh_update_field_cases:
  "snd (gh_update_field g v) = g \<or>
   (\<exists>i f o'. has_option g f o' \<and> snd (gh_update_field g v) = g\<lparr>gh_items := map (set_value i f o') (gh_items g)\<rparr>)"
  unfolding gh_update_field_def
  by (simp split: option.split) blast

lemma has_option_update [simp]:
  "has_option (g\<lparr>gh_items := its\<rparr>) = has_option g" "has_option (g\<lparr>gh_issues := is\<rparr>) = has_option g"
  by (simp_all add: has_option_def fun_eq_iff)

lemma gh_wf_set_value:
  assumes "gh_wf g" "has_option g f o'"
  shows "gh_wf (g\<lparr>gh_items := map (set_value i f o') (gh_items g)\<rparr>)"
proof -
  have ids: "map item_id (map (set_value i f o') its) = map item_id its"
   and cts: "map item_content (map (set_value i f o') its) = map item_content its" for its
    by (induction its) simp_all
  have vals: "list_all (\<lambda>it. list_all (\<lambda>(a, b). has_option g a b) (item_values it)) (map (set_value i f o') its)"
    if "list_all (\<lambda>it. list_all (\<lambda>(a, b). has_option g a b) (item_values it)) its" for its
    using that assms(2) by (fastforce simp: list_all_iff dest: set_value_values)
  show ?thesis
    using assms(1) unfolding gh_wf_def
    by (simp add: ids cts vals del: map_map)
qed

lemma gh_wf_update: "gh_wf g \<Longrightarrow> gh_wf (snd (gh_update_field g v))"
  using gh_update_field_cases [of g v] gh_wf_set_value by metis

lemma gh_wf_serve: "gh_wf g \<Longrightarrow> gh_wf (snd (gh_serve g r))"
  unfolding gh_serve_def Let_def
  by (simp add: gh_wf_create gh_wf_add gh_wf_update)

lemma gh_wf_numbers: "gh_wf g \<Longrightarrow> x \<in> set (gh_issues g) \<Longrightarrow> 1 \<le> iss_number x \<and> iss_number x \<le> length (gh_issues g)"
proof -
  assume wf: "gh_wf g" and x: "x \<in> set (gh_issues g)"
  have "iss_number x \<in> set (map iss_number (gh_issues g))" using x by simp
  also have "\<dots> = set [1..<Suc (length (gh_issues g))]" using wf by (simp only: gh_wf_def)
  finally show ?thesis by auto
qed

lemma gh_wf_content: "gh_wf g \<Longrightarrow> it \<in> set (gh_items g) \<Longrightarrow> \<exists>x\<in>set (gh_issues g). item_content it = issue_node (iss_number x)"
  unfolding gh_wf_def by auto

lemma gh_wf_next_unfiled:
  assumes "gh_wf g"
  shows "find (\<lambda>it. item_content it = issue_node (Suc (length (gh_issues g)))) (gh_items g) = None"
proof -
  have "item_content it \<noteq> issue_node (Suc (length (gh_issues g)))" if "it \<in> set (gh_items g)" for it
    using gh_wf_content [OF assms that] gh_wf_numbers [OF assms] by fastforce
  then show ?thesis by (simp add: find_None_iff)
qed

lemma gh_wf_item_ids: "gh_wf g \<Longrightarrow> item_name (Suc (length (gh_items g))) \<notin> set (map item_id (gh_items g))"
  unfolding gh_wf_def by (auto simp del: upt_Suc)

lemma gh_wf_field_ok: "gh_wf g \<Longrightarrow> fl \<in> set (gh_fields g) \<Longrightarrow> field_ok fl"
  by (simp add: gh_wf_def list_all_iff)

end
