(* ===== verification/Tracker.thy ===== *)
theory Tracker
  imports GitHub
begin

text \<open>
  The handler's contract stated over an abstract issue tracker, and the link between the
  two. The abstract state is the list of tickets of the repository in the order they were
  opened: a ticket has the title, body and labels GitHub stored, and a filing, either not
  on the project board or on it with the name of the Status option its item holds.
  \<open>board\<close> abstracts a GitHub world to that list. The abstract operation
  \<open>file_issue\<close> is what the specification promises (section 4.1): the request becomes
  a new ticket filed in the Icebox column and the caller learns its number.
  \<open>board_ready\<close> is the setting in which the promise is made: a well-formed world whose
  token, owner and repository are the configured ones, whose project is project 1, and
  whose first 20 fields include a single-select Status field with an Icebox option.
  \<open>serve_seq\<close> is \<^verbatim>\<open>Deno.serve\<close> taking invocations one after another, each in the
  world the previous one left.
\<close>

datatype filing = Unfiled | Filed "string option"

record ticket =
  tk_title :: string
  tk_body :: jsval
  tk_labels :: jsval
  tk_filing :: filing

definition is_status_field :: "gh_field \<Rightarrow> bool" where
  "is_status_field fl = (case fl of SingleSelect i n opts \<Rightarrow> n = ''Status'' | OtherField i n \<Rightarrow> False)"

definition is_icebox :: "string \<times> string \<Rightarrow> bool" where
  "is_icebox opt \<longleftrightarrow> snd opt = ''Icebox''"

text \<open>The name of the Status option an item holds, if it holds one.\<close>

definition item_status :: "github \<Rightarrow> gh_item \<Rightarrow> string option" where
  "item_status g it =
     (case find is_status_field (gh_fields g) of
        Some (SingleSelect i n opts) \<Rightarrow>
          (case map_of (item_values it) i of Some o' \<Rightarrow> map_of opts o' | None \<Rightarrow> None)
      | _ \<Rightarrow> None)"

definition filing_of :: "github \<Rightarrow> nat \<Rightarrow> filing" where
  "filing_of g n =
     (case find (\<lambda>it. item_content it = issue_node n) (gh_items g) of
        None \<Rightarrow> Unfiled
      | Some it \<Rightarrow> Filed (item_status g it))"

definition ticket_of :: "github \<Rightarrow> gh_issue \<Rightarrow> ticket" where
  "ticket_of g i =
     \<lparr>tk_title = iss_title i, tk_body = iss_body i, tk_labels = iss_labels i, tk_filing = filing_of g (iss_number i)\<rparr>"

definition board :: "github \<Rightarrow> ticket list" where
  "board g = map (ticket_of g) (gh_issues g)"

subsection \<open>The specification\<close>

definition request_ticket :: "issue_request \<Rightarrow> filing \<Rightarrow> ticket" where
  "request_ticket rq f =
     \<lparr>tk_title = to_js_string (rq_title rq), tk_body = received (rq_body rq),
      tk_labels = received (rq_labels rq), tk_filing = f\<rparr>"

definition file_issue :: "ticket list \<Rightarrow> issue_request \<Rightarrow> ticket list \<times> nat" where
  "file_issue ts rq = (ts @ [request_ticket rq (Filed (Some ''Icebox''))], Suc (length ts))"

definition icebox_ready :: "gh_field list \<Rightarrow> bool" where
  "icebox_ready fs =
     (case find is_status_field fs of
        Some (SingleSelect i n opts) \<Rightarrow> list_ex is_icebox opts
      | _ \<Rightarrow> False)"

definition env_matches :: "env \<Rightarrow> github \<Rightarrow> bool" where
  "env_matches env g \<longleftrightarrow>
     env ''GITHUB_TOKEN'' = Some (gh_token g) \<and> env ''GITHUB_OWNER'' = Some (gh_owner g) \<and>
     env ''GITHUB_REPO'' = Some (gh_repo g) \<and> gh_token g \<noteq> [] \<and> gh_owner g \<noteq> [] \<and> gh_repo g \<noteq> [] \<and>
     gh_number g = PROJECT_NUMBER"

definition board_ready :: "env \<Rightarrow> github \<Rightarrow> bool" where
  "board_ready env g \<longleftrightarrow> gh_wf g \<and> env_matches env g \<and> icebox_ready (take 20 (gh_fields g))"

text \<open>The response that reports issue \<open>n\<close> of the world's repository.\<close>

definition filed_response :: "github \<Rightarrow> nat \<Rightarrow> response" where
  "filed_response g n =
     \<lparr>resp_status = 201, resp_headers = json_headers,
      resp_body = Obj [(''success'', Bool True),
                       (''data'', Obj [(''issue_url'', Str (issue_html_url g n)), (''issue_number'', Num (int n)),
                                       (''project_url'', Str (''https://github.com/orgs/'' @ gh_owner g @ ''/projects/1''))])]\<rparr>"

text \<open>A request the handler accepts and GitHub can file: it parses and its title is a string.\<close>

definition filable :: "string + jsval \<Rightarrow> bool" where
  "filable raw = (case parse_request raw of Inr rq \<Rightarrow> (case rq_title rq of Str t \<Rightarrow> True | _ \<Rightarrow> False) | Inl e \<Rightarrow> False)"

text \<open>The specification of successive invocations: each request filed in turn.\<close>

primrec file_all :: "ticket list \<Rightarrow> issue_request list \<Rightarrow> ticket list" where
  "file_all ts [] = ts"
| "file_all ts (rq # rqs) = file_all (fst (file_issue ts rq)) rqs"

subsection \<open>Successive invocations\<close>

fun serve_seq :: "'w upstream \<Rightarrow> env \<Rightarrow> (string + jsval) list \<Rightarrow> 'w hstate \<Rightarrow> response list \<times> 'w hstate" where
  "serve_seq up env [] s = ([], s)"
| "serve_seq up env (raw # raws) s =
     (let (r, s1) = serve up env raw s; (rs, s2) = serve_seq up env raws s1 in (r # rs, s2))"

subsection \<open>Lemmas: GitHub's project answer as the handler reads it\<close>

lemma find_js_fields:
  "find_js (name_is ''Status'') (map field_json fs) =
   Inr (case find is_status_field fs of None \<Rightarrow> Undefined | Some fl \<Rightarrow> field_json fl)"
  by (induction fs) (auto simp: is_status_field_def split: gh_field.split)

lemma find_js_options:
  "find_js (name_is ''Icebox'') (map option_json opts) =
   Inr (case find is_icebox opts of None \<Rightarrow> Undefined | Some o' \<Rightarrow> option_json o')"
  by (induction opts) (auto simp: is_icebox_def option_json_def)

lemma find_is_status_field: "find is_status_field fs = Some fl \<Longrightarrow> \<exists>i opts. fl = SingleSelect i ''Status'' opts"
  by (drule find_SomeD) (auto simp: is_status_field_def split: gh_field.splits)

lemma resolve_project_answer:
  "resolve_project (gh_project_answer g k) =
   (case find is_status_field (take k (gh_fields g)) of
      Some (SingleSelect i n opts) \<Rightarrow>
        (case find is_icebox opts of
           None \<Rightarrow> Inl (JsExn Error ''Status field or Icebox option not found in the project'')
         | Some o' \<Rightarrow> Inr (Str (gh_project_id g), field_json (SingleSelect i n opts), option_json o'))
    | _ \<Rightarrow> Inl (read_error ''undefined'' ''options''))"
proof (cases "find is_status_field (take k (gh_fields g))")
  case None
  then show ?thesis
    by (simp add: resolve_project_def gh_project_answer_def gql_data_def project_path_def project_nodes_def
        array_find_def find_js_fields)
next
  case (Some fl)
  then obtain i opts where fl: "fl = SingleSelect i ''Status'' opts" using find_is_status_field by blast
  show ?thesis
    using Some
    by (simp add: fl resolve_project_def gh_project_answer_def gql_data_def project_path_def project_nodes_def
        array_find_def find_js_fields find_js_options option_json_def split: option.split)
qed

subsection \<open>Lemmas: the invariant and the abstraction\<close>


lemma item_status_issues [simp]: "item_status (g\<lparr>gh_issues := is\<rparr>) it = item_status g it"
  by (simp add: item_status_def)

lemma filing_of_issues [simp]: "filing_of (g\<lparr>gh_issues := is\<rparr>) n = filing_of g n"
  by (simp add: filing_of_def split: option.split)

lemma ticket_of_issues [simp]: "ticket_of (g\<lparr>gh_issues := is\<rparr>) i = ticket_of g i"
  by (simp add: ticket_of_def)

lemma board_add_issue: "board (g\<lparr>gh_issues := gh_issues g @ [i]\<rparr>) = board g @ [ticket_of g i]"
  by (simp add: board_def)

lemma find_map_set_value:
  "find (\<lambda>it. item_content it = c) (map (set_value i f o') its) =
   map_option (set_value i f o') (find (\<lambda>it. item_content it = c) its)"
  by (induction its) auto

lemma set_value_other: "item_id it \<noteq> i \<Longrightarrow> set_value i f o' it = it"
  by (simp add: set_value_def)

text \<open>Filing a new item leaves the filing of every other issue as it was.\<close>

lemma filing_of_new_item_other:
  assumes "item_id it \<notin> set (map item_id its)" "item_content it \<noteq> issue_node m"
  shows "filing_of (g\<lparr>gh_items := map (set_value (item_id it) f o') (its @ [it])\<rparr>) m = filing_of (g\<lparr>gh_items := its\<rparr>) m"
proof (cases "find (\<lambda>x. item_content x = issue_node m) its")
  case None
  then show ?thesis
    using assms(2) by (simp add: filing_of_def find_map_set_value find_snoc_other del: map_append)
next
  case (Some x)
  then have "x \<in> set its" by (simp add: find_SomeD)
  then have "set_value (item_id it) f o' x = x" using assms(1) by (intro set_value_other) (metis image_eqI set_map)
  then show ?thesis
    using Some assms(2) by (simp add: filing_of_def find_map_set_value find_snoc_other item_status_def del: map_append)
qed

lemma filing_of_new_item:
  assumes "find (\<lambda>x. item_content x = issue_node m) its = None" "item_content it = issue_node m"
    and "find is_status_field (gh_fields g) = Some (SingleSelect fi n opts)"
    and "find is_icebox opts = Some (oi, on)" "distinct (map fst opts)"
    and "item_values it = []"
  shows "filing_of (g\<lparr>gh_items := map (set_value (item_id it) fi oi) (its @ [it])\<rparr>) m = Filed (Some ''Icebox'')"
proof -
  have "(oi, on) \<in> set opts" "on = ''Icebox''"
    using find_SomeD [OF assms(4)] by (auto simp: is_icebox_def)
  then have "map_of opts oi = Some ''Icebox''" using assms(5) by simp
  then show ?thesis
    using assms(1-3,6) by (simp add: filing_of_def find_map_set_value find_snoc_new item_status_def set_value_def
        del: map_append)
qed

lemma env_matches_config:
  "env_matches env g \<Longrightarrow>
   read_config env = Inr \<lparr>github_token = gh_token g, github_owner = gh_owner g, github_repo = gh_repo g, project_number = 1\<rparr>"
  by (simp add: env_matches_def read_config_Inr PROJECT_NUMBER_def)

lemma icebox_readyE:
  assumes "icebox_ready (take 20 fs)"
  obtains fi nm opts oi on where "find is_status_field (take 20 fs) = Some (SingleSelect fi nm opts)"
    "find is_icebox opts = Some (oi, on)"
  using assms unfolding icebox_ready_def
  by (auto simp: list_ex_iff find_None_iff split: option.splits gh_field.splits)
     (metis find_None_iff option.exhaust surj_pair)

lemma has_option_found:
  "find is_status_field (take 20 (gh_fields g)) = Some (SingleSelect fi nm opts) \<Longrightarrow>
   find is_icebox opts = Some (oi, on) \<Longrightarrow> has_option g fi oi"
  by (auto simp: has_option_def list_ex_iff dest!: find_SomeD find_take_Some intro!: bexI [of _ "SingleSelect fi nm opts"])
     (metis fst_conv image_eqI)

lemma serve_gh_filed:
  assumes ready: "board_ready env (world s)" and rq: "parse_request raw = Inr rq" "rq_title rq = Str t"
    and sf: "find is_status_field (take 20 (gh_fields (world s))) = Some (SingleSelect fi nm opts)"
    and ib: "find is_icebox opts = Some (oi, on)"
  defines "g \<equiv> world s"
  defines "i \<equiv> \<lparr>iss_number = Suc (length (gh_issues g)), iss_title = t,
                iss_body = received (rq_body rq), iss_labels = received (rq_labels rq)\<rparr>"
  defines "it \<equiv> \<lparr>item_id = item_name (Suc (length (gh_items g))), item_content = issue_node (Suc (length (gh_issues g))),
                 item_values = []\<rparr>"
  defines "cfg \<equiv> \<lparr>github_token = gh_token g, github_owner = gh_owner g, github_repo = gh_repo g, project_number = 1\<rparr>"
  shows "serve gh_serve env raw s =
    (filed_response g (Suc (length (gh_issues g))),
     s\<lparr>world := g\<lparr>gh_issues := gh_issues g @ [i], gh_items := map (set_value (item_id it) fi oi) (gh_items g @ [it])\<rparr>,
       sent := sent s @ [create_issue_req cfg rq, project_query_req cfg, add_item_req cfg (Str (gh_project_id g)) (Str (item_content it)),
                         update_field_req cfg (Str (gh_project_id g)) (Str (item_id it)) (Str fi) (Str oi)]\<rparr>)"
proof -
  have wf: "gh_wf g" and em: "env_matches env g" using ready by (simp_all add: board_ready_def g_def)
  have cfg: "read_config env = Inr cfg" using env_matches_config [OF em] by (simp add: cfg_def)
  have t: "t \<noteq> []" using rq by (auto simp: parse_request_Inr)
  define g1 where "g1 = g\<lparr>gh_issues := gh_issues g @ [i]\<rparr>"
  define g2 where "g2 = g1\<lparr>gh_items := gh_items g @ [it]\<rparr>"
  have c: "gh_serve (world s) (create_issue_req cfg rq) = (Reply 201 (Inr (issue_json g i)), g1)"
    using gh_serve_create_req [of cfg g rq t] rq(2) t by (simp add: cfg_def g1_def i_def g_def Let_def)
  have q: "gh_serve g1 (project_query_req cfg) = (Reply 200 (Inr (gh_project_answer g1 20)), g1)"
    using gh_serve_query_req [of cfg g1] em by (simp add: cfg_def g1_def env_matches_def PROJECT_NUMBER_def)
  have r: "resolve_project (gh_project_answer g1 20) =
      Inr (Str (gh_project_id g), field_json (SingleSelect fi nm opts), option_json (oi, on))"
    using sf ib by (simp add: resolve_project_answer g1_def g_def)
  have node: "member (issue_json g i) ''node_id'' = Str (item_content it)"
    by (simp add: issue_json_def i_def it_def)
  have a: "gh_serve g1 (add_item_req cfg (Str (gh_project_id g)) (Str (item_content it))) =
      (Reply 200 (Inr (added_json it)), g2)"
    using gh_serve_add_req [of cfg g1 "Suc (length (gh_issues g))"] gh_wf_next_unfiled [OF wf]
    by (simp add: cfg_def g1_def g2_def it_def i_def Let_def)
  have opt: "has_option g2 fi oi"
    using has_option_found [OF sf ib] by (simp add: has_option_def g2_def g1_def g_def)
  have u: "gh_serve g2 (update_field_req cfg (Str (gh_project_id g)) (Str (item_id it))
             (member (field_json (SingleSelect fi nm opts)) ''id'') (member (option_json (oi, on)) ''id'')) =
      (Reply 200 (Inr (gql_data ''updateProjectV2ItemFieldValue'' (Obj [(''projectV2Item'', Obj [(''id'', Str (item_id it))])]))),
       g2\<lparr>gh_items := map (set_value (item_id it) fi oi) (gh_items g2)\<rparr>)"
    using gh_serve_update_req [of cfg g2 "item_id it" fi oi] opt
    by (simp add: option_json_def cfg_def g2_def g1_def)
  have body: "handle_body gh_serve env raw s =
     bindE (liftE (get_path (added_json it) [''data'', ''addProjectV2ItemById'', ''item'', ''id''])) (\<lambda>itemId.
     bindE (set_status gh_serve cfg (Str (gh_project_id g)) itemId (field_json (SingleSelect fi nm opts)) (option_json (oi, on)))
       (\<lambda>_. liftE (success_response cfg (issue_json g i))))
     (s\<lparr>world := g2, sent := sent s @ [create_issue_req cfg rq, project_query_req cfg,
                                          add_item_req cfg (Str (gh_project_id g)) (member (issue_json g i) ''node_id'')]\<rparr>)"
    by (rule handle_body_after_add [OF cfg rq(1) c _ _ _ q r a [folded node]]) (simp_all add: issue_json_def)
  have path: "get_path (added_json it) [''data'', ''addProjectV2ItemById'', ''item'', ''id''] = Inr (Str (item_id it))"
    by (simp add: added_json_def gql_data_def)
  have st: "set_status gh_serve cfg (Str (gh_project_id g)) (Str (item_id it)) (field_json (SingleSelect fi nm opts))
      (option_json (oi, on)) s3 =
      (Inr (), s3\<lparr>world := g2\<lparr>gh_items := map (set_value (item_id it) fi oi) (gh_items g2)\<rparr>,
        sent := sent s3 @ [update_field_req cfg (Str (gh_project_id g)) (Str (item_id it)) (Str fi) (Str oi)]\<rparr>)"
    if "world s3 = g2" for s3
    using set_status_Reply [of "field_json (SingleSelect fi nm opts)" "option_json (oi, on)" gh_serve s3 cfg
        "Str (gh_project_id g)" "Str (item_id it)"] u that
    by (simp add: option_json_def)
  have purl: "project_url cfg = ''https://github.com/orgs/'' @ gh_owner g @ ''/projects/1''"
    using project_url_read_config [OF cfg] by (simp add: cfg_def)
  have resp: "success_response cfg (issue_json g i) = Inr (filed_response g (Suc (length (gh_issues g))))"
    by (simp add: success_response_truthy issue_json_def filed_response_def purl i_def)
  show ?thesis
    by (simp add: serve_def body bindE_apply path st resp node g2_def g1_def del: get_path.simps field_json.simps)
qed

lemma board_filed:
  assumes wf: "gh_wf g"
    and sf: "find is_status_field (take 20 (gh_fields g)) = Some (SingleSelect fi nm opts)"
    and ib: "find is_icebox opts = Some (oi, on)"
    and i: "iss_number i = Suc (length (gh_issues g))"
    and it: "it = \<lparr>item_id = item_name (Suc (length (gh_items g))), item_content = issue_node (Suc (length (gh_issues g))),
                  item_values = []\<rparr>"
  shows "board (g\<lparr>gh_issues := gh_issues g @ [i], gh_items := map (set_value (item_id it) fi oi) (gh_items g @ [it])\<rparr>) =
         board g @ [(ticket_of g i)\<lparr>tk_filing := Filed (Some ''Icebox'')\<rparr>]"
proof -
  let ?g' = "g\<lparr>gh_issues := gh_issues g @ [i], gh_items := map (set_value (item_id it) fi oi) (gh_items g @ [it])\<rparr>"
  have fresh: "item_id it \<notin> set (map item_id (gh_items g))" using gh_wf_item_ids [OF wf] it by simp
  have old: "ticket_of ?g' x = ticket_of g x" if "x \<in> set (gh_issues g)" for x
  proof -
    have "item_content it \<noteq> issue_node (iss_number x)" using gh_wf_numbers [OF wf that] it by simp
    then have "filing_of ?g' (iss_number x) = filing_of (g\<lparr>gh_issues := gh_issues g @ [i], gh_items := gh_items g\<rparr>) (iss_number x)"
      using filing_of_new_item_other [OF fresh, where m = "iss_number x" and g = "g\<lparr>gh_issues := gh_issues g @ [i]\<rparr>" and f = fi and o' = oi] by simp
    then show ?thesis by (simp add: ticket_of_def)
  qed
  have "SingleSelect fi nm opts \<in> set (gh_fields g)" using find_SomeD [OF find_take_Some [OF sf]] by simp
  then have dist: "distinct (map fst opts)" using gh_wf_field_ok [OF wf] by (fastforce simp: field_ok_def)
  have new: "filing_of ?g' (iss_number i) = Filed (Some ''Icebox'')"
    using filing_of_new_item [OF gh_wf_next_unfiled [OF wf], where it = it and g = "g\<lparr>gh_issues := gh_issues g @ [i]\<rparr>" and fi = fi and n = nm and opts = opts and oi = oi and on = on]
      find_take_Some [OF sf] ib dist i it by simp
  show ?thesis
    using old new by (simp add: board_def ticket_of_def)
qed

subsection \<open>Lemmas: runs of the handler against GitHub\<close>


lemma board_ready_settings: "board_ready env g \<Longrightarrow> same_settings g g' \<Longrightarrow> gh_wf g' \<Longrightarrow> board_ready env g'"
  by (simp add: board_ready_def env_matches_def same_settingsD)

lemma gh_serve_keeps_ready: "upstream_keeps (board_ready env) gh_serve"
  unfolding upstream_keeps_def
proof (intro allI impI)
  fix w r assume a: "board_ready env w"
  then have "gh_wf w" by (simp add: board_ready_def)
  then show "board_ready env (snd (gh_serve w r))"
    by (rule board_ready_settings [OF a gh_serve_settings gh_wf_serve])
qed

lemma filed_response_settings: "same_settings g g' \<Longrightarrow> filed_response g' = filed_response g"
  by (simp add: filed_response_def issue_html_url_def same_settingsD fun_eq_iff)

lemma gh_project_answer_update [simp]:
  "gh_project_answer (g\<lparr>gh_issues := is\<rparr>) k = gh_project_answer g k"
  "gh_project_answer (g\<lparr>gh_items := its\<rparr>) k = gh_project_answer g k"
  by (simp_all add: gh_project_answer_def project_nodes_def)

lemma request_ticket_Str: "rq_title rq = Str t \<Longrightarrow>
  request_ticket rq f = \<lparr>tk_title = t, tk_body = received (rq_body rq), tk_labels = received (rq_labels rq), tk_filing = f\<rparr>"
  by (simp add: request_ticket_def)

lemma serve_gh_unfiled:
  assumes wf: "gh_wf (world s)" and em: "env_matches env (world s)"
    and rq: "parse_request raw = Inr rq" "rq_title rq = Str t"
    and r: "resolve_project (gh_project_answer (world s) 20) = Inl e"
  shows "fst (serve gh_serve env raw s) = error_response e \<and>
         board (world (snd (serve gh_serve env raw s))) = board (world s) @ [request_ticket rq Unfiled]"
proof -
  define g where "g = world s"
  define i where "i = \<lparr>iss_number = Suc (length (gh_issues g)), iss_title = t,
                iss_body = received (rq_body rq), iss_labels = received (rq_labels rq)\<rparr>"
  define cfg where "cfg = \<lparr>github_token = gh_token g, github_owner = gh_owner g, github_repo = gh_repo g, project_number = 1\<rparr>"
  define g1 where "g1 = g\<lparr>gh_issues := gh_issues g @ [i]\<rparr>"
  have cfg: "read_config env = Inr cfg" using env_matches_config [OF em] by (simp add: cfg_def g_def)
  have t: "t \<noteq> []" using rq by (auto simp: parse_request_Inr)
  have c: "gh_serve (world s) (create_issue_req cfg rq) = (Reply 201 (Inr (issue_json g i)), g1)"
    using gh_serve_create_req [of cfg g rq t] rq(2) t by (simp add: cfg_def g1_def i_def g_def Let_def)
  have q: "gh_serve g1 (project_query_req cfg) = (Reply 200 (Inr (gh_project_answer g1 20)), g1)"
    using gh_serve_query_req [of cfg g1] em by (simp add: cfg_def g1_def g_def env_matches_def PROJECT_NUMBER_def)
  have run: "serve gh_serve env raw s = (error_response e, s\<lparr>world := g1, sent := sent s @ [create_issue_req cfg rq, project_query_req cfg]\<rparr>)"
    by (rule serve_resolve_fails [OF cfg rq(1) c _ _ q]) (simp_all add: r g1_def g_def)
  have "filing_of g (Suc (length (gh_issues g))) = Unfiled"
    using gh_wf_next_unfiled [OF wf] by (simp add: filing_of_def g_def)
  then show ?thesis
    by (simp add: run g1_def board_add_issue ticket_of_def request_ticket_Str [OF rq(2)] i_def g_def)
qed

lemma serve_gh_step:
  assumes ready: "board_ready env (world s)" and rq: "parse_request raw = Inr rq" "rq_title rq = Str t"
  shows "fst (serve gh_serve env raw s) = filed_response (world s) (Suc (length (gh_issues (world s)))) \<and>
         board (world (snd (serve gh_serve env raw s))) = board (world s) @ [request_ticket rq (Filed (Some ''Icebox''))] \<and>
         length (gh_issues (world (snd (serve gh_serve env raw s)))) = Suc (length (gh_issues (world s))) \<and>
         same_settings (world s) (world (snd (serve gh_serve env raw s))) \<and>
         board_ready env (world (snd (serve gh_serve env raw s)))"
proof -
  have wf: "gh_wf (world s)" using ready by (simp add: board_ready_def)
  obtain fi nm opts oi on where sf: "find is_status_field (take 20 (gh_fields (world s))) = Some (SingleSelect fi nm opts)"
    and ib: "find is_icebox opts = Some (oi, on)"
    using ready by (auto simp: board_ready_def elim: icebox_readyE)
  have b: "board (world (snd (serve gh_serve env raw s))) = board (world s) @ [request_ticket rq (Filed (Some ''Icebox''))]"
    using board_filed [OF wf sf ib, of "\<lparr>iss_number = Suc (length (gh_issues (world s))), iss_title = t,
                iss_body = received (rq_body rq), iss_labels = received (rq_labels rq)\<rparr>"]
    by (simp add: serve_gh_filed [OF ready rq sf ib] ticket_of_def request_ticket_Str [OF rq(2)])
  have r: "board_ready env (world (snd (serve gh_serve env raw s)))"
    by (rule serve_keeps_world [OF gh_serve_keeps_ready ready])
  show ?thesis
    using b r by (simp add: serve_gh_filed [OF ready rq sf ib] same_settings_def)
qed

lemma serve_seq_Cons_snd:
  "snd (serve_seq up env (raw # raws) s) = snd (serve_seq up env raws (snd (serve up env raw s)))"
  by (simp add: split_def Let_def)

end
