(* ===== verification/Interleaving.thy ===== *)
theory Interleaving
  imports Tracker
begin

text \<open>
  Concurrent invocations (specification, section 5). A run of the handler is written as a
  resumption: \<open>Ret r\<close> is a finished computation, \<open>Call rq k\<close> one that waits on
  \<^verbatim>\<open>await fetch(rq)\<close> and continues with \<open>k\<close> applied to the outcome. Each stage of
  \<open>Handler\<close> has its resumption form (\<open>create_issueP\<close> \<dots> \<open>serveP\<close>), written
  with the same binds, and \<open>run_prog\<close> runs a resumption against an upstream; the
  resumption of the handler runs exactly as \<open>serve\<close> does. Several runs in flight share
  GitHub: \<open>conc_step\<close> lets any waiting run have its request answered by the current
  world, in any order.
\<close>

datatype 'a prog = Ret "exn + 'a" | Call http_req "fetch_res \<Rightarrow> 'a prog"

primrec bindP :: "'a prog \<Rightarrow> ('a \<Rightarrow> 'b prog) \<Rightarrow> 'b prog" where
  "bindP (Ret r) f = (case r of Inl e \<Rightarrow> Ret (Inl e) | Inr a \<Rightarrow> f a)"
| "bindP (Call rq k) f = Call rq (\<lambda>res. bindP (k res) f)"

definition liftP :: "exn + 'a \<Rightarrow> 'a prog" where
  "liftP r = Ret r"

definition fetchP :: "http_req \<Rightarrow> reply prog" where
  "fetchP rq =
     Call rq (\<lambda>res. case res of
       NetworkError m \<Rightarrow> Ret (Inl (JsExn TypeError m))
     | Reply st b \<Rightarrow> Ret (Inr \<lparr>http_status = st, reply_body = b\<rparr>))"

primrec run_prog :: "'w upstream \<Rightarrow> 'a prog \<Rightarrow> ('w, 'a) act" where
  "run_prog up (Ret r) = (\<lambda>s. (r, s))"
| "run_prog up (Call rq k) =
     (\<lambda>s. case up (world s) rq of (res, w') \<Rightarrow> run_prog up (k res) (s\<lparr>world := w', sent := sent s @ [rq]\<rparr>))"

subsection \<open>The handler as a resumption\<close>

definition create_issueP :: "config \<Rightarrow> issue_request \<Rightarrow> jsval prog" where
  "create_issueP cfg rq =
     bindP (fetchP (create_issue_req cfg rq)) (\<lambda>r.
       if \<not> ok r
       then bindP (liftP (reply_json r)) (\<lambda>err.
              liftP (Inl (JsExn Error (''GitHub API error: '' @ to_js_string (js_stringify err)))))
       else liftP (reply_json r))"

definition query_projectP :: "config \<Rightarrow> jsval prog" where
  "query_projectP cfg = bindP (fetchP (project_query_req cfg)) (\<lambda>r. liftP (reply_json r))"

definition add_to_projectP :: "config \<Rightarrow> jsval \<Rightarrow> jsval \<Rightarrow> jsval prog" where
  "add_to_projectP cfg projectId issue =
     bindP (liftP (get_prop issue ''node_id'')) (\<lambda>contentId.
     bindP (fetchP (add_item_req cfg projectId contentId)) (\<lambda>r.
     bindP (liftP (reply_json r)) (\<lambda>projectItemData.
       liftP (get_path projectItemData [''data'', ''addProjectV2ItemById'', ''item'', ''id'']))))"

definition set_statusP :: "config \<Rightarrow> jsval \<Rightarrow> jsval \<Rightarrow> jsval \<Rightarrow> jsval \<Rightarrow> unit prog" where
  "set_statusP cfg projectId itemId statusField iceboxOption =
     bindP (liftP (get_prop statusField ''id'')) (\<lambda>fieldId.
     bindP (liftP (get_prop iceboxOption ''id'')) (\<lambda>optionId.
     bindP (fetchP (update_field_req cfg projectId itemId fieldId optionId)) (\<lambda>_. liftP (Inr ()))))"

definition handle_bodyP :: "env \<Rightarrow> string + jsval \<Rightarrow> response prog" where
  "handle_bodyP env raw =
     bindP (liftP (read_config env)) (\<lambda>cfg.
     bindP (liftP (parse_request raw)) (\<lambda>rq.
     bindP (create_issueP cfg rq) (\<lambda>issue.
     bindP (query_projectP cfg) (\<lambda>projectData.
     bindP (liftP (resolve_project projectData)) (\<lambda>(projectId, statusField, iceboxOption).
     bindP (add_to_projectP cfg projectId issue) (\<lambda>itemId.
     bindP (set_statusP cfg projectId itemId statusField iceboxOption) (\<lambda>_.
       liftP (success_response cfg issue))))))))"

text \<open>The \<^verbatim>\<open>catch\<close>: an exception becomes the error response.\<close>

primrec respond :: "response prog \<Rightarrow> response prog" where
  "respond (Ret r) = Ret (Inr (case r of Inl e \<Rightarrow> error_response e | Inr x \<Rightarrow> x))"
| "respond (Call rq k) = Call rq (\<lambda>res. respond (k res))"

definition serveP :: "env \<Rightarrow> string + jsval \<Rightarrow> response prog" where
  "serveP env raw = respond (handle_bodyP env raw)"

text \<open>
  The rest of a run after each call, as the binds of \<open>handle_bodyP\<close> leave it: after the
  issue is created, after the project is queried, after the item is added.
\<close>

definition after_add :: "config \<Rightarrow> jsval \<Rightarrow> jsval \<Rightarrow> jsval \<Rightarrow> jsval \<Rightarrow> jsval \<Rightarrow> response prog" where
  "after_add cfg issue projectId statusField iceboxOption itemId =
     bindP (set_statusP cfg projectId itemId statusField iceboxOption) (\<lambda>_. liftP (success_response cfg issue))"

definition after_query :: "config \<Rightarrow> jsval \<Rightarrow> jsval \<Rightarrow> response prog" where
  "after_query cfg issue projectData =
     bindP (liftP (resolve_project projectData)) (\<lambda>(projectId, statusField, iceboxOption).
     bindP (add_to_projectP cfg projectId issue) (after_add cfg issue projectId statusField iceboxOption))"

definition after_create :: "config \<Rightarrow> jsval \<Rightarrow> response prog" where
  "after_create cfg issue = bindP (query_projectP cfg) (after_query cfg issue)"

text \<open>A resumption that finishes after at most \<open>n\<close> calls, whatever the answers.\<close>

inductive finishes_within :: "nat \<Rightarrow> 'a prog \<Rightarrow> bool" where
  fw_Ret: "finishes_within n (Ret r)"
| fw_Call: "(\<And>res. finishes_within n (k res)) \<Longrightarrow> finishes_within (Suc n) (Call rq k)"

subsection \<open>Invocations in flight\<close>

text \<open>
  One step of the system: some run waiting on a request has it answered by GitHub, which
  moves to its next world, and the run continues with the answer.
\<close>

inductive conc_step :: "github \<times> response prog list \<Rightarrow> github \<times> response prog list \<Rightarrow> bool" where
  conc_stepI: "i < length ps \<Longrightarrow> ps ! i = Call rq k \<Longrightarrow> gh_serve g rq = (res, g') \<Longrightarrow>
               conc_step (g, ps) (g', ps[i := k res])"

subsection \<open>Lemmas: running a resumption\<close>

lemma run_prog_bindP: "run_prog up (bindP p f) = bindE (run_prog up p) (\<lambda>a. run_prog up (f a))"
  by (induction p) (auto simp: bindE_def fun_eq_iff split: sum.split prod.split)

lemma run_prog_liftP [simp]: "run_prog up (liftP r) = liftE r"
  by (simp add: liftP_def liftE_def)

lemma run_prog_fetchP: "run_prog up (fetchP rq) = fetch up rq"
  by (simp add: fetchP_def fetch_def fun_eq_iff Let_def split: prod.split fetch_res.split)

lemma run_prog_if: "run_prog up (if c then p else q) = (if c then run_prog up p else run_prog up q)"
  by simp

lemma run_prog_case_prod: "run_prog up (case x of (a, b) \<Rightarrow> f a b) = (case x of (a, b) \<Rightarrow> run_prog up (f a b))"
  by (simp add: split_def)

lemmas run_prog_simps = run_prog_bindP run_prog_fetchP run_prog_if run_prog_case_prod

lemma handle_bodyP_runs: "run_prog up (handle_bodyP env raw) = handle_body up env raw"
  by (simp add: handle_bodyP_def handle_body_def create_issueP_def create_issue_def query_projectP_def
      query_project_def add_to_projectP_def add_to_project_def set_statusP_def set_status_def
      run_prog_simps liftE_def throwE_def returnE_def cong: if_cong)

lemma run_prog_respond:
  "run_prog up (respond p) s =
   (case run_prog up p s of (Inl e, s') \<Rightarrow> (Inr (error_response e), s') | (Inr r, s') \<Rightarrow> (Inr r, s'))"
  by (induction p arbitrary: s) (auto split: prod.split sum.split)

subsection \<open>Lemmas: bounded runs\<close>

lemma finishes_within_mono: "finishes_within n p \<Longrightarrow> n \<le> m \<Longrightarrow> finishes_within m p"
proof (induction arbitrary: m rule: finishes_within.induct)
  case (fw_Ret n r)
  show ?case by (rule finishes_within.fw_Ret)
next
  case (fw_Call n k rq)
  then obtain m' where "m = Suc m'" "n \<le> m'" by (cases m) auto
  then show ?case using fw_Call.IH by (auto intro: finishes_within.fw_Call)
qed

lemma finishes_within_bindP:
  "finishes_within n p \<Longrightarrow> (\<And>a. finishes_within m (f a)) \<Longrightarrow> finishes_within (n + m) (bindP p f)"
proof (induction rule: finishes_within.induct)
  case (fw_Ret n r)
  then show ?case by (cases r) (auto intro: finishes_within.fw_Ret finishes_within_mono [OF _ le_add2])
next
  case (fw_Call n k rq)
  then show ?case by (auto intro: finishes_within.fw_Call)
qed

lemma finishes_within_liftP [intro!]: "finishes_within n (liftP r)"
  by (simp add: liftP_def finishes_within.fw_Ret)

lemma finishes_within_fetchP [intro!]: "finishes_within 1 (fetchP rq)"
  unfolding fetchP_def One_nat_def by (rule finishes_within.fw_Call) (auto split: fetch_res.split intro: finishes_within.fw_Ret)

lemma finishes_within_respond: "finishes_within n p \<Longrightarrow> finishes_within n (respond p)"
  by (induction rule: finishes_within.induct) (auto intro: finishes_within.intros)

lemma finishes_within_bind0:
  "(\<And>a. finishes_within m (f a)) \<Longrightarrow> finishes_within m (bindP (liftP r) f)"
  using finishes_within_bindP [OF finishes_within_liftP [of 0 r], of m f] by simp

lemma finishes_within_bind1:
  "(\<And>a. finishes_within m (f a)) \<Longrightarrow> finishes_within (Suc m) (bindP (fetchP rq) f)"
  using finishes_within_bindP [OF finishes_within_fetchP [of rq], of m f] by simp

lemma stages_finish:
  "finishes_within 1 (create_issueP cfg rq)" "finishes_within 1 (query_projectP cfg)"
  "finishes_within 1 (add_to_projectP cfg p issue)" "finishes_within 1 (set_statusP cfg p i f o')"
  unfolding create_issueP_def query_projectP_def add_to_projectP_def set_statusP_def
  by (auto intro!: finishes_within_bind0 finishes_within_bind1 [of 0, simplified])

lemma finishes_within_stage:
  "finishes_within 1 p \<Longrightarrow> (\<And>a. finishes_within m (f a)) \<Longrightarrow> finishes_within (Suc m) (bindP p f)"
  using finishes_within_bindP [of 1 p m f] by simp

lemma finishes_within_case_prod:
  "(\<And>a b. finishes_within n (f a b)) \<Longrightarrow> finishes_within n (case_prod f x)"
  by (cases x) simp

lemma serveP_finishes: "finishes_within 4 (serveP env raw)"
proof -
  have "finishes_within (Suc (Suc (Suc (Suc 0)))) (handle_bodyP env raw)"
    unfolding handle_bodyP_def
    by (intro finishes_within_bind0 finishes_within_stage stages_finish finishes_within_case_prod finishes_within_liftP)
  then show ?thesis by (simp add: serveP_def finishes_within_respond numeral_eq_Suc)
qed

subsection \<open>Lemmas: runs in flight\<close>

text \<open>Each step uses up one call of the budget of the run that takes it.\<close>

lemma conc_step_budget:
  assumes "list_all2 finishes_within ns ps" "conc_step (g, ps) (g', ps')"
  shows "\<exists>ns'. list_all2 finishes_within ns' ps' \<and> sum_list ns' < sum_list ns"
  using assms(2)
proof cases
  case (conc_stepI i r k res)
  have i: "i < length ns" using conc_stepI(2) assms(1) by (simp add: list_all2_lengthD)
  have "finishes_within (ns ! i) (Call r k)" using assms(1) conc_stepI(2,3) by (metis list_all2_nthD2)
  then obtain n' where n': "ns ! i = Suc n'" "finishes_within n' (k res)" by (cases rule: finishes_within.cases) auto
  have "list_all2 finishes_within (ns[i := n']) ps'" using assms(1) n'(2) conc_stepI(1) by (simp add: list_all2_update_cong)
  moreover have "ns ! i \<le> sum_list ns" using i by (simp add: elem_le_sum_list)
  ultimately show ?thesis using i n'(1) by (intro exI [of _ "ns[i := n']"]) (simp add: sum_list_update)
qed

lemma conc_step_bound:
  "list_all2 finishes_within ns ps \<Longrightarrow> (conc_step ^^ m) (g, ps) c \<Longrightarrow> m \<le> sum_list ns"
proof (induction m arbitrary: g ps ns)
  case 0
  then show ?case by simp
next
  case (Suc m)
  obtain g1 ps1 where c1: "conc_step (g, ps) (g1, ps1)" "(conc_step ^^ m) (g1, ps1) c"
    using relpowp_Suc_D2 [OF Suc.prems(2)] by (metis surj_pair)
  obtain ns' where "list_all2 finishes_within ns' ps1" "sum_list ns' < sum_list ns"
    using conc_step_budget [OF Suc.prems(1) c1(1)] by blast
  then show ?case using Suc.IH [OF _ c1(2)] by fastforce
qed

lemma conc_step_progress:
  "i < length ps \<Longrightarrow> ps ! i = Call r k \<Longrightarrow> \<exists>c'. conc_step (g, ps) c'"
  using conc_stepI [of i ps r k g] by (metis surj_pair)

lemma conc_reach_budget:
  "conc_step\<^sup>*\<^sup>* (g, map (serveP env) raws) c \<Longrightarrow> \<exists>ns. list_all2 finishes_within ns (snd c)"
proof (induction rule: rtranclp_induct)
  case base
  have "list_all2 finishes_within (replicate (length raws) 4) (map (serveP env) raws)"
    by (simp add: list_all2_conv_all_nth serveP_finishes)
  then show ?case by auto
next
  case (step b c)
  obtain ns where ns: "list_all2 finishes_within ns (snd b)" using step.IH by blast
  have "conc_step (fst b, snd b) (fst c, snd c)" using step.hyps(2) by simp
  then show ?case using conc_step_budget [OF ns] by blast
qed

text \<open>A pool of runs with a budget can always be driven until every run has answered.\<close>

lemma conc_completes:
  "list_all2 finishes_within ns ps \<Longrightarrow> \<exists>c'. conc_step\<^sup>*\<^sup>* (g, ps) c' \<and> (\<forall>p\<in>set (snd c'). \<exists>x. p = Ret x)"
proof (induction "sum_list ns" arbitrary: g ps ns rule: less_induct)
  case less
  show ?case
  proof (cases "\<forall>p\<in>set ps. \<exists>x. p = Ret x")
    case True
    then show ?thesis by force
  next
    case False
    then obtain i r k where i: "i < length ps" "ps ! i = Call r k" by (metis in_set_conv_nth prog.exhaust)
    obtain res g' where a: "gh_serve g r = (res, g')" by fastforce
    have st: "conc_step (g, ps) (g', ps[i := k res])" using conc_stepI [OF i a] .
    obtain ns' where "list_all2 finishes_within ns' (ps[i := k res])" "sum_list ns' < sum_list ns"
      using conc_step_budget [OF less.prems st] by blast
    then obtain c' where "conc_step\<^sup>*\<^sup>* (g', ps[i := k res]) c'" "\<forall>p\<in>set (snd c'). \<exists>x. p = Ret x"
      using less.hyps by blast
    then show ?thesis using st by (meson converse_rtranclp_into_rtranclp)
  qed
qed

lemma run_prog_conc:
  "i < length ps \<Longrightarrow> ps ! i = p \<Longrightarrow> run_prog gh_serve p s = (r, s') \<Longrightarrow>
   conc_step\<^sup>*\<^sup>* (world s, ps) (world s', ps[i := Ret r])"
proof (induction p arbitrary: s ps)
  case (Ret x)
  then show ?case by (metis Pair_inject list_update_id rtranclp.rtrancl_refl run_prog.simps(1))
next
  case (Call rq k)
  obtain res w' where a: "gh_serve (world s) rq = (res, w')" by fastforce
  have "conc_step (world s, ps) (w', ps[i := k res])" using conc_stepI [OF Call.prems(1,2) a] .
  moreover have "conc_step\<^sup>*\<^sup>* (w', ps[i := k res]) (world s', ps[i := Ret r])"
    using Call.IH [OF rangeI, where s = "s\<lparr>world := w', sent := sent s @ [rq]\<rparr>" and ps = "ps[i := k res]"] Call.prems a by simp
  ultimately show ?case by simp
qed

lemma run_serveP_conc:
  "i < length ps \<Longrightarrow> ps ! i = serveP env raw \<Longrightarrow>
   conc_step\<^sup>*\<^sup>* (world s, ps) (world (snd (serve gh_serve env raw s)), ps[i := Ret (Inr (fst (serve gh_serve env raw s)))])"
  using run_prog_conc [of i ps "serveP env raw" s]
  by (simp add: serveP_def run_prog_respond handle_bodyP_runs serve_def split: prod.splits sum.splits)

subsection \<open>Properties\<close>

subsection \<open>Lemmas: the resumption model as a whole\<close>

text \<open>
  The resumption form of the handler, run against any upstream, makes
  the same calls in the same order and answers the same response as \<open>serve\<close>; the
  resumption model of concurrent runs is the handler of \<open>Handler\<close>, cut at its awaits.
\<close>

lemma serveP_runs_as_serve:
  "run_prog up (serveP env raw) s = (Inr (fst (serve up env raw s)), snd (serve up env raw s))"
  by (simp add: serveP_def run_prog_respond handle_bodyP_runs serve_def split: prod.splits sum.splits)

text \<open>
  Termination under any interleaving: with \<open>k\<close> invocations in flight, whatever the
  order in which GitHub answers them, the system takes at most \<open>4 k\<close> steps (each
  invocation awaits at most four calls), and a configuration where no step is possible
  is one where every invocation has answered.
\<close>

lemma conc_runs_terminate:
  assumes "(conc_step ^^ m) (g, map (serveP env) raws) (g', ps)"
  shows "m \<le> 4 * length raws \<and> ((\<forall>p\<in>set ps. \<exists>x. p = Ret x) \<or> (\<exists>c'. conc_step (g', ps) c'))"
proof -
  have "list_all2 finishes_within (replicate (length raws) 4) (map (serveP env) raws)"
    by (simp add: list_all2_conv_all_nth serveP_finishes)
  from conc_step_bound [OF this assms] have "m \<le> 4 * length raws" by (simp add: sum_list_replicate)
  moreover have "(\<forall>p\<in>set ps. \<exists>x. p = Ret x) \<or> (\<exists>c'. conc_step (g', ps) c')"
  proof (cases "\<forall>p\<in>set ps. \<exists>x. p = Ret x")
    case False
    then obtain i r k where "i < length ps" "ps ! i = Call r k" by (metis in_set_conv_nth prog.exhaust)
    then show ?thesis using conc_step_progress by blast
  qed simp
  ultimately show ?thesis by blast
qed

text \<open>
  Liveness: whatever has happened so far, the invocations in flight can always all
  be brought to an answer: from every configuration reachable from a batch of
  invocations there is a continuation in which every invocation has answered.
\<close>

lemma conc_runs_complete:
  assumes "conc_step\<^sup>*\<^sup>* (g, map (serveP env) raws) c"
  shows "\<exists>c'. conc_step\<^sup>*\<^sup>* c c' \<and> (\<forall>p\<in>set (snd c'). \<exists>x. p = Ret x)"
proof -
  obtain ns where "list_all2 finishes_within ns (snd c)" using conc_reach_budget [OF assms] by blast
  from conc_completes [OF this, of "fst c"] show ?thesis by simp
qed

end
