(* ===== verification/Concurrency.thy ===== *)
theory Concurrency
  imports Interleaving
begin

text \<open>
  The invariant of invocations in flight against the GitHub model: where each run stands
  (\<open>run_at\<close>), the issue it owns, and the system invariant \<open>conc_inv\<close>, preserved by
  every \<open>conc_step\<close>. From it: all runs that have answered filed their own issue, with
  distinct numbers, in the Icebox column, and the issues that were there before keep their
  place and their column.
\<close>

text \<open>The configuration the handler reads when the environment matches the world.\<close>

definition gh_config :: "github \<Rightarrow> config" where
  "gh_config g = \<lparr>github_token = gh_token g, github_owner = gh_owner g, github_repo = gh_repo g, project_number = 1\<rparr>"

text \<open>The issue GitHub stores for a request when it gives it number \<open>n\<close>.\<close>

definition run_issue :: "issue_request \<Rightarrow> nat \<Rightarrow> gh_issue" where
  "run_issue rq n =
     \<lparr>iss_number = n, iss_title = to_js_string (rq_title rq), iss_body = received (rq_body rq),
      iss_labels = received (rq_labels rq)\<rparr>"

text \<open>
  Where a run stands, given the issue it owns (\<open>None\<close> before its issue is created):
  waiting on the issue creation; holding issue \<open>n\<close> in the world, not yet on the board,
  and waiting on the query or the add; holding an item of the board for it and waiting on
  the update; or finished, with the issue in the Icebox column.
\<close>

definition run_at :: "env \<Rightarrow> github \<Rightarrow> github \<Rightarrow> string + jsval \<Rightarrow> response prog \<Rightarrow> nat option \<Rightarrow> bool" where
  "run_at env g0 g raw p own =
     (let rq = projr (parse_request raw); cfg = gh_config g0 in
      case own of
        None \<Rightarrow> p = serveP env raw
      | Some n \<Rightarrow>
          (let j = issue_json g0 (run_issue rq n) in
           0 < n \<and> n \<le> length (gh_issues g) \<and> gh_issues g ! (n - 1) = run_issue rq n \<and>
           (case resolve_project (gh_project_answer g0 20) of
              Inl e \<Rightarrow> False
            | Inr (pid, sf, io) \<Rightarrow>
                ((p = respond (after_create cfg j) \<or> p = respond (bindP (add_to_projectP cfg pid j) (after_add cfg j pid sf io))) \<and>
                 find (\<lambda>it. item_content it = issue_node n) (gh_items g) = None) \<or>
                (\<exists>it\<in>set (gh_items g). item_content it = issue_node n \<and> p = respond (after_add cfg j pid sf io (Str (item_id it)))) \<or>
                (p = Ret (Inr (filed_response g0 n)) \<and> filing_of g n = Filed (Some ''Icebox'')))))"

text \<open>
  The invariant of the system started in a ready world \<open>g0\<close> with one run per request:
  the world stays ready with the same settings, every run stands somewhere, runs own
  distinct issues, the issues past those of \<open>g0\<close> are exactly the ones runs own, and the
  issues of \<open>g0\<close> keep their filing.
\<close>

definition conc_inv :: "env \<Rightarrow> github \<Rightarrow> (string + jsval) list \<Rightarrow> nat option list \<Rightarrow> github \<times> response prog list \<Rightarrow> bool" where
  "conc_inv env g0 raws owns c =
     (case c of (g, ps) \<Rightarrow>
        length ps = length raws \<and> length owns = length raws \<and> board_ready env g \<and> same_settings g0 g \<and>
        (\<forall>i<length raws. run_at env g0 g (raws ! i) (ps ! i) (owns ! i)) \<and>
        (\<forall>i<length raws. \<forall>j<length raws. i \<noteq> j \<longrightarrow> owns ! i \<noteq> None \<longrightarrow> owns ! i \<noteq> owns ! j) \<and>
        (\<forall>i<length raws. \<forall>n. owns ! i = Some n \<longrightarrow> length (gh_issues g0) < n) \<and>
        length (gh_issues g) = length (gh_issues g0) + card {i. i < length raws \<and> owns ! i \<noteq> None} \<and>
        take (length (gh_issues g0)) (gh_issues g) = gh_issues g0 \<and>
        (\<forall>m\<le>length (gh_issues g0). filing_of g m = filing_of g0 m))"

subsection \<open>Lemmas: the stages of a run against GitHub\<close>

lemma handle_bodyP_valid:
  "read_config env = Inr cfg \<Longrightarrow> parse_request raw = Inr rq \<Longrightarrow>
   handle_bodyP env raw = bindP (create_issueP cfg rq) (after_create cfg)"
  by (simp add: handle_bodyP_def after_create_def [abs_def] after_query_def [abs_def] after_add_def [abs_def] liftP_def)

lemma stage_create:
  "respond (bindP (create_issueP cfg rq) (after_create cfg)) = Call r k \<Longrightarrow>
   r = create_issue_req cfg rq \<and> k (Reply 201 (Inr j)) = respond (after_create cfg j)"
  by (auto simp: create_issueP_def fetchP_def liftP_def ok_def reply_json_def)

lemma stage_query:
  "respond (after_create cfg j) = Call r k \<Longrightarrow>
   r = project_query_req cfg \<and> k (Reply 200 (Inr pd)) = respond (after_query cfg j pd)"
  by (auto simp: after_create_def query_projectP_def fetchP_def liftP_def reply_json_def)

lemma stage_resolve:
  "resolve_project pd = Inr (p, sf, io) \<Longrightarrow>
   after_query cfg j pd = bindP (add_to_projectP cfg p j) (after_add cfg j p sf io)"
  by (simp add: after_query_def liftP_def)

lemma stage_add:
  "respond (bindP (add_to_projectP cfg p j) (after_add cfg j p sf io)) = Call r k \<Longrightarrow> get_prop j ''node_id'' = Inr c \<Longrightarrow>
   r = add_item_req cfg p c \<and> k (Reply 200 (Inr (added_json it))) = respond (after_add cfg j p sf io (Str (item_id it)))"
  by (auto simp: add_to_projectP_def fetchP_def liftP_def reply_json_def added_json_def gql_data_def)

lemma stage_update:
  "respond (after_add cfg j p sf io itm) = Call r k \<Longrightarrow> truthy sf \<Longrightarrow> truthy io \<Longrightarrow>
   r = update_field_req cfg p itm (member sf ''id'') (member io ''id'') \<and>
   k (Reply st b) = respond (liftP (success_response cfg j))"
  by (auto simp: after_add_def set_statusP_def fetchP_def liftP_def get_prop_truthy)

subsection \<open>Lemmas: the world under a step\<close>

lemma issue_json_settings: "same_settings g0 g \<Longrightarrow> issue_json g = issue_json g0"
  by (simp add: same_settings_def issue_json_def issue_html_url_def fun_eq_iff)

lemma gh_project_answer_settings: "same_settings g0 g \<Longrightarrow> gh_project_answer g 20 = gh_project_answer g0 20"
  by (simp add: same_settings_def gh_project_answer_def project_nodes_def)

lemma item_status_items [simp]: "item_status (g\<lparr>gh_items := its\<rparr>) it = item_status g it"
  by (simp add: item_status_def)

lemma filing_of_items_snoc:
  "item_content it \<noteq> issue_node n \<Longrightarrow> filing_of (g\<lparr>gh_items := gh_items g @ [it]\<rparr>) n = filing_of g n"
  by (simp add: filing_of_def find_snoc_other split: option.split)

lemma run_at_add_issue:
  "run_at env g0 g raw p own \<Longrightarrow> run_at env g0 (g\<lparr>gh_issues := gh_issues g @ [x]\<rparr>) raw p own"
  by (auto simp: run_at_def Let_def nth_append split: option.splits sum.splits prod.splits)

lemma run_at_add_item:
  assumes "run_at env g0 g raw p own" "own \<noteq> Some m" "item_content it = issue_node m"
  shows "run_at env g0 (g\<lparr>gh_items := gh_items g @ [it]\<rparr>) raw p own"
proof (cases own)
  case None
  then show ?thesis using assms(1) by (simp add: run_at_def)
next
  case (Some n)
  then have "item_content it \<noteq> issue_node n" using assms(2,3) by simp
  then show ?thesis
    using assms(1) Some by (auto simp: run_at_def Let_def find_snoc_other filing_of_items_snoc split: sum.splits prod.splits)
qed

lemma gh_wf_item_id_unique:
  assumes "gh_wf g" "x \<in> set (gh_items g)" "y \<in> set (gh_items g)" "item_id x = item_id y"
  shows "x = y"
proof -
  have "distinct (map item_name [1..<Suc (length (gh_items g))])"
    by (simp add: distinct_map inj_on_def)
  then have "distinct (map item_id (gh_items g))" using assms(1) by (simp add: gh_wf_def del: upt_Suc)
  then show ?thesis using assms(2-4) by (auto simp: distinct_map inj_on_def)
qed

lemma filing_of_set_value_other:
  assumes "gh_wf g" "y \<in> set (gh_items g)" "item_content y = issue_node m" "m \<noteq> n"
  shows "filing_of (g\<lparr>gh_items := map (set_value (item_id y) f o') (gh_items g)\<rparr>) n = filing_of g n"
proof (cases "find (\<lambda>it. item_content it = issue_node n) (gh_items g)")
  case None
  then show ?thesis by (simp add: filing_of_def find_map_set_value)
next
  case (Some x)
  then have x: "x \<in> set (gh_items g)" "item_content x = issue_node n" using find_SomeD [OF Some] by simp_all
  then have "item_id x \<noteq> item_id y" using gh_wf_item_id_unique [OF assms(1) x(1) assms(2)] assms(3,4) by auto
  then show ?thesis using Some by (simp add: filing_of_def find_map_set_value set_value_other)
qed

lemma run_at_set_value:
  assumes "run_at env g0 g raw p own" "gh_wf g" "y \<in> set (gh_items g)" "item_content y = issue_node m" "own \<noteq> Some m"
  shows "run_at env g0 (g\<lparr>gh_items := map (set_value (item_id y) f o') (gh_items g)\<rparr>) raw p own"
proof (cases own)
  case None
  then show ?thesis using assms(1) by (simp add: run_at_def)
next
  case (Some n)
  then have mn: "m \<noteq> n" using assms(5) by simp
  have held: "\<exists>it'\<in>set (map (set_value (item_id y) f o') (gh_items g)). item_content it' = issue_node n \<and> item_id it' = item_id it"
    if "it \<in> set (gh_items g)" "item_content it = issue_node n" for it
    using that by (intro bexI [of _ "set_value (item_id y) f o' it"]) auto
  show ?thesis
    using assms(1) Some filing_of_set_value_other [OF assms(2-4) mn, of f o']
    by (auto simp: run_at_def Let_def find_map_set_value split: sum.splits prod.splits dest: held)
qed

lemma ready_config:
  "board_ready env g \<Longrightarrow> same_settings g0 g \<Longrightarrow> read_config env = Inr (gh_config g0)"
  using env_matches_config [of env g] by (simp add: board_ready_def gh_config_def same_settings_def)

lemma filable_parse:
  "filable raw \<Longrightarrow> \<exists>t. parse_request raw = Inr (projr (parse_request raw)) \<and> rq_title (projr (parse_request raw)) = Str t"
  by (auto simp: filable_def split: sum.splits jsval.splits)

lemma step_create:
  assumes ready: "board_ready env g" "same_settings g0 g" and f: "filable raw"
    and p: "serveP env raw = Call r k" and a: "gh_serve g r = (res, g')"
  defines "rq \<equiv> projr (parse_request raw)"
  shows "g' = g\<lparr>gh_issues := gh_issues g @ [run_issue rq (Suc (length (gh_issues g)))]\<rparr> \<and>
         k res = respond (after_create (gh_config g0) (issue_json g0 (run_issue rq (Suc (length (gh_issues g))))))"
proof -
  obtain t where rq: "parse_request raw = Inr rq" "rq_title rq = Str t" using filable_parse [OF f] by (auto simp: rq_def)
  have t: "t \<noteq> []" using rq by (auto simp: parse_request_Inr)
  have cfg: "read_config env = Inr (gh_config g0)" by (rule ready_config [OF ready])
  have s: "respond (bindP (create_issueP (gh_config g0) rq) (after_create (gh_config g0))) = Call r k"
    using p by (simp add: serveP_def handle_bodyP_valid [OF cfg rq(1)])
  have c: "gh_serve g (create_issue_req (gh_config g0) rq) =
      (Reply 201 (Inr (issue_json g (run_issue rq (Suc (length (gh_issues g)))))),
       g\<lparr>gh_issues := gh_issues g @ [run_issue rq (Suc (length (gh_issues g)))]\<rparr>)"
    using gh_serve_create_req [of "gh_config g0" g rq t] ready(2) rq(2) t
    by (simp add: gh_config_def same_settings_def run_issue_def Let_def)
  show ?thesis
    using stage_create [OF s] a c issue_json_settings [OF ready(2)] by auto
qed

lemma ready_resolve:
  assumes "board_ready env g0"
  obtains fi nm opts oi on where
    "find is_status_field (take 20 (gh_fields g0)) = Some (SingleSelect fi nm opts)"
    "find is_icebox opts = Some (oi, on)"
    "resolve_project (gh_project_answer g0 20) =
       Inr (Str (gh_project_id g0), field_json (SingleSelect fi nm opts), option_json (oi, on))"
proof -
  obtain fi nm opts oi on where sf: "find is_status_field (take 20 (gh_fields g0)) = Some (SingleSelect fi nm opts)"
    and ib: "find is_icebox opts = Some (oi, on)"
    using assms by (auto simp: board_ready_def elim: icebox_readyE)
  then show ?thesis using that by (simp add: resolve_project_answer)
qed

lemma step_query:
  assumes "same_settings g0 g" "board_ready env g" and p: "respond (after_create cfg j) = Call r k" and a: "gh_serve g r = (res, g')"
    and cfg: "cfg = gh_config g0" and r0: "resolve_project (gh_project_answer g0 20) = Inr (pid, sf, io)"
  shows "g' = g \<and> k res = respond (bindP (add_to_projectP cfg pid j) (after_add cfg j pid sf io))"
proof -
  have q: "gh_serve g (project_query_req cfg) = (Reply 200 (Inr (gh_project_answer g0 20)), g)"
    using gh_serve_query_req [of cfg g] assms(1,2) gh_project_answer_settings [OF assms(1)]
    by (simp add: cfg gh_config_def same_settings_def board_ready_def env_matches_def PROJECT_NUMBER_def)
  show ?thesis
    using stage_query [OF p] a q stage_resolve [OF r0] by auto
qed

lemma step_add:
  assumes wf: "gh_wf g" and set: "same_settings g0 g" and p: "respond (bindP (add_to_projectP cfg pid j) (after_add cfg j pid sf io)) = Call r k"
    and a: "gh_serve g r = (res, g')" and cfg: "cfg = gh_config g0" and pid: "pid = Str (gh_project_id g0)"
    and j: "j = issue_json g0 (run_issue rq n)" and n: "n \<in> set (map iss_number (gh_issues g))"
    and none: "find (\<lambda>it. item_content it = issue_node n) (gh_items g) = None"
  defines "it \<equiv> \<lparr>item_id = item_name (Suc (length (gh_items g))), item_content = issue_node n, item_values = []\<rparr>"
  shows "g' = g\<lparr>gh_items := gh_items g @ [it]\<rparr> \<and> k res = respond (after_add cfg j pid sf io (Str (item_id it)))"
proof -
  have node: "get_prop j ''node_id'' = Inr (Str (issue_node n))" by (simp add: j issue_json_def run_issue_def)
  have c: "gh_serve g (add_item_req cfg pid (Str (issue_node n))) = (Reply 200 (Inr (added_json it)), g\<lparr>gh_items := gh_items g @ [it]\<rparr>)"
    using gh_serve_add_req [of cfg g n, OF _ n none] set by (simp add: cfg pid gh_config_def same_settings_def it_def Let_def)
  show ?thesis
    using stage_add [OF p node, of it] a c by auto
qed

lemma gh_wf_find_content:
  assumes "gh_wf g" "y \<in> set (gh_items g)"
  shows "find (\<lambda>it. item_content it = item_content y) (gh_items g) = Some y"
proof -
  obtain x where x: "find (\<lambda>it. item_content it = item_content y) (gh_items g) = Some x"
    using assms(2) by (cases "find (\<lambda>it. item_content it = item_content y) (gh_items g)") (auto simp: find_None_iff)
  have "distinct (map item_content (gh_items g))" using assms(1) by (simp add: gh_wf_def)
  then have "x = y" using find_SomeD [OF x] assms(2) by (auto simp: distinct_map inj_on_def)
  then show ?thesis using x by simp
qed

lemma success_response_gh:
  "success_response (gh_config g0) (issue_json g0 i) = Inr (filed_response g0 (iss_number i))"
  by (simp add: success_response_truthy issue_json_def filed_response_def project_url_def gh_config_def
      int_to_str_def nat_to_str.simps)

lemma step_update:
  assumes wf: "gh_wf g" and set: "same_settings g0 g"
    and sf: "find is_status_field (take 20 (gh_fields g0)) = Some (SingleSelect fi nm opts)"
    and ib: "find is_icebox opts = Some (oi, on)"
    and p: "respond (after_add cfg j pid (field_json (SingleSelect fi nm opts)) (option_json (oi, on)) (Str (item_id y))) = Call r k"
    and a: "gh_serve g r = (res, g')" and cfg: "cfg = gh_config g0" and pid: "pid = Str (gh_project_id g0)"
    and j: "j = issue_json g0 (run_issue rq n)" and y: "y \<in> set (gh_items g)" "item_content y = issue_node n"
  shows "g' = g\<lparr>gh_items := map (set_value (item_id y) fi oi) (gh_items g)\<rparr> \<and>
         k res = Ret (Inr (filed_response g0 n)) \<and> filing_of g' n = Filed (Some ''Icebox'')"
proof -
  have fields: "gh_fields g = gh_fields g0" using set by (simp add: same_settings_def)
  have opt: "has_option g fi oi" using has_option_found [OF sf ib] fields by (simp add: has_option_def)
  have u: "gh_serve g (update_field_req cfg pid (Str (item_id y)) (Str fi) (Str oi)) =
      (Reply 200 (Inr (gql_data ''updateProjectV2ItemFieldValue'' (Obj [(''projectV2Item'', Obj [(''id'', Str (item_id y))])]))),
       g\<lparr>gh_items := map (set_value (item_id y) fi oi) (gh_items g)\<rparr>)"
    using gh_serve_update_req [of cfg g "item_id y" fi oi] opt y(1) set
    by (simp add: cfg pid gh_config_def same_settings_def)
  have st: "r = update_field_req cfg pid (Str (item_id y)) (Str fi) (Str oi) \<and>
            k (Reply st b) = respond (liftP (success_response cfg j))" for st b
    using stage_update [OF p, of st b] by (simp add: option_json_def)
  have "SingleSelect fi nm opts \<in> set (gh_fields g)" using find_SomeD [OF find_take_Some [OF sf]] fields by simp
  then have dist: "distinct (map fst opts)" using gh_wf_field_ok [OF wf] by (fastforce simp: field_ok_def)
  have "(oi, on) \<in> set opts" "on = ''Icebox''" using find_SomeD [OF ib] by (auto simp: is_icebox_def)
  then have icebox: "map_of opts oi = Some ''Icebox''" using dist by simp
  have found: "find (\<lambda>it. item_content it = issue_node n) (gh_items g) = Some y"
    using gh_wf_find_content [OF wf y(1)] y(2) by simp
  have "filing_of (g\<lparr>gh_items := map (set_value (item_id y) fi oi) (gh_items g)\<rparr>) n = Filed (Some ''Icebox'')"
    using found find_take_Some [OF sf] icebox fields
    by (simp add: filing_of_def find_map_set_value set_value_def item_status_def AList.update_conv')
  then show ?thesis
    using st a u by (simp add: j cfg liftP_def success_response_gh run_issue_def)
qed

lemma run_at_owned: "run_at env g0 g raw p (Some n) \<Longrightarrow> 0 < n \<and> n \<le> length (gh_issues g)"
  by (simp add: run_at_def Let_def)

lemma serve_step_ready:
  "board_ready env g \<Longrightarrow> same_settings g0 g \<Longrightarrow> gh_serve g r = (res, g') \<Longrightarrow>
   board_ready env g' \<and> same_settings g0 g'"
proof -
  assume a: "board_ready env g" "same_settings g0 g" "gh_serve g r = (res, g')"
  then have g': "g' = snd (gh_serve g r)" by simp
  show ?thesis
    using gh_serve_keeps_ready [of env] gh_serve_settings [of g r] same_settings_trans [OF a(2)] a(1)
    by (simp add: upstream_keeps_def g')
qed

lemma conc_inv_create:
  assumes inv: "conc_inv env g0 raws owns (g, ps)" and g0: "board_ready env g0"
    and i: "i < length raws" "filable (raws ! i)" "owns ! i = None"
    and p: "ps ! i = Call r k" and a: "gh_serve g r = (res, g')"
  shows "conc_inv env g0 raws (owns[i := Some (Suc (length (gh_issues g)))]) (g', ps[i := k res])"
proof -
  let ?L = "length (gh_issues g)" and ?rq = "projr (parse_request (raws ! i))"
  have len: "length ps = length raws" "length owns = length raws" and ready: "board_ready env g" "same_settings g0 g"
    and runs: "\<forall>j<length raws. run_at env g0 g (raws ! j) (ps ! j) (owns ! j)"
    and dist: "\<forall>i<length raws. \<forall>j<length raws. i \<noteq> j \<longrightarrow> owns ! i \<noteq> None \<longrightarrow> owns ! i \<noteq> owns ! j"
    and above: "\<forall>i<length raws. \<forall>n. owns ! i = Some n \<longrightarrow> length (gh_issues g0) < n"
    and count: "?L = length (gh_issues g0) + card {i. i < length raws \<and> owns ! i \<noteq> None}"
    and pre: "take (length (gh_issues g0)) (gh_issues g) = gh_issues g0"
    and fil: "\<forall>m\<le>length (gh_issues g0). filing_of g m = filing_of g0 m"
    using inv by (simp_all add: conc_inv_def)
  have wf: "gh_wf g" using ready by (simp add: board_ready_def)
  have "run_at env g0 g (raws ! i) (ps ! i) None" using runs [rule_format, OF i(1)] i(3) by simp
  then have "serveP env (raws ! i) = Call r k" using p by (simp add: run_at_def)
  then have step: "g' = g\<lparr>gh_issues := gh_issues g @ [run_issue ?rq (Suc ?L)]\<rparr>"
      "k res = respond (after_create (gh_config g0) (issue_json g0 (run_issue ?rq (Suc ?L))))"
    using step_create [OF ready i(2) _ a] by auto
  have ready': "board_ready env g'" "same_settings g0 g'" using serve_step_ready [OF ready a] by auto
  obtain fi nm opts oi on where r0: "resolve_project (gh_project_answer g0 20) =
       Inr (Str (gh_project_id g0), field_json (SingleSelect fi nm opts), option_json (oi, on))"
    using ready_resolve [OF g0] by metis
  have new: "run_at env g0 g' (raws ! i) (k res) (Some (Suc ?L))"
    using gh_wf_next_unfiled [OF wf] by (simp add: run_at_def step r0 nth_append)
  have others: "run_at env g0 g' (raws ! j) (ps ! j) (owns ! j)" if "j < length raws" for j
    using run_at_add_issue [of env g0 g "raws ! j" "ps ! j" "owns ! j"] runs that by (simp add: step)
  have fresh: "owns ! j \<noteq> Some (Suc ?L)" if "j < length raws" for j
    using runs [rule_format, OF that] by (cases "owns ! j") (auto dest: run_at_owned)
  have card: "card {j. j < length raws \<and> owns[i := Some (Suc ?L)] ! j \<noteq> None} =
              Suc (card {j. j < length raws \<and> owns ! j \<noteq> None})"
  proof -
    have "{j. j < length raws \<and> owns[i := Some (Suc ?L)] ! j \<noteq> None} = insert i {j. j < length raws \<and> owns ! j \<noteq> None}"
      using i(1) len(2) by (auto simp: nth_list_update)
    then show ?thesis using i(3) by simp
  qed
  let ?owns' = "owns[i := Some (Suc ?L)]"
  have c3: "\<forall>j<length raws. run_at env g0 g' (raws ! j) (ps[i := k res] ! j) (?owns' ! j)"
    using new others len i(1) by (auto simp: nth_list_update)
  have c4: "\<forall>a<length raws. \<forall>b<length raws. a \<noteq> b \<longrightarrow> ?owns' ! a \<noteq> None \<longrightarrow> ?owns' ! a \<noteq> ?owns' ! b"
  proof (intro allI impI)
    fix a b assume ab: "a < length raws" "b < length raws" "a \<noteq> b" "?owns' ! a \<noteq> None"
    show "?owns' ! a \<noteq> ?owns' ! b"
    proof (cases "a = i")
      case True
      then show ?thesis using ab fresh [of b] len(2) by (simp add: nth_list_update)
    next
      case False
      then show ?thesis
        using ab fresh [of a] dist len(2) by (cases "b = i") (auto simp: nth_list_update)
    qed
  qed
  have c5: "\<forall>a<length raws. \<forall>n. ?owns' ! a = Some n \<longrightarrow> length (gh_issues g0) < n"
    using above count len(2) i(1) by (auto simp: nth_list_update split: if_splits)
  have c6: "length (gh_issues g') = length (gh_issues g0) + card {j. j < length raws \<and> ?owns' ! j \<noteq> None}"
    using count card by (simp add: step)
  have c7: "take (length (gh_issues g0)) (gh_issues g') = gh_issues g0"
    using pre count by (simp add: step)
  have c8: "\<forall>m\<le>length (gh_issues g0). filing_of g' m = filing_of g0 m"
    using fil by (simp add: step)
  show ?thesis
    unfolding conc_inv_def prod.case
    using ready' len c3 c4 c5 c6 c7 c8 by simp
qed

lemma conc_inv_items:
  assumes inv: "conc_inv env g0 raws owns (g, ps)"
    and g': "gh_issues g' = gh_issues g" "board_ready env g'" "same_settings g0 g'"
    and runs: "\<forall>j<length raws. run_at env g0 g' (raws ! j) (ps' ! j) (owns ! j)"
    and fil: "\<forall>m\<le>length (gh_issues g0). filing_of g' m = filing_of g m"
    and len: "length ps' = length ps"
  shows "conc_inv env g0 raws owns (g', ps')"
  using inv g' runs fil len by (simp add: conc_inv_def)

lemma run_at_SomeE:
  assumes "run_at env g0 g raw p (Some n)"
    and r0: "resolve_project (gh_project_answer g0 20) = Inr (pid, sf, io)"
  defines "cfg \<equiv> gh_config g0" and "j \<equiv> issue_json g0 (run_issue (projr (parse_request raw)) n)"
  obtains
    "p = respond (after_create cfg j)" "find (\<lambda>it. item_content it = issue_node n) (gh_items g) = None"
  | "p = respond (bindP (add_to_projectP cfg pid j) (after_add cfg j pid sf io))"
    "find (\<lambda>it. item_content it = issue_node n) (gh_items g) = None"
  | it where "it \<in> set (gh_items g)" "item_content it = issue_node n" "p = respond (after_add cfg j pid sf io (Str (item_id it)))"
  | "p = Ret (Inr (filed_response g0 n))" "filing_of g n = Filed (Some ''Icebox'')"
  using assms(1) unfolding run_at_def Let_def cfg_def j_def r0 by auto

lemma conc_inv_others:
  assumes "conc_inv env g0 raws owns (g, ps)" "i < length raws" "owns ! i = Some n" "j < length raws" "j \<noteq> i"
  shows "owns ! j \<noteq> Some n"
  using assms by (auto simp: conc_inv_def) (metis option.distinct(1))

lemma conc_inv_owned_above:
  "conc_inv env g0 raws owns (g, ps) \<Longrightarrow> i < length raws \<Longrightarrow> owns ! i = Some n \<Longrightarrow> length (gh_issues g0) < n"
  by (simp add: conc_inv_def)

lemma conc_inv_runs:
  "conc_inv env g0 raws owns (g, ps) \<Longrightarrow> j < length raws \<Longrightarrow> run_at env g0 g (raws ! j) (ps ! j) (owns ! j)"
  by (simp add: conc_inv_def)

lemma conc_inv_ready:
  "conc_inv env g0 raws owns (g, ps) \<Longrightarrow> board_ready env g \<and> same_settings g0 g \<and> length ps = length raws"
  by (simp add: conc_inv_def)

lemma issue_numbered: "0 < n \<Longrightarrow> n \<le> length (gh_issues g) \<Longrightarrow> gh_issues g ! (n - 1) = run_issue rq n \<Longrightarrow>
  n \<in> set (map iss_number (gh_issues g))"
  by (metis Suc_diff_1 Suc_le_lessD length_map nth_map nth_mem run_issue_def gh_issue.select_convs(1))

lemma conc_inv_add:
  assumes inv: "conc_inv env g0 raws owns (g, ps)" and i: "i < length raws" "owns ! i = Some n"
    and p: "ps ! i = respond (bindP (add_to_projectP (gh_config g0) pid j) (after_add (gh_config g0) j pid sf io))"
    and none: "find (\<lambda>it. item_content it = issue_node n) (gh_items g) = None"
    and r0: "resolve_project (gh_project_answer g0 20) = Inr (pid, sf, io)" "pid = Str (gh_project_id g0)"
    and j: "j = issue_json g0 (run_issue (projr (parse_request (raws ! i))) n)"
    and c: "ps ! i = Call r k" and a: "gh_serve g r = (res, g')"
  shows "conc_inv env g0 raws owns (g', ps[i := k res])"
proof -
  have ready: "board_ready env g" "same_settings g0 g" "length ps = length raws" using conc_inv_ready [OF inv] by auto
  have wf: "gh_wf g" using ready by (simp add: board_ready_def)
  have own: "run_at env g0 g (raws ! i) (ps ! i) (Some n)" using conc_inv_runs [OF inv i(1)] i(2) by simp
  then have o: "0 < n \<and> n \<le> length (gh_issues g) \<and> gh_issues g ! (n - 1) = run_issue (projr (parse_request (raws ! i))) n"
    by (simp add: run_at_def Let_def)
  then have n: "n \<in> set (map iss_number (gh_issues g))" using issue_numbered by blast
  define it where "it = \<lparr>item_id = item_name (Suc (length (gh_items g))), item_content = issue_node n, item_values = []\<rparr>"
  have step: "g' = g\<lparr>gh_items := gh_items g @ [it]\<rparr>" "k res = respond (after_add (gh_config g0) j pid sf io (Str (item_id it)))"
    using step_add [OF wf ready(2) p [symmetric, THEN trans, OF c] a refl r0(2) j n none] by (simp_all add: it_def)
  have ready': "board_ready env g'" "same_settings g0 g'" using serve_step_ready [OF ready(1,2) a] by auto
  have mine: "run_at env g0 g' (raws ! i) (k res) (Some n)"
    using o by (simp add: run_at_def Let_def step r0(1) it_def j)
  have others: "run_at env g0 g' (raws ! j') (ps ! j') (owns ! j')" if "j' < length raws" "j' \<noteq> i" for j'
    using run_at_add_item [OF conc_inv_runs [OF inv that(1)] conc_inv_others [OF inv i that], of it] by (simp add: step it_def)
  have fil: "\<forall>m\<le>length (gh_issues g0). filing_of g' m = filing_of g m"
    using conc_inv_owned_above [OF inv i] by (auto simp: step it_def intro!: filing_of_items_snoc)
  have runs: "\<forall>j'<length raws. run_at env g0 g' (raws ! j') (ps[i := k res] ! j') (owns ! j')"
    using mine others i ready(3) by (auto simp: nth_list_update)
  show ?thesis
    by (rule conc_inv_items [OF inv _ ready' runs fil]) (simp_all add: step)
qed

lemma conc_inv_query:
  assumes inv: "conc_inv env g0 raws owns (g, ps)" and i: "i < length raws" "owns ! i = Some n"
    and p: "ps ! i = respond (after_create (gh_config g0) j)"
    and none: "find (\<lambda>it. item_content it = issue_node n) (gh_items g) = None"
    and r0: "resolve_project (gh_project_answer g0 20) = Inr (pid, sf, io)"
    and j: "j = issue_json g0 (run_issue (projr (parse_request (raws ! i))) n)"
    and c: "ps ! i = Call r k" and a: "gh_serve g r = (res, g')"
  shows "conc_inv env g0 raws owns (g', ps[i := k res])"
proof -
  have ready: "board_ready env g" "same_settings g0 g" "length ps = length raws" using conc_inv_ready [OF inv] by auto
  have own: "run_at env g0 g (raws ! i) (ps ! i) (Some n)" using conc_inv_runs [OF inv i(1)] i(2) by simp
  have step: "g' = g" "k res = respond (bindP (add_to_projectP (gh_config g0) pid j) (after_add (gh_config g0) j pid sf io))"
    using step_query [OF ready(2,1) p [symmetric, THEN trans, OF c] a refl r0] by simp_all
  have mine: "run_at env g0 g' (raws ! i) (k res) (Some n)"
    using own none by (simp add: run_at_def Let_def step r0 j)
  have runs: "\<forall>j'<length raws. run_at env g0 g' (raws ! j') (ps[i := k res] ! j') (owns ! j')"
    using mine conc_inv_runs [OF inv] i ready(3) by (auto simp: nth_list_update step)
  show ?thesis
    by (rule conc_inv_items [OF inv _ _ _ runs]) (simp_all add: step ready)
qed

lemma conc_inv_update:
  assumes inv: "conc_inv env g0 raws owns (g, ps)" and g0: "board_ready env g0"
    and i: "i < length raws" "owns ! i = Some n"
    and sf: "find is_status_field (take 20 (gh_fields g0)) = Some (SingleSelect fi nm opts)"
    and ib: "find is_icebox opts = Some (oi, on)"
    and r0: "resolve_project (gh_project_answer g0 20) =
       Inr (Str (gh_project_id g0), field_json (SingleSelect fi nm opts), option_json (oi, on))"
    and y: "y \<in> set (gh_items g)" "item_content y = issue_node n"
    and p: "ps ! i = respond (after_add (gh_config g0) j (Str (gh_project_id g0)) (field_json (SingleSelect fi nm opts))
              (option_json (oi, on)) (Str (item_id y)))"
    and j: "j = issue_json g0 (run_issue (projr (parse_request (raws ! i))) n)"
    and c: "ps ! i = Call r k" and a: "gh_serve g r = (res, g')"
  shows "conc_inv env g0 raws owns (g', ps[i := k res])"
proof -
  have ready: "board_ready env g" "same_settings g0 g" "length ps = length raws" using conc_inv_ready [OF inv] by auto
  have wf: "gh_wf g" using ready by (simp add: board_ready_def)
  have own: "run_at env g0 g (raws ! i) (ps ! i) (Some n)" using conc_inv_runs [OF inv i(1)] i(2) by simp
  have step: "g' = g\<lparr>gh_items := map (set_value (item_id y) fi oi) (gh_items g)\<rparr>"
      "k res = Ret (Inr (filed_response g0 n))" "filing_of g' n = Filed (Some ''Icebox'')"
    using step_update [OF wf ready(2) sf ib p [symmetric, THEN trans, OF c] a refl refl j y] by blast+
  have ready': "board_ready env g'" "same_settings g0 g'" using serve_step_ready [OF ready(1,2) a] by auto
  have mine: "run_at env g0 g' (raws ! i) (k res) (Some n)"
    using own step(3) by (simp add: run_at_def Let_def r0 step(2)) (simp add: step(1))
  have others: "run_at env g0 g' (raws ! j') (ps ! j') (owns ! j')" if "j' < length raws" "j' \<noteq> i" for j'
    using run_at_set_value [OF conc_inv_runs [OF inv that(1)] wf y conc_inv_others [OF inv i that]] by (simp add: step(1))
  have fil: "\<forall>m\<le>length (gh_issues g0). filing_of g' m = filing_of g m"
    using conc_inv_owned_above [OF inv i] filing_of_set_value_other [OF wf y] by (simp add: step(1))
  have runs: "\<forall>j'<length raws. run_at env g0 g' (raws ! j') (ps[i := k res] ! j') (owns ! j')"
    using mine others i ready(3) by (auto simp: nth_list_update)
  show ?thesis
    by (rule conc_inv_items [OF inv _ ready' runs fil]) (simp_all add: step(1))
qed

lemma conc_inv_step:
  assumes inv: "conc_inv env g0 raws owns c" and g0: "board_ready env g0" and f: "list_all filable raws"
    and st: "conc_step c c'"
  shows "\<exists>owns'. conc_inv env g0 raws owns' c'"
  using st
proof cases
  case (conc_stepI i ps r k g res g')
  have i: "i < length raws" using conc_stepI inv by (simp add: conc_inv_def)
  have inv': "conc_inv env g0 raws owns (g, ps)" using inv conc_stepI by simp
  show ?thesis
  proof (cases "owns ! i")
    case None
    then show ?thesis
      using conc_inv_create [OF inv' g0 i _ None conc_stepI(4,5)] f i conc_stepI(2) by (auto simp: list_all_length)
  next
    case (Some n)
    obtain fi nm opts oi on where sf: "find is_status_field (take 20 (gh_fields g0)) = Some (SingleSelect fi nm opts)"
      and ib: "find is_icebox opts = Some (oi, on)"
      and r0: "resolve_project (gh_project_answer g0 20) =
         Inr (Str (gh_project_id g0), field_json (SingleSelect fi nm opts), option_json (oi, on))"
      using ready_resolve [OF g0] by metis
    have run: "run_at env g0 g (raws ! i) (ps ! i) (Some n)" using conc_inv_runs [OF inv' i] Some by simp
    show ?thesis
      using run r0
    proof (cases rule: run_at_SomeE)
      case 1
      then show ?thesis using conc_inv_query [OF inv' i Some _ _ r0 refl conc_stepI(4,5)] conc_stepI(2) by blast
    next
      case 2
      then show ?thesis using conc_inv_add [OF inv' i Some _ _ r0 refl refl conc_stepI(4,5)] conc_stepI(2) by blast
    next
      case (3 it)
      then show ?thesis
        using conc_inv_update [OF inv' g0 i Some sf ib r0 3(1,2) _ refl conc_stepI(4,5)] conc_stepI(2) by blast
    next
      case 4
      then show ?thesis using conc_stepI(4) by simp
    qed
  qed
qed

lemma conc_inv_init:
  assumes "board_ready env g0"
  shows "conc_inv env g0 raws (replicate (length raws) None) (g0, map (serveP env) raws)"
  using assms by (simp add: conc_inv_def run_at_def filing_of_def)

lemma conc_inv_reach:
  assumes "conc_step\<^sup>*\<^sup>* (g0, map (serveP env) raws) c" "board_ready env g0" "list_all filable raws"
  shows "\<exists>owns. conc_inv env g0 raws owns c"
  using assms(1)
proof (induction rule: rtranclp_induct)
  case base
  then show ?case using conc_inv_init [OF assms(2)] by blast
next
  case (step c c')
  then show ?case using conc_inv_step [OF _ assms(2,3)] by blast
qed

text \<open>Before its issue is filed, a run is waiting on a call.\<close>

lemma run_at_Ret:
  assumes "run_at env g0 g raw (Ret x) own" "board_ready env g0" "filable raw" "board_ready env g" "same_settings g0 g"
  shows "\<exists>n. own = Some n \<and> x = Inr (filed_response g0 n) \<and> filing_of g n = Filed (Some ''Icebox'')"
proof (cases own)
  case None
  have rq: "parse_request raw = Inr (projr (parse_request raw))" using filable_parse [OF assms(3)] by blast
  have "serveP env raw = Ret x" using assms(1) None by (simp add: run_at_def)
  then show ?thesis
    using ready_config [OF assms(4,5)] rq
    by (simp add: serveP_def handle_bodyP_valid create_issueP_def fetchP_def)
next
  case (Some n)
  obtain fi nm opts oi on where r0: "resolve_project (gh_project_answer g0 20) =
       Inr (Str (gh_project_id g0), field_json (SingleSelect fi nm opts), option_json (oi, on))"
    using ready_resolve [OF assms(2)] by metis
  show ?thesis
    using assms(1) [unfolded Some] r0
  proof (cases rule: run_at_SomeE)
    case 1
    then show ?thesis by (simp add: after_create_def query_projectP_def fetchP_def)
  next
    case 2
    then show ?thesis by (simp add: add_to_projectP_def issue_json_def liftP_def fetchP_def)
  next
    case (3 it)
    then show ?thesis by (simp add: after_add_def set_statusP_def liftP_def fetchP_def option_json_def)
  next
    case 4
    then show ?thesis using Some by simp
  qed
qed

text \<open>A run of a reachable configuration that has answered answered success, for its own issue.\<close>

lemma conc_inv_finished:
  assumes inv: "conc_inv env g0 raws owns (g, ps)" and g0: "board_ready env g0" and f: "list_all filable raws"
    and i: "i < length raws" and x: "ps ! i = Ret x"
  shows "\<exists>n. owns ! i = Some n \<and> x = Inr (filed_response g0 n) \<and> filing_of g n = Filed (Some ''Icebox'')"
proof -
  have ready: "board_ready env g" "same_settings g0 g" using conc_inv_ready [OF inv] by auto
  show ?thesis
    using run_at_Ret [OF _ g0 _ ready] conc_inv_runs [OF inv i] f i x by (auto simp: list_all_length)
qed

lemma board_prefix_kept:
  assumes "gh_wf g0" "take (length (gh_issues g0)) (gh_issues g) = gh_issues g0"
    and "\<forall>m\<le>length (gh_issues g0). filing_of g m = filing_of g0 m"
  shows "take (length (board g0)) (board g) = board g0"
proof -
  have "ticket_of g x = ticket_of g0 x" if "x \<in> set (gh_issues g0)" for x
    using gh_wf_numbers [OF assms(1) that] assms(3) by (simp add: ticket_of_def)
  then show ?thesis using assms(2) by (simp add: board_def take_map)
qed

lemma run_ticket:
  "run_at env g0 g raw p (Some n) \<Longrightarrow> filing_of g n = f \<Longrightarrow>
   board g ! (n - 1) = request_ticket (projr (parse_request raw)) f"
  by (auto simp: run_at_def Let_def board_def ticket_of_def run_issue_def request_ticket_def)

subsection \<open>Properties\<close>

text \<open>
  C16. Concurrent invocations (specification, section 5): any number of invocations with
  string titles, started together on a ready world and interleaved in any order at their
  awaits, all answer success once they have finished; they file one issue each, with
  distinct new numbers, each in the Icebox column of the board, and the tickets that were
  on the board before are unchanged.
\<close>

theorem concurrent_runs_file_each:
  assumes g0: "board_ready env g0" and f: "list_all filable raws"
    and reach: "conc_step\<^sup>*\<^sup>* (g0, map (serveP env) raws) (g, ps)" and stop: "\<forall>p\<in>set ps. \<exists>x. p = Ret x"
  shows "length (board g) = length (board g0) + length raws \<and> take (length (board g0)) (board g) = board g0 \<and>
         (\<exists>ns. distinct ns \<and> length ns = length raws \<and>
            (\<forall>i<length raws. length (board g0) < ns ! i \<and> ns ! i \<le> length (board g) \<and>
               ps ! i = Ret (Inr (filed_response g0 (ns ! i))) \<and>
               board g ! (ns ! i - 1) = request_ticket (projr (parse_request (raws ! i))) (Filed (Some ''Icebox''))))"
proof -
  obtain owns where inv: "conc_inv env g0 raws owns (g, ps)" using conc_inv_reach [OF reach g0 f] by blast
  have ready: "board_ready env g" "same_settings g0 g" "length ps = length raws" using conc_inv_ready [OF inv] by auto
  have fin: "\<exists>n. owns ! i = Some n \<and> ps ! i = Ret (Inr (filed_response g0 n)) \<and> filing_of g n = Filed (Some ''Icebox'')"
    if "i < length raws" for i
  proof -
    have "ps ! i \<in> set ps" using that ready(3) by simp
    then obtain x where x: "ps ! i = Ret x" using stop by blast
    show ?thesis using conc_inv_finished [OF inv g0 f that x] x by auto
  qed
  define ns where "ns = map the owns"
  have lens: "length owns = length raws" using inv by (simp add: conc_inv_def)
  have own: "owns ! i = Some (ns ! i)" if "i < length raws" for i using fin [OF that] lens that by (auto simp: ns_def)
  have pw: "\<forall>a<length raws. \<forall>b<length raws. a \<noteq> b \<longrightarrow> owns ! a \<noteq> None \<longrightarrow> owns ! a \<noteq> owns ! b"
    using inv by (simp add: conc_inv_def)
  have dist: "distinct ns"
    unfolding distinct_conv_nth
  proof (intro allI impI)
    fix a b assume ab: "a < length ns" "b < length ns" "a \<noteq> b"
    then have "a < length raws" "b < length raws" using lens by (simp_all add: ns_def)
    then show "ns ! a \<noteq> ns ! b" using pw own ab(3) by (metis option.distinct(1))
  qed
  have all: "{i. i < length raws \<and> owns ! i \<noteq> None} = {..<length raws}" using own by auto
  have len: "length (board g) = length (board g0) + length raws"
    using inv all by (simp add: conc_inv_def board_def)
  have pre: "take (length (board g0)) (board g) = board g0"
    using board_prefix_kept [of g0 g] inv g0 by (simp add: conc_inv_def board_ready_def)
  have bounds: "length (board g0) < ns ! i \<and> ns ! i \<le> length (board g)" if "i < length raws" for i
    using conc_inv_owned_above [OF inv that own [OF that]] run_at_owned [OF conc_inv_runs [OF inv that, unfolded own [OF that]]]
    by (simp add: board_def)
  have each: "ps ! i = Ret (Inr (filed_response g0 (ns ! i))) \<and>
      board g ! (ns ! i - 1) = request_ticket (projr (parse_request (raws ! i))) (Filed (Some ''Icebox''))"
    if "i < length raws" for i
    using fin [OF that] own [OF that] run_ticket [of env g0 g "raws ! i" "ps ! i"] conc_inv_runs [OF inv that] by auto
  show ?thesis using len pre dist each bounds lens by (auto simp: ns_def)
qed

end
