(* ===== verification/JsonText.thy ===== *)
theory JsonText
  imports JsValue "HOL-Library.AList"
begin

text \<open>
  \<^verbatim>\<open>JSON.parse\<close>, the runtime's reading of a JSON text, which is what
  \<^verbatim>\<open>await req.json()\<close> does with the request body (line 26) and \<^verbatim>\<open>await r.json()\<close>
  with GitHub's answers. It is runtime code, not code of the repository, and is modelled
  from the JSON grammar (RFC 8259) with the runtime's choices: white space is space, tab,
  line feed and carriage return; a repeated member name keeps its first position and its
  last value. The reader is a recursive descent over the text that returns the value and
  the rest of the text: \<open>pv\<close> reads a value, \<open>pelems\<close> the elements of an array
  after its \<open>[\<close>, \<open>pmembers\<close> the members of an object after its \<open>{\<close>; \<open>pstr\<close>,
  \<open>pnum\<close> and \<open>plit\<close> the scalars. The recursion runs on fuel, and
  \<open>json_parse\<close> gives it twice the length of the text plus one, which never runs out
  (\<open>req_json_total\<close>). A failure is \<open>JsonSyntax\<close> (the text is not JSON: the runtime throws a
  \<open>SyntaxError\<close>), or \<open>JsonOutside\<close>: the text holds a number with a fraction or an
  exponent, or a \<^verbatim>\<open>\\u\<close> escape above \<^verbatim>\<open>00FF\<close>, which the model's values (integers,
  strings of 8-bit characters) cannot hold. Its lemmas: every reader consumes what it
  reads (\<open>pv_rest\<close>); fuel twice the length suffices (\<open>pv_fuel\<close>); the reader reads
  back what \<^verbatim>\<open>JSON.stringify\<close> prints (\<open>pv_json_text\<close>, \<open>json_parse_json_text\<close>); what it returns is a
  plain JSON value with distinct member names (\<open>pv_plain\<close>), so printing and reading a
  parsed value gives it back (\<open>json_parse_reparse\<close>).
\<close>

datatype json_fail = JsonSyntax | JsonOutside | JsonFuel

definition json_ws :: "char \<Rightarrow> bool" where
  "json_ws c \<longleftrightarrow> c = CHR '' '' \<or> c = CHR 0x09 \<or> c = CHR 0x0A \<or> c = CHR 0x0D"

definition skip_ws :: "string \<Rightarrow> string" where
  "skip_ws s = dropWhile json_ws s"

definition json_digit :: "char \<Rightarrow> bool" where
  "json_digit c \<longleftrightarrow> digit_val 10 c \<noteq> None"

definition json_unescape :: "char \<Rightarrow> char option" where
  "json_unescape e =
     (if e = CHR 0x22 then Some (CHR 0x22)
      else if e = CHR 0x5C then Some (CHR 0x5C)
      else if e = CHR ''/'' then Some (CHR ''/'')
      else if e = CHR ''b'' then Some (CHR 0x08)
      else if e = CHR ''f'' then Some (CHR 0x0C)
      else if e = CHR ''n'' then Some (CHR 0x0A)
      else if e = CHR ''r'' then Some (CHR 0x0D)
      else if e = CHR ''t'' then Some (CHR 0x09)
      else None)"

definition hex4 :: "string \<Rightarrow> nat option" where
  "hex4 s =
     (if 4 \<le> length s \<and> list_all (\<lambda>c. digit_val 16 c \<noteq> None) (take 4 s)
      then Some (digits_value 16 (List.map_filter (digit_val 16) (take 4 s))) else None)"

fun pstr :: "string \<Rightarrow> string \<Rightarrow> json_fail + (string \<times> string)" where
  "pstr acc [] = Inl JsonSyntax"
| "pstr acc (c # s) =
     (if c = CHR 0x22 then Inr (acc, s)
      else if c = CHR 0x5C then
        (case s of
           [] \<Rightarrow> Inl JsonSyntax
         | e # s' \<Rightarrow>
             if e = CHR ''u'' then
               (case hex4 s' of
                  None \<Rightarrow> Inl JsonSyntax
                | Some n \<Rightarrow> if n < 256 then pstr (acc @ [char_of n]) (drop 4 s') else Inl JsonOutside)
             else (case json_unescape e of None \<Rightarrow> Inl JsonSyntax | Some d \<Rightarrow> pstr (acc @ [d]) s'))
      else if of_char c < (32::nat) then Inl JsonSyntax
      else pstr (acc @ [c]) s)"

definition digits_tail :: "string \<Rightarrow> string option" where
  "digits_tail s = (if takeWhile json_digit s = [] then None else Some (dropWhile json_digit s))"

definition frac_exp :: "string \<Rightarrow> string option" where
  "frac_exp s =
     (let f = (case s of c # r \<Rightarrow> if c = CHR ''.'' then digits_tail r else Some s | [] \<Rightarrow> Some s)
      in case f of
           None \<Rightarrow> None
         | Some t \<Rightarrow>
             (case t of
                c # r \<Rightarrow>
                  if c = CHR ''e'' \<or> c = CHR ''E'' then
                    digits_tail (case r of d # r' \<Rightarrow> if d = CHR ''+'' \<or> d = CHR ''-'' then r' else r | [] \<Rightarrow> r)
                  else Some t
              | [] \<Rightarrow> Some t))"

definition num_sign :: "string \<Rightarrow> bool \<times> string" where
  "num_sign s = (case s of c # r \<Rightarrow> if c = CHR ''-'' then (True, r) else (False, s) | [] \<Rightarrow> (False, s))"

definition num_digits :: "string \<Rightarrow> string" where
  "num_digits s = (case s of c # r \<Rightarrow> if c = CHR ''0'' then [c] else takeWhile json_digit s | [] \<Rightarrow> [])"

definition num_more :: "string \<Rightarrow> bool" where
  "num_more s \<longleftrightarrow> (case s of c # _ \<Rightarrow> c = CHR ''.'' \<or> c = CHR ''e'' \<or> c = CHR ''E'' | [] \<Rightarrow> False)"

definition pnum :: "string \<Rightarrow> json_fail + (jsval \<times> string)" where
  "pnum s =
     (let (neg, s1) = num_sign s;
          ds = num_digits s1;
          s2 = drop (length ds) s1
      in if ds = [] then Inl JsonSyntax
         else if num_more s2 then (case frac_exp s2 of None \<Rightarrow> Inl JsonSyntax | Some _ \<Rightarrow> Inl JsonOutside)
         else Inr (Num ((if neg then -1 else 1) * int (digits_value 10 (List.map_filter (digit_val 10) ds))), s2))"

definition plit :: "string \<Rightarrow> jsval \<Rightarrow> string \<Rightarrow> json_fail + (jsval \<times> string)" where
  "plit w v s = (if take (length w) s = w then Inr (v, drop (length w) s) else Inl JsonSyntax)"

text \<open>A value that is not an array or an object, given its first character.\<close>

definition pscalar :: "char \<Rightarrow> string \<Rightarrow> json_fail + (jsval \<times> string)" where
  "pscalar c r =
     (if c = CHR 0x22 then (case pstr [] r of Inl e \<Rightarrow> Inl e | Inr (x, r') \<Rightarrow> Inr (Str x, r'))
      else if c = CHR ''t'' then plit ''rue'' (Bool True) r
      else if c = CHR ''f'' then plit ''alse'' (Bool False) r
      else if c = CHR ''n'' then plit ''ull'' Null r
      else if c = CHR ''-'' \<or> json_digit c then pnum (c # r)
      else Inl JsonSyntax)"

fun pv :: "nat \<Rightarrow> string \<Rightarrow> json_fail + (jsval \<times> string)"
and pelems :: "nat \<Rightarrow> jsval list \<Rightarrow> string \<Rightarrow> json_fail + (jsval \<times> string)"
and pmembers :: "nat \<Rightarrow> (string \<times> jsval) list \<Rightarrow> string \<Rightarrow> json_fail + (jsval \<times> string)" where
  "pv 0 s = Inl JsonFuel"
| "pv (Suc n) s =
     (case skip_ws s of
        [] \<Rightarrow> Inl JsonSyntax
      | c # r \<Rightarrow>
          if c = CHR ''['' then
            (case skip_ws r of
               [] \<Rightarrow> Inl JsonSyntax
             | d # r' \<Rightarrow> if d = CHR '']'' then Inr (Arr [], r') else pelems n [] r)
          else if c = CHR ''{'' then
            (case skip_ws r of
               [] \<Rightarrow> Inl JsonSyntax
             | d # r' \<Rightarrow> if d = CHR ''}'' then Inr (Obj [], r') else pmembers n [] r)
          else pscalar c r)"
| "pelems 0 acc s = Inl JsonFuel"
| "pelems (Suc n) acc s =
     (case pv n s of
        Inl e \<Rightarrow> Inl e
      | Inr (v, r) \<Rightarrow>
          (case skip_ws r of
             [] \<Rightarrow> Inl JsonSyntax
           | d # r' \<Rightarrow>
               if d = CHR '','' then pelems n (acc @ [v]) r'
               else if d = CHR '']'' then Inr (Arr (acc @ [v]), r')
               else Inl JsonSyntax))"
| "pmembers 0 acc s = Inl JsonFuel"
| "pmembers (Suc n) acc s =
     (case skip_ws s of
        [] \<Rightarrow> Inl JsonSyntax
      | d # r \<Rightarrow>
          if d \<noteq> CHR 0x22 then Inl JsonSyntax
          else (case pstr [] r of
            Inl e \<Rightarrow> Inl e
          | Inr (k, r1) \<Rightarrow>
              (case skip_ws r1 of
                 [] \<Rightarrow> Inl JsonSyntax
               | e # r2 \<Rightarrow>
                   if e \<noteq> CHR '':'' then Inl JsonSyntax
                   else (case pv n r2 of
                     Inl err \<Rightarrow> Inl err
                   | Inr (v, r3) \<Rightarrow>
                       (case skip_ws r3 of
                          [] \<Rightarrow> Inl JsonSyntax
                        | f # r4 \<Rightarrow>
                            if f = CHR '','' then pmembers n (AList.update k v acc) r4
                            else if f = CHR ''}'' then Inr (Obj (AList.update k v acc), r4)
                            else Inl JsonSyntax)))))"

definition json_parse :: "string \<Rightarrow> json_fail + jsval" where
  "json_parse s =
     (case pv (2 * length s + 1) s of
        Inl e \<Rightarrow> Inl e
      | Inr (v, r) \<Rightarrow> if skip_ws r = [] then Inr v else Inl JsonSyntax)"

text \<open>
  The outcome of \<^verbatim>\<open>await req.json()\<close> on a body text, as the handler receives it: the
  value, or the \<^verbatim>\<open>SyntaxError\<close> message the runtime builds from the text (\<open>msg\<close>,
  whose wording is the engine's); \<open>None\<close> for a text outside the model.
\<close>

definition req_json :: "(string \<Rightarrow> string) \<Rightarrow> string \<Rightarrow> (string + jsval) option" where
  "req_json msg text =
     (case json_parse text of
        Inr v \<Rightarrow> Some (Inr v)
      | Inl JsonSyntax \<Rightarrow> Some (Inl (msg text))
      | Inl _ \<Rightarrow> None)"

text \<open>
  What may follow a number in a text for its digits to end there: nothing, or a
  character that cannot continue it.
\<close>

definition json_stop :: "string \<Rightarrow> bool" where
  "json_stop r \<longleftrightarrow>
     (case r of [] \<Rightarrow> True | c # _ \<Rightarrow> \<not> json_digit c \<and> c \<noteq> CHR ''.'' \<and> c \<noteq> CHR ''e'' \<and> c \<noteq> CHR ''E'')"

text \<open>
  Every object, at every depth, has distinct member names: true of every value
  \<^verbatim>\<open>JSON.parse\<close> returns, whose objects are built by adding members one at a time.
\<close>

fun keys_ok :: "jsval \<Rightarrow> bool"
and keys_ok_elems :: "jsval list \<Rightarrow> bool"
and keys_ok_members :: "(string \<times> jsval) list \<Rightarrow> bool" where
  "keys_ok Undefined = True"
| "keys_ok Null = True"
| "keys_ok (Bool b) = True"
| "keys_ok (Num n) = True"
| "keys_ok (Str s) = True"
| "keys_ok (Arr xs) = keys_ok_elems xs"
| "keys_ok (Obj kvs) = (distinct (map fst kvs) \<and> keys_ok_members kvs)"
| "keys_ok_elems [] = True"
| "keys_ok_elems (x # xs) = (keys_ok x \<and> keys_ok_elems xs)"
| "keys_ok_members [] = True"
| "keys_ok_members ((k, x) # kvs) = (keys_ok x \<and> keys_ok_members kvs)"

subsection \<open>Lemmas: what each reader consumes\<close>

lemma skip_ws_Cons: "skip_ws (c # s) = (if json_ws c then skip_ws s else c # s)"
  by (simp add: skip_ws_def)

lemma skip_ws_length: "length (skip_ws s) \<le> length s"
  by (simp add: skip_ws_def length_dropWhile_le)

lemma skip_ws_ConsD: "skip_ws s = c # r \<Longrightarrow> length r < length s"
  using skip_ws_length [of s] by simp

lemma drop_length_le: "length (drop k xs) \<le> length xs"
  by simp

lemma drop_ConsD: "drop k xs = y # ys \<Longrightarrow> length ys < length xs"
  using drop_length_le [of k xs] by simp

lemma json_digitD: "json_digit c \<Longrightarrow> digit_val 10 c = None \<Longrightarrow> False"
  by (simp add: json_digit_def)

lemma pstr_rest: "pstr acc s = Inr (x, r) \<Longrightarrow> length r < length s"
proof (induction acc s rule: pstr.induct)
  case (2 acc c s)
  show ?case
  proof (cases "c = CHR 0x22")
    case True
    then show ?thesis using "2.prems" by simp
  next
    case q: False
    show ?thesis
    proof (cases "c = CHR 0x5C")
      case b: True
      obtain e s' where s: "s = e # s'" using "2.prems" q b by (cases s) auto
      show ?thesis
      proof (cases "e = CHR ''u''")
        case u: True
        obtain n where h: "hex4 s' = Some n" "n < 256" "pstr (acc @ [char_of n]) (drop 4 s') = Inr (x, r)"
          using "2.prems" q b s u by (auto split: option.split_asm if_split_asm)
        then show ?thesis using "2.IH"(1) [OF q b s u h] s by simp
      next
        case u: False
        obtain d where h: "json_unescape e = Some d" "pstr (acc @ [d]) s' = Inr (x, r)"
          using "2.prems" q b s u by (auto split: option.split_asm)
        then show ?thesis using "2.IH"(2) [OF q b s u h] s by simp
      qed
    next
      case b: False
      then show ?thesis using "2.prems" q "2.IH"(3) [OF q b] by (auto split: if_split_asm)
    qed
  qed
qed simp

lemma pnum_rest:
  assumes "pnum s = Inr (v, r)"
  shows "length r < length s"
proof -
  obtain neg s1 where ns: "num_sign s = (neg, s1)" by fastforce
  have s1: "length s1 \<le> length s" using ns by (auto simp: num_sign_def split: list.splits if_splits)
  have ds: "length (num_digits s1) \<le> length s1" by (auto simp: num_digits_def length_takeWhile_le split: list.split)
  have "num_digits s1 \<noteq> [] \<and> r = drop (length (num_digits s1)) s1"
    using assms by (simp add: pnum_def ns Let_def split: if_splits option.splits)
  then show ?thesis using s1 ds by (cases "num_digits s1") auto
qed

lemma plit_rest: "plit w x s = Inr (v, r) \<Longrightarrow> length r \<le> length s"
  by (auto simp: plit_def split: if_splits)

lemma pscalar_rest: "pscalar c s = Inr (v, r) \<Longrightarrow> length r \<le> length s"
  by (auto simp: pscalar_def split: if_splits sum.splits prod.splits dest: pstr_rest pnum_rest plit_rest)

lemma pv_rest:
  "pv n s = Inr (v, r) \<Longrightarrow> length r < length s"
  "pelems n acc s = Inr (v, r) \<Longrightarrow> length r < length s"
  "pmembers n kvs s = Inr (v, r) \<Longrightarrow> length r < length s"
proof (induction n s and n acc s and n kvs s arbitrary: v r and v r and v r rule: pv_pelems_pmembers.induct)
  case (2 n s)
  obtain c r0 where sw: "skip_ws s = c # r0" using "2.prems" by (cases "skip_ws s") auto
  have r0: "length r0 < length s" using skip_ws_ConsD [OF sw] .
  show ?case
  proof (cases "c = CHR ''['' \<or> c = CHR ''{''")
    case True
    obtain d r' where sw2: "skip_ws r0 = d # r'" using "2.prems" sw True by (cases "skip_ws r0") auto
    show ?thesis
    proof (cases "d = CHR '']'' \<and> c = CHR ''['' \<or> d = CHR ''}'' \<and> c = CHR ''{''")
      case True
      then show ?thesis using "2.prems" sw sw2 r0 skip_ws_ConsD [OF sw2] by auto
    next
      case False
      then show ?thesis using "2.prems" sw sw2 r0 True "2.IH"(1) [OF sw _ sw2] "2.IH"(2) [OF sw _ _ sw2]
        by (auto split: if_splits)
    qed
  next
    case False
    then show ?thesis using "2.prems" sw r0 pscalar_rest [of c r0 v r] by simp
  qed
next
  case (4 n acc s)
  obtain x r1 where p: "pv n s = Inr (x, r1)" using "4.prems" by (cases "pv n s") auto
  obtain d r' where sw: "skip_ws r1 = d # r'" using "4.prems" p by (cases "skip_ws r1") auto
  have "length r1 < length s" using "4.IH"(1) p by blast
  then show ?case using "4.prems" p sw "4.IH"(2) [OF p refl sw] skip_ws_ConsD [OF sw] by (auto split: if_splits)
next
  case (6 n acc s)
  obtain d r0 where sw: "skip_ws s = d # r0" and d: "\<not> d \<noteq> CHR 0x22"
    using "6.prems" by (cases "skip_ws s") (auto split: if_splits)
  obtain k r1 where ps: "pstr [] r0 = Inr (k, r1)" using "6.prems" sw d by (cases "pstr [] r0") auto
  obtain e r2 where sw1: "skip_ws r1 = e # r2" and e: "\<not> e \<noteq> CHR '':''"
    using "6.prems" sw d ps by (cases "skip_ws r1") (auto split: if_splits)
  obtain x r3 where p: "pv n r2 = Inr (x, r3)" using "6.prems" sw d ps sw1 e by (cases "pv n r2") auto
  obtain f r4 where sw3: "skip_ws r3 = f # r4" using "6.prems" sw d ps sw1 e p by (cases "skip_ws r3") auto
  have "length r4 < length s"
    using skip_ws_ConsD [OF sw] pstr_rest [OF ps] skip_ws_ConsD [OF sw1] "6.IH"(1) [OF sw d ps refl sw1 e p]
      skip_ws_ConsD [OF sw3] by simp
  then show ?case
    using "6.prems" sw d ps sw1 e p sw3 "6.IH"(2) [OF sw d ps refl sw1 e p refl sw3] by (auto split: if_splits)
qed simp_all

lemma pstr_not_fuel: "pstr acc s \<noteq> Inl JsonFuel"
  by (induction acc s rule: pstr.induct) (auto split: list.split option.split)

lemma pscalar_not_fuel: "pscalar c r \<noteq> Inl JsonFuel"
  using pstr_not_fuel [of "[]" r]
  by (auto simp: pscalar_def plit_def pnum_def Let_def split: sum.split prod.split option.split)

lemma pv_fuel:
  "2 * length s < n \<Longrightarrow> pv n s \<noteq> Inl JsonFuel"
  "2 * length s + 1 < n \<Longrightarrow> pelems n acc s \<noteq> Inl JsonFuel"
  "2 * length s + 1 < n \<Longrightarrow> pmembers n kvs s \<noteq> Inl JsonFuel"
proof (induction n s and n acc s and n kvs s rule: pv_pelems_pmembers.induct)
  case (2 n s)
  show ?case
  proof (cases "skip_ws s")
    case Nil
    then show ?thesis by simp
  next
    case sw: (Cons c r0)
    have r0: "length r0 < length s" using skip_ws_ConsD [OF sw] .
    show ?thesis
    proof (cases "c = CHR ''['' \<or> c = CHR ''{''")
      case False
      then show ?thesis using sw pscalar_not_fuel by simp
    next
      case True
      show ?thesis
      proof (cases "skip_ws r0")
        case Nil
        then show ?thesis using sw True by auto
      next
        case sw2: (Cons d r')
        have "2 * length r0 + 1 < n" using "2.prems" r0 by simp
        then show ?thesis using sw sw2 True "2.IH"(1) [OF sw _ sw2] "2.IH"(2) [OF sw _ _ sw2] by auto
      qed
    qed
  qed
next
  case (4 n acc s)
  show ?case
  proof (cases "pv n s")
    case (Inl e)
    then show ?thesis using "4.IH"(1) "4.prems" by auto
  next
    case (Inr q)
    obtain x r where p: "pv n s = Inr (x, r)" using Inr by (cases q) auto
    have r: "length r < length s" using pv_rest(1) [OF p] .
    show ?thesis
    proof (cases "skip_ws r")
      case Nil
      then show ?thesis using p by simp
    next
      case sw: (Cons d r')
      have "2 * length r' + 1 < n" using "4.prems" r skip_ws_ConsD [OF sw] by simp
      then show ?thesis using p sw "4.IH"(2) [OF p refl sw] by auto
    qed
  qed
next
  case (6 n acc s)
  show ?case
  proof (cases "\<exists>r0 k r1 r2. skip_ws s = CHR 0x22 # r0 \<and> pstr [] r0 = Inr (k, r1) \<and> skip_ws r1 = CHR '':'' # r2")
    case False
    then show ?thesis using pstr_not_fuel
      by (auto split: list.split if_split sum.split prod.split)
  next
    case True
    then obtain r0 k r1 r2 where sw: "skip_ws s = CHR 0x22 # r0" and ps: "pstr [] r0 = Inr (k, r1)"
      and sw1: "skip_ws r1 = CHR '':'' # r2" by blast
    have r2: "length r2 + 2 < length s"
      using skip_ws_ConsD [OF sw] pstr_rest [OF ps] skip_ws_ConsD [OF sw1] by simp
    show ?thesis
    proof (cases "pv n r2")
      case (Inl e)
      then show ?thesis using sw ps sw1 "6.IH"(1) [OF sw _ ps refl sw1] "6.prems" r2 by auto
    next
      case (Inr q)
      obtain x r3 where p: "pv n r2 = Inr (x, r3)" using Inr by (cases q) auto
      have r3: "length r3 < length r2" using pv_rest(1) [OF p] .
      show ?thesis
      proof (cases "skip_ws r3")
        case Nil
        then show ?thesis using sw ps sw1 p by simp
      next
        case sw3: (Cons f r4)
        have "2 * length r4 + 1 < n" using "6.prems" r2 r3 skip_ws_ConsD [OF sw3] by simp
        then show ?thesis using sw ps sw1 p sw3 "6.IH"(2) [OF sw _ ps refl sw1 _ p refl sw3] by auto
      qed
    qed
  qed
qed simp_all

subsection \<open>Lemmas: reading back what \<^verbatim>\<open>JSON.stringify\<close> prints\<close>

lemma json_digit_digit_char: "d < 10 \<Longrightarrow> json_digit (digit_char d)"
  by (simp add: json_digit_def digit_val_digit_char)

lemma nat_to_str_json_digit: "x \<in> set (nat_to_str k) \<Longrightarrow> json_digit x"
proof -
  assume "x \<in> set (nat_to_str k)"
  then obtain d where "d < 10" "x = digit_char d" using nat_to_str_digits [of k] by blast
  then show ?thesis using json_digit_digit_char by simp
qed

lemma takeWhile_stop: "json_stop rest \<Longrightarrow> takeWhile json_digit rest = []"
  by (cases rest) (simp_all add: json_stop_def)

lemma takeWhile_nat_to_str: "json_stop rest \<Longrightarrow> takeWhile json_digit (nat_to_str k @ rest) = nat_to_str k"
  using takeWhile_append2 [of "nat_to_str k" json_digit rest] nat_to_str_json_digit takeWhile_stop [of rest] by simp

lemma nat_to_str_hd_zero: "nat_to_str k = CHR ''0'' # t \<Longrightarrow> k = 0 \<and> t = []"
proof (induction k arbitrary: t rule: nat_to_str.induct)
  case (1 k)
  show ?case
  proof (cases "k < 10")
    case True
    then have "digit_char k = CHR ''0''" using "1.prems" by (subst (asm) nat_to_str.simps) simp
    then have "of_char (digit_char k) = (48::nat)" by simp
    then show ?thesis using True "1.prems" by (subst (asm) nat_to_str.simps) (simp add: of_char_digit_char)
  next
    case False
    obtain t' where "nat_to_str (k div 10) = CHR ''0'' # t'"
      using "1.prems" False nat_to_str_nonempty [of "k div 10"]
      by (subst (asm) nat_to_str.simps) (cases "nat_to_str (k div 10)"; simp)
    then have "k div 10 = 0" using "1.IH" [OF False] by blast
    moreover have "k = k div 10 * 10 + k mod 10" by simp
    moreover have "k mod 10 < 10" by simp
    ultimately show ?thesis using False by linarith
  qed
qed


lemma num_digits_nat_to_str: "json_stop rest \<Longrightarrow> num_digits (nat_to_str k @ rest) = nat_to_str k"
proof -
  assume r: "json_stop rest"
  obtain c t where ct: "nat_to_str k = c # t" using nat_to_str_nonempty [of k] by (cases "nat_to_str k") auto
  show ?thesis
  proof (cases "c = CHR ''0''")
    case True
    then show ?thesis using nat_to_str_hd_zero [of k t] ct by (simp add: num_digits_def)
  next
    case False
    then show ?thesis using takeWhile_nat_to_str [OF r, of k] ct by (simp add: num_digits_def)
  qed
qed

lemma num_sign_nat_to_str: "num_sign (nat_to_str k @ rest) = (False, nat_to_str k @ rest)"
proof -
  obtain c t where ct: "nat_to_str k = c # t" using nat_to_str_nonempty [of k] by (cases "nat_to_str k") auto
  have "c \<in> set (nat_to_str k)" using ct by simp
  then obtain d where "d < 10" "c = digit_char d" using nat_to_str_digits [of k] by blast
  then have "c \<noteq> CHR ''-''" using digit_char_not_sign [of d] by simp
  then show ?thesis using ct by (simp add: num_sign_def)
qed

lemma num_more_stop: "json_stop rest \<Longrightarrow> \<not> num_more rest"
  by (cases rest) (simp_all add: json_stop_def num_more_def)

lemma pnum_digits:
  assumes "num_sign s = (neg, ds @ rest)" "num_digits (ds @ rest) = ds" "ds \<noteq> []" "\<not> num_more rest"
  shows "pnum s = Inr (Num ((if neg then -1 else 1) * int (digits_value 10 (List.map_filter (digit_val 10) ds))), rest)"
  using assms by (simp add: pnum_def Let_def)

lemma pnum_int_to_str: "json_stop rest \<Longrightarrow> pnum (int_to_str n @ rest) = Inr (Num n, rest)"
proof -
  assume r: "json_stop rest"
  show ?thesis
  proof (cases "n < 0")
    case True
    have "num_sign (int_to_str n @ rest) = (True, nat_to_str (nat (- n)) @ rest)"
      using True by (simp add: int_to_str_def num_sign_def)
    from pnum_digits [OF this num_digits_nat_to_str [OF r] nat_to_str_nonempty num_more_stop [OF r]]
    show ?thesis using True by (simp add: nat_to_str_value)
  next
    case False
    have "num_sign (int_to_str n @ rest) = (False, nat_to_str (nat n) @ rest)"
      using False num_sign_nat_to_str by (simp add: int_to_str_def)
    from pnum_digits [OF this num_digits_nat_to_str [OF r] nat_to_str_nonempty num_more_stop [OF r]]
    show ?thesis using False by (simp add: nat_to_str_value)
  qed
qed

lemma of_char_hex_digit: "d < 16 \<Longrightarrow> of_char (hex_digit d) = (if d < 10 then 48 + d else 87 + d)"
  by (simp add: hex_digit_def)

lemma digit_val_hex_digit: "d < 16 \<Longrightarrow> digit_val 16 (hex_digit d) = Some d"
  by (simp add: digit_val_def of_char_hex_digit)

lemma hex4_escape:
  assumes "n < 32"
  shows "hex4 (CHR ''0'' # CHR ''0'' # hex_digit (n div 16) # hex_digit (n mod 16) # t) = Some n"
proof -
  have d: "digit_val 16 (hex_digit (n div 16)) = Some (n div 16)" "digit_val 16 (hex_digit (n mod 16)) = Some (n mod 16)"
    using assms by (simp_all add: digit_val_hex_digit)
  have z: "digit_val 16 (CHR ''0'') = Some 0" by (simp add: digit_val_def)
  show ?thesis
    using d z by (simp add: hex4_def List.map_filter_def digits_value_def)
qed

lemma pstr_escape_char: "pstr acc (json_escape c @ t) = pstr (acc @ [c]) t"
proof -
  consider (q) "c = CHR 0x22" | (b) "c = CHR 0x5C" | (n) "c \<in> {CHR 0x08, CHR 0x09, CHR 0x0A, CHR 0x0C, CHR 0x0D}"
    | (u) "c \<noteq> CHR 0x22" "c \<noteq> CHR 0x5C" "c \<notin> {CHR 0x08, CHR 0x09, CHR 0x0A, CHR 0x0C, CHR 0x0D}" "of_char c < (32::nat)"
    | (p) "c \<noteq> CHR 0x22" "c \<noteq> CHR 0x5C" "c \<notin> {CHR 0x08, CHR 0x09, CHR 0x0A, CHR 0x0C, CHR 0x0D}" "\<not> of_char c < (32::nat)"
    by blast
  then show ?thesis
  proof cases
    case q
    then show ?thesis by (simp add: json_escape_def json_unescape_def)
  next
    case b
    then show ?thesis by (simp add: json_escape_def json_unescape_def)
  next
    case n
    then show ?thesis by (auto simp: json_escape_def json_unescape_def)
  next
    case u
    have e: "json_escape c = [CHR 0x5C, CHR ''u'', CHR ''0'', CHR ''0'', hex_digit (of_char c div 16), hex_digit (of_char c mod 16)]"
      using u by (auto simp: json_escape_def)
    show ?thesis using hex4_escape [OF u(4), of t] u(4) by (simp add: e)
  next
    case p
    then have "json_escape c = [c]" by (auto simp: json_escape_def)
    then show ?thesis using p by simp
  qed
qed

lemma pstr_quoted: "pstr acc (concat (map json_escape s) @ CHR 0x22 # rest) = Inr (acc @ s, rest)"
  by (induction s arbitrary: acc) (simp_all add: pstr_escape_char)

lemma digit_char_set: "d < 10 \<Longrightarrow> digit_char d \<in> set ''0123456789''"
proof -
  assume "d < 10"
  then have "d \<in> {0, 1, 2, 3, 4, 5, 6, 7, 8, 9}" by auto
  then show ?thesis by auto
qed

lemma nat_to_str_first: "\<exists>c t. nat_to_str k = c # t \<and> c \<in> set ''0123456789''"
proof -
  obtain c t where ct: "nat_to_str k = c # t" using nat_to_str_nonempty [of k] by (cases "nat_to_str k") auto
  have "c \<in> set (nat_to_str k)" using ct by simp
  then obtain d where "d < 10" "c = digit_char d" using nat_to_str_digits [of k] by blast
  then show ?thesis using ct digit_char_set by blast
qed

lemma json_text_first: "\<exists>c t. json_text v = c # t \<and> c \<in> set ''nft-0123456789\"[{''"
proof (cases v)
  case (Num i)
  obtain c t where "nat_to_str (nat \<bar>i\<bar>) = c # t" "c \<in> set ''0123456789''" using nat_to_str_first by blast
  then show ?thesis using Num by (auto simp: int_to_str_def)
next
  case (Str s)
  then show ?thesis by (simp add: json_quote_def)
qed auto

lemma json_members_Nil_iff: "json_members kvs = [] \<longleftrightarrow> wire_members kvs = []"
  by (induction kvs) (auto split: if_splits)

lemma update_new: "k \<notin> set (map fst acc) \<Longrightarrow> AList.update k v acc = acc @ [(k, v)]"
  by (induction acc) auto

lemma first_not_ws: "c \<in> set ''nft-0123456789\"[{'' \<Longrightarrow> \<not> json_ws c \<and> c \<noteq> CHR '']'' \<and> c \<noteq> CHR ''}''"
  by (auto simp: json_ws_def)

lemma join_elems_first: "xs \<noteq> [] \<Longrightarrow> \<exists>c t. join_comma (json_elems xs) = c # t \<and> c \<in> set ''nft-0123456789\"[{''"
proof -
  assume "xs \<noteq> []"
  then obtain x ys where xs: "xs = x # ys" by (cases xs) auto
  obtain c t where "json_text x = c # t" "c \<in> set ''nft-0123456789\"[{''" using json_text_first by blast
  then show ?thesis using xs by (cases ys) auto
qed

lemma int_to_str_first: "\<exists>c t. int_to_str i = c # t \<and> (c = CHR ''-'' \<or> (\<exists>d<10. c = digit_char d))"
proof -
  obtain c t where ct: "nat_to_str (nat \<bar>i\<bar>) = c # t" using nat_to_str_nonempty by (cases "nat_to_str (nat \<bar>i\<bar>)") auto
  have "c \<in> set (nat_to_str (nat \<bar>i\<bar>))" using ct by simp
  then obtain d where "d < 10" "c = digit_char d" using nat_to_str_digits by blast
  then show ?thesis using ct by (auto simp: int_to_str_def)
qed

lemma pscalar_num: "c = CHR ''-'' \<or> (\<exists>d<10. c = digit_char d) \<Longrightarrow> pscalar c r = pnum (c # r)"
proof (cases "c = CHR ''-''")
  case True
  then show ?thesis by (simp add: pscalar_def)
next
  case False
  assume "c = CHR ''-'' \<or> (\<exists>d<10. c = digit_char d)"
  then obtain d where d: "d < 10" "c = digit_char d" using False by blast
  then have "c \<in> set ''0123456789''" "json_digit c" using digit_char_set json_digit_digit_char by simp_all
  then show ?thesis by (auto simp: pscalar_def)
qed

lemma json_members_first: "json_members kvs = m # ms \<Longrightarrow> \<exists>t. m = CHR 0x22 # t"
proof (induction kvs arbitrary: m ms)
  case (Cons a kvs)
  obtain k v where "a = (k, v)" by fastforce
  then show ?case using Cons by (auto simp: json_quote_def split: if_splits)
qed simp

lemma json_stop_sep: "json_stop (CHR '','' # r)" "json_stop (CHR '']'' # r)" "json_stop (CHR ''}'' # r)"
  by (simp_all add: json_stop_def json_digit_def digit_val_def)

lemma skip_ws_sep: "skip_ws (CHR '','' # r) = CHR '','' # r" "skip_ws (CHR '']'' # r) = CHR '']'' # r"
  "skip_ws (CHR ''}'' # r) = CHR ''}'' # r" "skip_ws (CHR '':'' # r) = CHR '':'' # r"
  "skip_ws (CHR 0x22 # r) = CHR 0x22 # r" "skip_ws (CHR ''['' # r) = CHR ''['' # r" "skip_ws (CHR ''{'' # r) = CHR ''{'' # r"
  by (simp_all add: skip_ws_Cons json_ws_def)

lemma pv_json_text:
  "keys_ok (wire v) \<Longrightarrow> json_stop rest \<Longrightarrow> 2 * length (json_text v) < n \<Longrightarrow>
     pv n (json_text v @ rest) = Inr (wire v, rest)"
  "xs \<noteq> [] \<Longrightarrow> keys_ok_elems (wire_elems xs) \<Longrightarrow> 2 * length (join_comma (json_elems xs)) + 1 < n \<Longrightarrow>
     pelems n acc (join_comma (json_elems xs) @ CHR '']'' # rest) = Inr (Arr (acc @ wire_elems xs), rest)"
  "json_members kvs \<noteq> [] \<Longrightarrow> keys_ok_members (wire_members kvs) \<Longrightarrow>
     distinct (map fst ps @ map fst (wire_members kvs)) \<Longrightarrow> 2 * length (join_comma (json_members kvs)) + 1 < n \<Longrightarrow>
     pmembers n ps (join_comma (json_members kvs) @ CHR ''}'' # rest) = Inr (Obj (ps @ wire_members kvs), rest)"
proof (induction v and xs and kvs arbitrary: n rest and n acc rest and n ps rest
       rule: json_text_json_elems_json_members.induct)
  case 1
  then obtain m where "n = Suc m" by (cases n) auto
  then show ?case by (simp add: skip_ws_Cons json_ws_def pscalar_def plit_def)
next
  case 2
  then obtain m where "n = Suc m" by (cases n) auto
  then show ?case by (simp add: skip_ws_Cons json_ws_def pscalar_def plit_def)
next
  case (3 b)
  then obtain m where "n = Suc m" by (cases n) auto
  then show ?case by (cases b) (simp_all add: skip_ws_Cons json_ws_def pscalar_def plit_def)
next
  case (4 i)
  then obtain m where n: "n = Suc m" by (cases n) auto
  obtain c t where ct: "int_to_str i = c # t" "c = CHR ''-'' \<or> (\<exists>d<10. c = digit_char d)"
    using int_to_str_first by blast
  have "c \<in> set ''-0123456789''" using ct(2) digit_char_set by auto
  then have sw: "skip_ws (c # t @ rest) = c # t @ rest" "c \<noteq> CHR ''['' \<and> c \<noteq> CHR ''{''"
    by (auto simp: skip_ws_Cons json_ws_def)
  have "pv n (int_to_str i @ rest) = pnum (int_to_str i @ rest)"
    using n ct sw pscalar_num [OF ct(2)] by simp
  then show ?case using pnum_int_to_str [OF "4.prems"(2)] by simp
next
  case (5 s)
  then obtain m where n: "n = Suc m" by (cases n) auto
  show ?case using n pstr_quoted [of "[]" s rest] by (simp add: json_quote_def skip_ws_sep pscalar_def)
next
  case (6 xs)
  then obtain m where n: "n = Suc m" by (cases n) auto
  show ?case
  proof (cases "xs = []")
    case True
    then show ?thesis using n by (simp add: skip_ws_sep)
  next
    case False
    obtain c t where ct: "join_comma (json_elems xs) = c # t" "c \<in> set ''nft-0123456789\"[{''"
      using join_elems_first [OF False] by blast
    have c: "\<not> json_ws c" "c \<noteq> CHR '']''" using first_not_ws [OF ct(2)] by auto
    have sw: "skip_ws (c # t @ CHR '']'' # rest) = c # t @ CHR '']'' # rest" using c(1) by (simp add: skip_ws_Cons)
    have "pelems m [] (join_comma (json_elems xs) @ CHR '']'' # rest) = Inr (Arr ([] @ wire_elems xs), rest)"
      using "6.IH" [OF False] "6.prems" n by simp
    then show ?thesis using n ct(1) c(2) sw by (simp add: skip_ws_sep)
  qed
next
  case (7 kvs)
  then obtain m where n: "n = Suc m" by (cases n) auto
  show ?case
  proof (cases "json_members kvs = []")
    case True
    then show ?thesis using n json_members_Nil_iff [of kvs] by (simp add: skip_ws_sep)
  next
    case False
    obtain m0 ms where ms: "json_members kvs = m0 # ms" using False by (cases "json_members kvs") auto
    obtain t where t: "join_comma (json_members kvs) = CHR 0x22 # t"
      using json_members_first [OF ms] ms by (cases ms) auto
    have "pmembers m [] (join_comma (json_members kvs) @ CHR ''}'' # rest) = Inr (Obj ([] @ wire_members kvs), rest)"
      using "7.IH" [OF False] "7.prems" n by simp
    then show ?thesis using n t by (simp add: skip_ws_sep)
  qed
next
  case 8
  then show ?case by simp
next
  case (9 x xs)
  then obtain m where n: "n = Suc m" by (cases n) auto
  have kx: "keys_ok (wire x)" "keys_ok_elems (wire_elems xs)" using "9.prems"(2) by simp_all
  show ?case
  proof (cases "xs = []")
    case True
    have l: "2 * length (json_text x) < m" using "9.prems"(3) n True by simp
    have "pv m (json_text x @ CHR '']'' # rest) = Inr (wire x, CHR '']'' # rest)"
      using "9.IH"(1) [OF kx(1) json_stop_sep(2) l] .
    then show ?thesis using n True by (simp add: skip_ws_sep)
  next
    case False
    obtain y ys where e: "json_elems xs = y # ys" using False by (cases xs) auto
    have j: "join_comma (json_elems (x # xs)) = json_text x @ CHR '','' # join_comma (json_elems xs)"
      using e by simp
    have l: "2 * length (json_text x) < m" "2 * length (join_comma (json_elems xs)) + 1 < m"
      using "9.prems"(3) n j by simp_all
    have p: "pv m (json_text x @ CHR '','' # join_comma (json_elems xs) @ CHR '']'' # rest) =
        Inr (wire x, CHR '','' # join_comma (json_elems xs) @ CHR '']'' # rest)"
      using "9.IH"(1) [OF kx(1) json_stop_sep(1) l(1)] .
    have "pelems m (acc @ [wire x]) (join_comma (json_elems xs) @ CHR '']'' # rest) =
        Inr (Arr ((acc @ [wire x]) @ wire_elems xs), rest)"
      using "9.IH"(2) [OF False kx(2) l(2)] .
    then show ?thesis using n j p by (simp add: skip_ws_sep)
  qed
next
  case 10
  then show ?case by simp
next
  case (11 k v kvs)
  show ?case
  proof (cases "v = Undefined")
    case True
    then show ?thesis using "11.IH"(1) "11.prems" by simp
  next
    case False
    then obtain m where n: "n = Suc m" using "11.prems"(4) by (cases n) auto
    have kv: "keys_ok (wire v)" "keys_ok_members (wire_members kvs)" using "11.prems"(2) False by simp_all
    have d: "k \<notin> set (map fst ps)" "distinct (map fst (ps @ [(k, wire v)]) @ map fst (wire_members kvs))"
      using "11.prems"(3) False by auto
    have u: "AList.update k (wire v) ps = ps @ [(k, wire v)]" using update_new [OF d(1)] .
    define tail where "tail = (if json_members kvs = [] then CHR ''}'' # rest
                               else CHR '','' # join_comma (json_members kvs) @ CHR ''}'' # rest)"
    have tx: "join_comma (json_members ((k, v) # kvs)) @ CHR ''}'' # rest =
        CHR 0x22 # concat (map json_escape k) @ CHR 0x22 # CHR '':'' # json_text v @ tail"
      using False by (cases "json_members kvs") (simp_all add: tail_def json_quote_def)
    have l: "2 * length (json_text v) < m"
      using "11.prems"(4) n False by (cases "json_members kvs") (simp_all add: json_quote_def)
    have l2: "json_members kvs \<noteq> [] \<Longrightarrow> 2 * length (join_comma (json_members kvs)) + 1 < m"
      using "11.prems"(4) n False by (cases "json_members kvs") (simp_all add: json_quote_def)
    have stop: "json_stop tail" by (simp add: tail_def json_stop_sep)
    have p: "pv m (json_text v @ tail) = Inr (wire v, tail)" using "11.IH"(2) [OF False kv(1) stop l] .
    show ?thesis
    proof (cases "json_members kvs = []")
      case True
      then have "wire_members kvs = []" using json_members_Nil_iff by blast
      then show ?thesis using n tx p u True False pstr_quoted [of "[]" k] by (simp add: tail_def skip_ws_sep)
    next
      case ne: False
      have "pmembers m (ps @ [(k, wire v)]) (join_comma (json_members kvs) @ CHR ''}'' # rest) =
          Inr (Obj ((ps @ [(k, wire v)]) @ wire_members kvs), rest)"
        using "11.IH"(3) [OF False ne kv(2) d(2) l2 [OF ne]] .
      then show ?thesis using n tx p u ne False pstr_quoted [of "[]" k] by (simp add: tail_def skip_ws_sep)
    qed
  qed
qed

subsection \<open>Lemmas: what the reader returns\<close>

lemma keys_ok_elems_list_all: "keys_ok_elems xs = list_all keys_ok xs"
  by (induction xs) auto

lemma keys_ok_members_list_all: "keys_ok_members kvs = list_all (\<lambda>(k, x). keys_ok x) kvs"
proof (induction kvs)
  case (Cons a kvs)
  then show ?case by (cases a) simp
qed simp

lemma wire_elems_id: "list_all (\<lambda>x. wire x = x) xs \<Longrightarrow> wire_elems xs = xs"
  by (induction xs) auto

lemma wire_members_id: "list_all (\<lambda>(k, x). wire x = x) kvs \<Longrightarrow> wire_members kvs = kvs"
proof (induction kvs)
  case (Cons a kvs)
  obtain k x where a: "a = (k, x)" by fastforce
  have "x \<noteq> Undefined" using Cons.prems a by auto
  then show ?case using Cons a by simp
qed simp

lemma set_update_sub: "set (AList.update k v al) \<subseteq> insert (k, v) (set al)"
  by (induction al) auto

lemma list_all_update: "P (k, v) \<Longrightarrow> list_all P al \<Longrightarrow> list_all P (AList.update k v al)"
  using set_update_sub [of k v al] by (auto simp: list_all_iff)

lemma pnum_Num: "pnum s = Inr (v, r) \<Longrightarrow> \<exists>i. v = Num i"
proof -
  assume a: "pnum s = Inr (v, r)"
  obtain neg s1 where ns: "num_sign s = (neg, s1)" by fastforce
  show ?thesis using a by (auto simp: pnum_def ns Let_def split: if_split_asm option.split_asm)
qed

lemma pscalar_plain: "pscalar c r = Inr (v, r') \<Longrightarrow> keys_ok v \<and> wire v = v"
  by (auto simp: pscalar_def plit_def split: if_split_asm sum.split_asm prod.split_asm dest!: pnum_Num)

lemma pv_plain:
  "pv n s = Inr (v, r) \<Longrightarrow> keys_ok v \<and> wire v = v"
  "pelems n acc s = Inr (v, r) \<Longrightarrow> list_all keys_ok acc \<Longrightarrow> list_all (\<lambda>x. wire x = x) acc \<Longrightarrow>
     keys_ok v \<and> wire v = v"
  "pmembers n kvs s = Inr (v, r) \<Longrightarrow> distinct (map fst kvs) \<Longrightarrow> list_all (\<lambda>(k, x). keys_ok x \<and> wire x = x) kvs \<Longrightarrow>
     keys_ok v \<and> wire v = v"
proof (induction n s and n acc s and n kvs s arbitrary: v r and v r and v r rule: pv_pelems_pmembers.induct)
  case (2 n s)
  obtain c r0 where sw: "skip_ws s = c # r0" using "2.prems" by (cases "skip_ws s") auto
  show ?case
  proof (cases "c = CHR ''['' \<or> c = CHR ''{''")
    case True
    obtain d r' where sw2: "skip_ws r0 = d # r'" using "2.prems" sw True by (cases "skip_ws r0") auto
    show ?thesis
      using "2.prems" sw sw2 True "2.IH"(1) [OF sw _ sw2] "2.IH"(2) [OF sw _ _ sw2] by (auto split: if_splits)
  next
    case False
    then show ?thesis using "2.prems" sw pscalar_plain [of c r0 v r] by simp
  qed
next
  case (4 n acc s)
  obtain x r1 where p: "pv n s = Inr (x, r1)" using "4.prems" by (cases "pv n s") auto
  obtain d r' where sw: "skip_ws r1 = d # r'" using "4.prems" p by (cases "skip_ws r1") auto
  have x: "keys_ok x" "wire x = x" using "4.IH"(1) [OF p] by auto
  have acc: "list_all keys_ok (acc @ [x])" "list_all (\<lambda>x. wire x = x) (acc @ [x])" using "4.prems"(2,3) x by auto
  show ?case
    using "4.prems"(1) p sw "4.IH"(2) [OF p refl sw _ _ acc] acc wire_elems_id [OF acc(2)]
    by (auto simp: keys_ok_elems_list_all split: if_splits)
next
  case (6 n kvs s)
  show ?case
  proof (cases "\<exists>r0 k r1 r2. skip_ws s = CHR 0x22 # r0 \<and> pstr [] r0 = Inr (k, r1) \<and> skip_ws r1 = CHR '':'' # r2")
    case False
    then show ?thesis using "6.prems"(1) by (auto split: list.splits if_splits sum.splits prod.splits)
  next
    case True
    then obtain r0 k r1 r2 where sw: "skip_ws s = CHR 0x22 # r0" and ps: "pstr [] r0 = Inr (k, r1)"
      and sw1: "skip_ws r1 = CHR '':'' # r2" by blast
    obtain x r3 where p: "pv n r2 = Inr (x, r3)" using "6.prems"(1) sw ps sw1 by (cases "pv n r2") auto
    obtain f r4 where sw3: "skip_ws r3 = f # r4" using "6.prems"(1) sw ps sw1 p by (cases "skip_ws r3") auto
    have x: "keys_ok x \<and> wire x = x" using "6.IH"(1) [OF sw _ ps refl sw1 _ p] by simp
    have kv: "distinct (map fst (AList.update k x kvs))"
      "list_all (\<lambda>(k, x). keys_ok x \<and> wire x = x) (AList.update k x kvs)"
      using "6.prems"(2,3) x by (simp_all add: AList.distinct_update list_all_update)
    have o: "keys_ok (Obj (AList.update k x kvs)) \<and> wire (Obj (AList.update k x kvs)) = Obj (AList.update k x kvs)"
      using kv wire_members_id [of "AList.update k x kvs"]
      by (simp add: keys_ok_members_list_all list_all_iff split_def)
    show ?thesis
      using "6.prems"(1) sw ps sw1 p sw3 "6.IH"(2) [OF sw _ ps refl sw1 _ p refl sw3 _ _ kv] o by (auto split: if_splits)
  qed
qed simp_all

lemma json_parse_plain: "json_parse s = Inr v \<Longrightarrow> keys_ok v \<and> wire v = v"
proof -
  assume "json_parse s = Inr v"
  then obtain r where pr: "pv (2 * length s + 1) s = Inr (v, r)"
    by (auto simp: json_parse_def simp del: pv.simps split: sum.splits prod.splits if_splits)
  show ?thesis using pv_plain(1) [OF pr] .
qed

lemma wire_members_length: "length (wire_members kvs) \<le> length kvs"
proof (induction kvs)
  case (Cons a kvs)
  then show ?case by (cases a) auto
qed simp

lemma wire_members_fixed: "wire_members kvs = kvs \<Longrightarrow> (k, x) \<in> set kvs \<Longrightarrow> wire x = x \<and> x \<noteq> Undefined"
proof (induction kvs)
  case (Cons a kvs)
  obtain k' y where a: "a = (k', y)" by fastforce
  show ?case
  proof (cases "y = Undefined")
    case True
    then show ?thesis using Cons.prems(1) a wire_members_length [of kvs] by (auto dest: arg_cong [where f = length])
  next
    case False
    then show ?thesis using Cons a by auto
  qed
qed simp

lemma member_plain:
  "keys_ok v \<Longrightarrow> wire v = v \<Longrightarrow> member v k = Undefined \<or> (keys_ok (member v k) \<and> wire (member v k) = member v k)"
proof (cases v)
  case (Obj kvs)
  assume k: "keys_ok v" and w: "wire v = v"
  show ?thesis
  proof (cases "map_of kvs k")
    case (Some x)
    then have x: "(k, x) \<in> set kvs" by (rule map_of_SomeD)
    have "keys_ok_members kvs" "wire_members kvs = kvs" using k w Obj by simp_all
    then show ?thesis using x Some Obj wire_members_fixed [of kvs k x]
      by (auto simp: member_def keys_ok_members_list_all list_all_iff)
  qed (simp add: member_def Obj)
qed (simp_all add: member_def)

subsection \<open>Properties\<close>

subsection \<open>Lemmas: round trips and totality\<close>

text \<open>
  Round trip: \<^verbatim>\<open>JSON.parse(JSON.stringify(v))\<close> is the value a receiver reads,
  \<open>wire v\<close> (members with value \<^verbatim>\<open>undefined\<close> dropped, \<^verbatim>\<open>undefined\<close> elements
  \<^verbatim>\<open>null\<close>), for every value whose objects have distinct member names; strings with
  any characters, control characters included, come back unchanged.
\<close>

lemma json_parse_json_text:
  "keys_ok (wire v) \<Longrightarrow> json_parse (json_text v) = Inr (wire v)"
  using pv_json_text(1) [of v "[]" "2 * length (json_text v) + 1"]
  by (simp add: json_parse_def json_stop_def skip_ws_def)

text \<open>
  Termination: the fuel \<open>json_parse\<close> gives its reader is always enough, so on
  every text \<^verbatim>\<open>await req.json()\<close> yields a value or a \<^verbatim>\<open>SyntaxError\<close>, except on
  the texts outside the model.
\<close>

lemma req_json_total:
  "json_parse s \<noteq> Inl JsonFuel \<and> (req_json msg s = None \<longleftrightarrow> json_parse s = Inl JsonOutside)"
proof -
  have "json_parse s \<noteq> Inl JsonFuel"
    using pv_fuel(1) [of s "2 * length s + 1"] by (auto simp: json_parse_def split: sum.split prod.split)
  then show ?thesis by (auto simp: req_json_def split: sum.split json_fail.split)
qed

text \<open>
  Round trip from the text side: a value read from a text is a plain JSON value
  with distinct member names, and printing it and reading the print gives it back.
\<close>

lemma json_parse_reparse:
  assumes "json_parse s = Inr v"
  shows "keys_ok v \<and> json_parse (json_text v) = Inr v"
proof -
  have p: "keys_ok v" "wire v = v" using json_parse_plain [OF assms] by simp_all
  have "pv (2 * length (json_text v) + 1) (json_text v @ []) = Inr (wire v, [])"
    using pv_json_text(1) [of v "[]" "2 * length (json_text v) + 1"] p by (simp add: json_stop_def del: pv.simps)
  then show ?thesis using p by (simp add: json_parse_def skip_ws_def)
qed

end
