(* ===== verification/Scenarios.thy ===== *)
theory Scenarios
  imports Concurrency JsonText
begin

text \<open>
  Concrete inputs for the witnesses of the root theory: the environment and request of
  the end-to-end example of the specification (section 8), project metadata as GitHub's
  GraphQL endpoint returns it, with and without the Status field and the Icebox option,
  and a mocked GitHub that answers each kind of call with a fixed reply. The mock is a
  test double in the sense of the specification's ``mocked upstream''. The second group
  are worlds of the GitHub model: a fresh repository whose project has a Status field
  with an Icebox option, the same project without the Icebox option, and a project whose
  Status field comes after 20 other fields. The last group are the states after one and
  two invocations on the fresh repository, and two invocations in flight, after the first has
  answered and after both have. Last, the request body of the local invocation example
  at the end of \<^verbatim>\<open>index.ts\<close> (the \<^verbatim>\<open>--data\<close> of its \<^verbatim>\<open>curl\<close> command) and
  the value \<^verbatim>\<open>JSON.parse\<close> reads from it.
\<close>

definition env0 :: env where
  "env0 = [''GITHUB_TOKEN'' \<mapsto> ''tok'', ''GITHUB_OWNER'' \<mapsto> ''o'', ''GITHUB_REPO'' \<mapsto> ''r'']"

definition cfg0 :: config where
  "cfg0 = \<lparr>github_token = ''tok'', github_owner = ''o'', github_repo = ''r'', project_number = 1\<rparr>"

definition raw0 :: "string + jsval" where
  "raw0 = Inr (Obj [(''title'', Str ''Bug X''), (''body'', Str ''repro steps''), (''labels'', Arr [Str ''bug''])])"

definition rq0 :: issue_request where
  "rq0 = \<lparr>rq_title = Str ''Bug X'', rq_body = Str ''repro steps'', rq_labels = Arr [Str ''bug'']\<rparr>"

definition s0 :: "unit hstate" where
  "s0 = \<lparr>world = (), sent = []\<rparr>"

definition issue42 :: jsval where
  "issue42 = Obj [(''node_id'', Str ''I_42''), (''html_url'', Str ''https://github.com/o/r/issues/42''), (''number'', Num 42)]"

definition status_field :: jsval where
  "status_field = Obj [(''id'', Str ''F_S''), (''name'', Str ''Status''),
     (''options'', Arr [Obj [(''id'', Str ''O_T''), (''name'', Str ''Todo'')],
                        Obj [(''id'', Str ''O_I''), (''name'', Str ''Icebox'')]])]"

definition icebox_option :: jsval where
  "icebox_option = Obj [(''id'', Str ''O_I''), (''name'', Str ''Icebox'')]"

text \<open>A project's fields: the inline fragment leaves a field of another type an empty object.\<close>

definition project_json :: "jsval list \<Rightarrow> jsval" where
  "project_json nodes =
     Obj [(''data'', Obj [(''organization'', Obj [(''projectV2'', Obj [(''id'', Str ''PVT_1''),
       (''fields'', Obj [(''nodes'', Arr nodes)])])])])]"

definition pd_ok :: jsval where
  "pd_ok = project_json [Obj [], status_field]"

definition pd_no_status :: jsval where
  "pd_no_status = project_json [Obj [], Obj [(''id'', Str ''F_P''), (''name'', Str ''Priority''), (''options'', Arr [])]]"

definition pd_no_icebox :: jsval where
  "pd_no_icebox = project_json [Obj [(''id'', Str ''F_S''), (''name'', Str ''Status''),
     (''options'', Arr [Obj [(''id'', Str ''O_T''), (''name'', Str ''Todo'')]])]]"

definition item_json :: jsval where
  "item_json = Obj [(''data'', Obj [(''addProjectV2ItemById'', Obj [(''item'', Obj [(''id'', Str ''PVTI_7'')])])])]"

text \<open>A GraphQL failure: \<^verbatim>\<open>data\<close> is \<^verbatim>\<open>null\<close> and the errors are listed.\<close>

definition graphql_error :: jsval where
  "graphql_error = Obj [(''data'', Null), (''errors'', Arr [Obj [(''message'', Str ''denied'')]])]"

definition mock :: "fetch_res \<Rightarrow> jsval \<Rightarrow> jsval \<Rightarrow> fetch_res \<Rightarrow> unit upstream" where
  "mock create pd add upd w r =
     (case call_kind r of
        CreateIssueCall \<Rightarrow> (create, w)
      | ProjectQueryCall \<Rightarrow> (Reply 200 (Inr pd), w)
      | AddItemCall \<Rightarrow> (Reply 200 (Inr add), w)
      | UpdateFieldCall \<Rightarrow> (upd, w)
      | OtherCall \<Rightarrow> (Reply 404 (Inr Null), w))"

definition created :: fetch_res where
  "created = Reply 201 (Inr issue42)"

subsection \<open>GitHub worlds\<close>

definition status_options :: "(string \<times> string) list" where
  "status_options = [(''O_T'', ''Todo''), (''O_I'', ''Icebox'')]"

definition gh0 :: github where
  "gh0 = \<lparr>gh_token = ''tok'', gh_owner = ''o'', gh_repo = ''r'', gh_number = 1, gh_project_id = ''PVT_1'',
          gh_fields = [OtherField ''F_T'' ''Title'', SingleSelect ''F_S'' ''Status'' status_options],
          gh_issues = [], gh_items = []\<rparr>"

definition gh_no_icebox :: github where
  "gh_no_icebox = gh0\<lparr>gh_fields := [SingleSelect ''F_S'' ''Status'' [(''O_T'', ''Todo''), (''O_D'', ''Done'')]]\<rparr>"

text \<open>Twenty text fields before the Status field: the query's \<^verbatim>\<open>fields(first: 20)\<close> misses it.\<close>

definition text_fields :: "gh_field list" where
  "text_fields = map (\<lambda>c. OtherField [CHR ''T'', c] ''Text'') ''abcdefghijklmnopqrst''"

definition gh_wide :: github where
  "gh_wide = gh0\<lparr>gh_fields := text_fields @ [SingleSelect ''F_S'' ''Status'' status_options]\<rparr>"

definition gs0 :: "github hstate" where
  "gs0 = \<lparr>world = gh0, sent = []\<rparr>"

definition gs1 :: "github hstate" where
  "gs1 = snd (serve gh_serve env0 raw0 gs0)"

definition gs2 :: "github hstate" where
  "gs2 = snd (serve gh_serve env0 raw0 gs1)"

definition done2 :: "response prog list" where
  "done2 = [Ret (Inr (fst (serve gh_serve env0 raw0 gs0))), Ret (Inr (fst (serve gh_serve env0 raw0 gs1)))]"

definition curl_body :: string where
  "curl_body = ''{\"title\":\"Issue Title\", \"body\":\"Issue description\", \"labels\":[\"bug\"]}''"

definition curl_value :: jsval where
  "curl_value = Obj [(''title'', Str ''Issue Title''), (''body'', Str ''Issue description''), (''labels'', Arr [Str ''bug''])]"

lemmas scenario_defs = issue42_def status_field_def
  icebox_option_def project_json_def pd_ok_def pd_no_status_def pd_no_icebox_def item_json_def
  graphql_error_def created_def

lemma cfg0_simps [simp]:
  "github_token cfg0 = ''tok''" "github_owner cfg0 = ''o''" "github_repo cfg0 = ''r''" "project_number cfg0 = 1"
  by (simp_all add: cfg0_def)

lemma s0_simps [simp]: "sent s0 = []" "world s0 = ()"
  by (simp_all add: s0_def)

lemma read_config_env0 [simp]: "read_config env0 = Inr cfg0"
  by (simp add: read_config_Inr env0_def cfg0_def PROJECT_NUMBER_def)

lemma parse_request_raw0 [simp]: "parse_request raw0 = Inr rq0"
  by (simp add: parse_request_Inr destructure_request_Inr raw0_def rq0_def)

lemma mock_calls [simp]:
  "mock c pd a u w (create_issue_req cfg rq) = (c, w)"
  "mock c pd a u w (project_query_req cfg) = (Reply 200 (Inr pd), w)"
  "mock c pd a u w (add_item_req cfg p i) = (Reply 200 (Inr a), w)"
  "mock c pd a u w (update_field_req cfg p i f o') = (u, w)"
  by (simp_all add: mock_def)

text \<open>The mocked run of the specification's end-to-end example, evaluated.\<close>

lemma serve_mock_ok:
  "serve (mock created pd_ok item_json (Reply st b)) env0 raw0 s0 =
    (\<lparr>resp_status = 201, resp_headers = json_headers,
      resp_body = Obj [(''success'', Bool True),
                       (''data'', Obj [(''issue_url'', Str ''https://github.com/o/r/issues/42''),
                                       (''issue_number'', Num 42),
                                       (''project_url'', Str ''https://github.com/orgs/o/projects/1'')])]\<rparr>,
     s0\<lparr>sent := [create_issue_req cfg0 rq0, project_query_req cfg0, add_item_req cfg0 (Str ''PVT_1'') (Str ''I_42''),
                  update_field_req cfg0 (Str ''PVT_1'') (Str ''PVTI_7'') (Str ''F_S'') (Str ''O_I'')]\<rparr>)"
  by (simp add: serve_def handle_body_stages [OF read_config_env0 parse_request_raw0] bindE_apply
      create_issue_def query_project_def fetch_def add_to_project_def set_status_def resolve_project_def
      project_path_def array_find_def reply_json_def ok_def success_response_def
      project_url_read_config [OF read_config_env0] scenario_defs)

lemma gh_worlds_wf: "gh_wf gh0" "gh_wf gh_no_icebox" "gh_wf gh_wide"
  by (simp_all add: gh_wf_def gh0_def gh_no_icebox_def gh_wide_def text_fields_def status_options_def field_ok_def)

lemma env0_matches: "env_matches env0 gh0" "env_matches env0 gh_no_icebox" "env_matches env0 gh_wide"
  by (simp_all add: env_matches_def env0_def gh0_def gh_no_icebox_def gh_wide_def PROJECT_NUMBER_def)

lemma board_ready_gh0: "board_ready env0 gh0"
  using gh_worlds_wf(1) env0_matches(1)
  by (simp add: board_ready_def icebox_ready_def gh0_def is_status_field_def status_options_def is_icebox_def)

definition mid2 :: "github \<times> response prog list" where
  "mid2 = (world gs1, [Ret (Inr (fst (serve gh_serve env0 raw0 gs0))), serveP env0 raw0])"

text \<open>
  Two invocations in flight, scheduled one after the other: the first answers
  (\<open>mid2\<close>), then the second (\<open>done2\<close>).
\<close>

lemma one_run_reach: "conc_step\<^sup>*\<^sup>* (gh0, map (serveP env0) [raw0, raw0]) mid2"
  using run_serveP_conc [of 0 "[serveP env0 raw0, serveP env0 raw0]" env0 raw0 gs0]
  by (simp add: gs1_def mid2_def gs0_def)

lemma two_runs_reach: "conc_step\<^sup>*\<^sup>* (gh0, map (serveP env0) [raw0, raw0]) (world gs2, done2)"
proof -
  have "conc_step\<^sup>*\<^sup>* (gh0, map (serveP env0) [raw0, raw0])
          (world gs1, [Ret (Inr (fst (serve gh_serve env0 raw0 gs0))), serveP env0 raw0])"
    using one_run_reach by (simp add: mid2_def)
  moreover have "conc_step\<^sup>*\<^sup>* (world gs1, [Ret (Inr (fst (serve gh_serve env0 raw0 gs0))), serveP env0 raw0])
          (world gs2, done2)"
    using run_serveP_conc [of 1 "[Ret (Inr (fst (serve gh_serve env0 raw0 gs0))), serveP env0 raw0]" env0 raw0 gs1]
    by (simp add: gs2_def done2_def)
  ultimately show ?thesis by simp
qed

lemma curl_parse: "json_parse curl_body = Inr curl_value"
  unfolding curl_body_def curl_value_def by code_simp

lemma parse_request_curl:
  "parse_request (Inr curl_value) =
     Inr \<lparr>rq_title = Str ''Issue Title'', rq_body = Str ''Issue description'', rq_labels = Arr [Str ''bug'']\<rparr>"
  by (simp add: curl_value_def parse_request_Inr destructure_request_Inr)

end
