(* ===== verification/Spec2Isabelle.thy ===== *)
theory Spec2Isabelle
  imports Scenarios
begin

text \<open>
  \<^bold>\<open>Verification of the create-github-issue edge function.\<close>

  The repository is one Supabase edge function,
  \<^verbatim>\<open>src/supabase/functions/create-github-issue/index.ts\<close>: a request handler given to
  \<^verbatim>\<open>Deno.serve\<close> that reads its configuration from the environment, parses the
  request body, creates a GitHub issue over REST, queries the project board over GraphQL,
  looks up the Status field and its Icebox option, adds the issue to the board and sets its
  status, and answers with a JSON success or failure object. Every exception inside its
  \<^verbatim>\<open>try\<close> block becomes a 400 answer carrying the exception's message.

  \<^bold>\<open>Theories.\<close>
  \<^item> \<open>Prelude\<close>: the exception-and-state actions (\<open>returnE\<close>, \<open>throwE\<close>,
    \<open>liftE\<close>, \<open>bindE\<close>) that model \<^verbatim>\<open>await\<close> steps inside one \<^verbatim>\<open>try\<close>,
    and the sum monad \<open>bindS\<close> for pure code that may throw.
  \<^item> \<open>JsValue\<close>: the JavaScript semantics the code relies on: JSON values with
    \<^verbatim>\<open>undefined\<close> (\<open>jsval\<close>), exceptions (\<open>exn\<close>), truthiness (\<open>truthy\<close>),
    property reads that throw on \<^verbatim>\<open>undefined\<close>/\<^verbatim>\<open>null\<close> (\<open>get_prop\<close>,
    \<open>get_path\<close>), \<^verbatim>\<open>Array.prototype.find\<close> with a throwing callback (\<open>find_js\<close>,
    \<open>array_find\<close>, \<open>name_is\<close>), number printing and \<^verbatim>\<open>parseInt\<close>
    (\<open>int_to_str\<close>, \<open>js_parseInt\<close>) and \<^verbatim>\<open>JSON.stringify\<close> (\<open>json_text\<close>,
    \<open>js_stringify\<close>, \<open>wire\<close>). A number \<open>Num n\<close> is read as a safe integer
    (\<open>\<bar>n\<bar> < 2\<^sup>5\<^sup>3\<close>), where \<^verbatim>\<open>String\<close> prints plain decimal text as
    \<open>int_to_str\<close> does.
  \<^item> \<open>JsonText\<close>: \<^verbatim>\<open>JSON.parse\<close> of a text (\<open>json_parse\<close>), the runtime's reading
    behind \<^verbatim>\<open>await req.json()\<close>, as a recursive descent returning the value and the
    rest of the text (\<open>pv\<close>, \<open>pelems\<close>, \<open>pmembers\<close>, \<open>pstr\<close>, \<open>pnum\<close>,
    \<open>plit\<close>), and \<open>req_json\<close>, the outcome the handler receives. Its lemmas: each
    reader consumes what it reads, the fuel never runs out (\<open>req_json_total\<close>), the
    reader inverts \<^verbatim>\<open>JSON.stringify\<close> (\<open>json_parse_json_text\<close>), and what it
    reads prints and reads back unchanged (\<open>json_parse_reparse\<close>).
  \<^item> \<open>Http\<close>: outbound requests (\<open>http_req\<close>, body kept as the value given to
    \<^verbatim>\<open>JSON.stringify\<close>), \<^verbatim>\<open>fetch\<close> results (\<open>fetch_res\<close>), the remote side as
    a parameter \<open>'w upstream = 'w \<Rightarrow> http_req \<Rightarrow> fetch_res \<times> 'w\<close>, and the
    handler state \<open>'w hstate\<close>: the remote world and the list of requests sent, in order.
    \<open>fetch\<close> appends its request to that list whatever the answer.
  \<^item> \<open>Handler\<close>: the handler, one definition per stage of lines 16--202 in source
    order: \<open>read_config\<close>, \<open>parse_request\<close> (with \<open>destructure_request\<close>),
    \<open>create_issue\<close>, \<open>query_project\<close>, \<open>resolve_project\<close>,
    \<open>add_to_project\<close>, \<open>set_status\<close>, \<open>success_response\<close>,
    \<open>error_response\<close>; \<open>handle_body\<close> composes them and \<open>serve\<close> adds the
    \<^verbatim>\<open>catch\<close>. Its lemmas give each stage's result on each branch and the requests
    it sends.
  \<^item> \<open>GitHub\<close>: GitHub's side, modelled from the specification (section 6) since it is
    not code of the repository: a world \<open>github\<close> with the repository's issues, the
    project's fields and its items with their field values, and \<open>gh_serve\<close>, an upstream
    that answers the four requests of the handler (\<open>gh_create_issue\<close>, which takes a
    string or integer title, \<open>gh_project_query\<close>, which answers with as many fields as
    the document's \<^verbatim>\<open>fields(first: n)\<close> asks for (\<open>fields_first\<close>; at most 100),
    \<open>gh_add_item\<close>, \<open>gh_update_field\<close>) after checking the bearer token. Its invariant \<open>gh_wf\<close>
    (issues and items numbered in order, every item holding one existing issue, every value
    an option of its field) is kept by every request (\<open>gh_wf_serve\<close>), and no request
    changes the settings or the fields (\<open>gh_serve_settings\<close>).
  \<^item> \<open>Tracker\<close>: the abstract view and the contract. \<open>board\<close> maps a world to its
    tickets (title, body, labels and filing: off the board, or on it with the name of its
    Status option); \<open>file_issue\<close> and \<open>file_all\<close> are the specification's promise;
    \<open>board_ready\<close> is the setting it is made in; \<open>serve_seq\<close> is \<^verbatim>\<open>Deno.serve\<close>
    taking invocations in turn. Its lemmas compute a whole run against GitHub
    (\<open>serve_gh_filed\<close>, \<open>serve_gh_unfiled\<close>) and its effect on the board
    (\<open>board_filed\<close>, \<open>serve_gh_step\<close>). \<open>Handler\<close> contributes the interface
    lemma \<open>serve_keeps_world\<close>: a property of the world every upstream answer keeps holds
    after any invocation.
  \<^item> \<open>Interleaving\<close>: invocations in flight together. A run of the handler is a
    resumption \<open>'a prog\<close>: finished (\<open>Ret\<close>) or waiting on an \<^verbatim>\<open>await fetch\<close>
    (\<open>Call rq k\<close>). \<open>create_issueP\<close> \<dots> \<open>set_statusP\<close>, \<open>handle_bodyP\<close>,
    \<open>respond\<close> (the \<^verbatim>\<open>catch\<close>) and \<open>serveP\<close> repeat the definitions of
    \<open>Handler\<close> with the binds of the resumption; \<open>run_prog\<close> runs one against an
    upstream. \<open>conc_step\<close> is the step relation of \<^verbatim>\<open>Deno.serve\<close> with several
    invocations in flight: any waiting one has its request answered by the current GitHub
    world and continues. \<open>finishes_within n\<close> bounds the calls a resumption awaits. Its
    lemmas: the resumption runs as \<open>serve\<close> (\<open>serveP_runs_as_serve\<close>), every run
    awaits at most four calls (\<open>serveP_finishes\<close>), hence every interleaving ends
    (\<open>conc_runs_terminate\<close>) and from every reachable configuration all runs can be
    completed (\<open>conc_runs_complete\<close>); a run taken alone is a sequence of steps
    (\<open>run_prog_conc\<close>).
  \<^item> \<open>Concurrency\<close>: the invariant \<open>conc_inv\<close> of invocations in flight on a ready
    world. \<open>run_at\<close> says where a run stands (before its issue exists; issue created and
    off the board; item added; finished and filed) and which issue it owns; the invariant
    adds that owned issues are distinct and new, that the issues past the initial ones are
    exactly the owned ones, and that the world stays ready with the same settings. It is
    kept by every step (\<open>conc_inv_step\<close>, by cases on the stage of the stepping run) and
    so holds in every reachable configuration (\<open>conc_inv_reach\<close>, rule induction); C16
    reads the result off it.
  \<^item> \<open>Scenarios\<close>: concrete environments, requests, project metadata, a mocked upstream
    and GitHub worlds, two invocations in flight run to the end, and the body text of the
    \<^verbatim>\<open>curl\<close> example at the end of \<^verbatim>\<open>index.ts\<close> (\<open>curl_body\<close>), used by the
    witnesses.
  \<^item> This theory: the properties of the whole handler, over an arbitrary upstream (C1--C11,
    C17, C19), against the GitHub model (C12--C15), across \<open>JsonText\<close> and
    \<open>Handler\<close> (C18), and the witness of the claim of \<open>Concurrency\<close> (C16).

  \<^bold>\<open>Modelling choices.\<close> Numbers are integers (issue and project numbers); strings are
  \<open>char list\<close>s; the handler's input is \<^verbatim>\<open>req.json()\<close>'s outcome (a parse error
  message or a value); \<open>req_json\<close> computes it from a body text with the model of
  \<^verbatim>\<open>JSON.parse\<close>, leaving the wording of the runtime's \<^verbatim>\<open>SyntaxError\<close> message a
  parameter. The GraphQL documents keep their
  text with white space collapsed. There is no loop and no recursion in the handler,
  so no fuel is needed there: every definition is total and executable; \<open>serve_seq\<close>
  recurses on the list of requests. The bound of four steps per invocation in
  \<open>conc_runs_terminate\<close> is the number of \<^verbatim>\<open>await fetch\<close> calls on the longest path of the handler; the
  \<^verbatim>\<open>await response.json()\<close> reads are local and take no step. GitHub reads a request's body as \<open>wire\<close> of the
  value the handler stringified, which is what \<^verbatim>\<open>JSON.parse\<close> of the text gives
  (\<open>json_parse_json_text\<close>). The JSON reader recurses on fuel; twice the length of the
  text plus one is enough, since every call but one per nesting level consumes a character
  (\<open>pv_fuel\<close>). Numbers are safe integers, where the decimal printing of
  \<open>int_to_str\<close> is JavaScript's.

  \<^bold>\<open>Not modelled.\<close> The HTTP transport: an invocation starts with its parsed
  body and its answer is the \<open>response\<close> value. In the interleaving model GitHub answers
  each request atomically, as one step; the text of
  \<^verbatim>\<open>Response\<close> headers beyond their list. Of GitHub, only what the four requests need:
  label and body validation, rate limits, further pages of a connection and every other
  endpoint are left out; an issue needs a non-empty string or an integer title. Of
  \<^verbatim>\<open>JSON.parse\<close>: numbers with a fraction or an exponent and \<^verbatim>\<open>\\u\<close> escapes above
  \<^verbatim>\<open>00FF\<close> are outside the model's values (\<open>JsonOutside\<close>), and member names that
  are array indices, which JavaScript objects order first, keep their text order. GitHub's
  answers are given to the handler as values, not as texts. The properties
  C1--C11, C17 and C19 hold for every upstream, so they do not depend on the GitHub model.

  \<^bold>\<open>Properties.\<close> Over an arbitrary upstream, in this theory: the success run and its
  answer (C1); the three input failures, configuration (C2), title (C3) and issue creation
  (C4), each with exactly the calls made before it; the two lookup failures, of which a
  missing Status field fails with a \<^verbatim>\<open>TypeError\<close> because \<^verbatim>\<open>statusField.options\<close>
  is read before the guard of line 106 (C5, C6); the order of the calls (C7); the partial
  failures that leave a created issue behind (C8, C9), among them a failed project query,
  whose status and errors the code never reads (C19); authorization of every call (C10);
  the shape of every answer (C11); a body that is not JSON is answered 400 with the
  runtime's message and no call (C17). C1 holds whatever the last mutation answers: the
  code never checks it.
  Against the GitHub model: one invocation refines \<open>file_issue\<close>, one new ticket in
  Icebox whose number the answer reports (C12); successive invocations file every request
  with consecutive numbers, as \<open>file_all\<close> says (C13); a Status field after the first
  20 fields, the page the query asks for, is not seen and the created issue stays off the
  board (C14); so does it when the Icebox option is missing (C15).
  Invocations in flight (\<open>Concurrency\<close>): invocations with string titles, interleaved
  in any order, each file their own issue with a distinct number in the Icebox column and
  leave the earlier tickets alone (C16): the read of the project's fields and the add of
  one invocation never disturb another's.
  Texts: the issue payload, as GitHub reads its text, holds exactly the caller's fields
  (C18).

  \<^bold>\<open>Plan for later work.\<close> Interleavings in which some invocations fail (their
  issues stay off the board while the others succeed); GitHub answering with texts read
  by \<open>json_parse\<close>, so that \<^verbatim>\<open>response.json()\<close> failures come from the model.
\<close>

text \<open>
  C1. Given an upstream that succeeds at every stage (the issue is created with a 2xx
  status, the project metadata resolves to a Status field with an Icebox option, the item
  is added), the handler answers 201 with \<^verbatim>\<open>success: true\<close>, the issue's URL and number
  and the project URL \<^verbatim>\<open>https://github.com/orgs/{owner}/projects/1\<close>, after exactly
  four outbound calls in the order create, query, add, update. The answer of the last
  mutation is not looked at: any reply gives the same result.
\<close>

theorem serve_success:
  assumes cfg: "read_config env = Inr cfg" and rq: "parse_request raw = Inr rq"
    and c: "up (world s) (create_issue_req cfg rq) = (Reply st1 (Inr issue), w1)" "200 \<le> st1" "st1 \<le> 299" "truthy issue"
    and q: "up w1 (project_query_req cfg) = (Reply st2 (Inr pd), w2)"
    and r: "resolve_project pd = Inr (pid, sf, io)"
    and a: "up w2 (add_item_req cfg pid (member issue ''node_id'')) = (Reply st3 (Inr ad), w3)"
           "get_path ad [''data'', ''addProjectV2ItemById'', ''item'', ''id''] = Inr item"
    and u: "up w3 (update_field_req cfg pid item (member sf ''id'') (member io ''id'')) = (Reply st4 b4, w4)"
  shows "serve up env raw s =
    (\<lparr>resp_status = 201, resp_headers = json_headers,
      resp_body = Obj [(''success'', Bool True),
                       (''data'', Obj [(''issue_url'', member issue ''html_url''),
                                       (''issue_number'', member issue ''number''),
                                       (''project_url'', Str (''https://github.com/orgs/'' @ github_owner cfg @ ''/projects/1''))])]\<rparr>,
     s\<lparr>world := w4, sent := sent s @ [create_issue_req cfg rq, project_query_req cfg,
          add_item_req cfg pid (member issue ''node_id''), update_field_req cfg pid item (member sf ''id'') (member io ''id'')]\<rparr>)"
proof -
  define s3 where "s3 = s\<lparr>world := w3, sent := sent s @ [create_issue_req cfg rq, project_query_req cfg,
                                                       add_item_req cfg pid (member issue ''node_id'')]\<rparr>"
  have t: "truthy sf" "truthy io" using resolve_project_Inr_truthy [OF r] by auto
  have 4: "set_status up cfg pid item sf io s3 =
      (Inr (), s3\<lparr>world := w4, sent := sent s3 @ [update_field_req cfg pid item (member sf ''id'') (member io ''id'')]\<rparr>)"
    using set_status_Reply [OF t, of up s3] u by (simp add: s3_def)
  show ?thesis
    using 4 c(4) by (simp add: serve_def handle_body_after_add [OF cfg rq c q r a(1)] bindE_apply a(2)
        success_response_truthy project_url_read_config [OF cfg] s3_def del: get_path.simps)
qed

theorem serve_success_witness:
  "serve (mock created pd_ok item_json (Reply 200 (Inr graphql_error))) env0 raw0 s0 =
    (\<lparr>resp_status = 201, resp_headers = json_headers,
      resp_body = Obj [(''success'', Bool True),
                       (''data'', Obj [(''issue_url'', Str ''https://github.com/o/r/issues/42''),
                                       (''issue_number'', Num 42),
                                       (''project_url'', Str ''https://github.com/orgs/o/projects/1'')])]\<rparr>,
     s0\<lparr>sent := [create_issue_req cfg0 rq0, project_query_req cfg0, add_item_req cfg0 (Str ''PVT_1'') (Str ''I_42''),
                  update_field_req cfg0 (Str ''PVT_1'') (Str ''PVTI_7'') (Str ''F_S'') (Str ''O_I'')]\<rparr>)"
proof -
  have r: "resolve_project pd_ok = Inr (Str ''PVT_1'', status_field, icebox_option)"
    by (simp add: resolve_project_def project_path_def array_find_def scenario_defs)
  show ?thesis
    using serve_success [OF read_config_env0 parse_request_raw0, of "mock created pd_ok item_json (Reply 200 (Inr graphql_error))"
        s0 201 issue42 "()" 200 pd_ok "()" "Str ''PVT_1''" status_field icebox_option 200 item_json "()" "Str ''PVTI_7''"
        200 "Inr graphql_error" "()"] r
    by (simp add: scenario_defs)
qed

text \<open>
  C2. If any of \<^verbatim>\<open>GITHUB_TOKEN\<close>, \<^verbatim>\<open>GITHUB_OWNER\<close>, \<^verbatim>\<open>GITHUB_REPO\<close> is unset
  or empty, the handler fails fast: a 400 answer with the configuration message, no
  outbound call and the remote world unchanged, whatever the request.
\<close>

theorem serve_missing_config:
  assumes "k \<in> {''GITHUB_TOKEN'', ''GITHUB_OWNER'', ''GITHUB_REPO''}" and "env k = None \<or> env k = Some []"
  shows "serve up env raw s = (error_response (JsExn Error ''Required environment variables are not set''), s)"
proof -
  have "read_config env = Inl (JsExn Error ''Required environment variables are not set'')"
  proof (cases "read_config env")
    case (Inl e)
    then show ?thesis using read_config_Inl by simp
  next
    case (Inr cfg)
    with assms show ?thesis by (auto simp: read_config_Inr)
  qed
  then show ?thesis by (simp add: serve_def handle_body_def)
qed

theorem serve_missing_config_witness:
  "serve (mock created pd_ok item_json created) (env0(''GITHUB_REPO'' := Some [])) raw0 s0 =
     (error_response (JsExn Error ''Required environment variables are not set''), s0)"
  using serve_missing_config [of "''GITHUB_REPO''" "env0(''GITHUB_REPO'' := Some [])"] by simp

text \<open>
  C3. A request body without a truthy \<^verbatim>\<open>title\<close> (missing, empty, \<^verbatim>\<open>null\<close>, ...)
  is rejected with \<^verbatim>\<open>Issue title is required\<close> and status 400, before any outbound call.
\<close>

theorem serve_missing_title:
  assumes "read_config env = Inr cfg" and "raw = Inr v" and "v \<noteq> Undefined" and "v \<noteq> Null"
    and "\<not> truthy (member v ''title'')"
  shows "serve up env raw s = (error_response (JsExn Error ''Issue title is required''), s)"
proof -
  have "parse_request raw = Inl (JsExn Error ''Issue title is required'')"
    using assms(2-5) by (cases v) (auto simp: parse_request_def destructure_request_def member_def split: option.splits)
  with assms(1) show ?thesis by (simp add: serve_def handle_body_def)
qed

theorem serve_missing_title_witness:
  "serve (mock created pd_ok item_json created) env0 (Inr (Obj [(''title'', Str []), (''body'', Str ''x'')])) s0 =
     (error_response (JsExn Error ''Issue title is required''), s0)"
  using serve_missing_title [OF read_config_env0, of "Inr (Obj [(''title'', Str []), (''body'', Str ''x'')])"
      "Obj [(''title'', Str []), (''body'', Str ''x'')]"] by simp

text \<open>
  C4. If GitHub answers the issue creation with a status outside 200--299, the handler
  fails with \<^verbatim>\<open>GitHub API error: \<close> followed by the JSON of the error body (or the
  body's parse error), after that single call: no project call is attempted.
\<close>

theorem serve_issue_creation_rejected:
  assumes cfg: "read_config env = Inr cfg" and rq: "parse_request raw = Inr rq"
    and c: "up (world s) (create_issue_req cfg rq) = (Reply st b, w')" and st: "\<not> (200 \<le> st \<and> st \<le> 299)"
  shows "serve up env raw s =
    (error_response (case b of Inl m \<Rightarrow> JsExn SyntaxError m
                      | Inr v \<Rightarrow> JsExn Error (''GitHub API error: '' @ to_js_string (js_stringify v))),
     s\<lparr>world := w', sent := sent s @ [create_issue_req cfg rq]\<rparr>)"
  using create_issue_Reply [of up s cfg rq st b w', OF c] st
  by (simp add: serve_def handle_body_stages [OF cfg rq] bindE_apply split: sum.splits)

theorem serve_issue_creation_rejected_witness:
  "serve (mock (Reply 422 (Inr (Obj [(''message'', Str ''Validation Failed'')]))) pd_ok item_json created) env0 raw0 s0 =
    (error_response (JsExn Error ''GitHub API error: {\"message\":\"Validation Failed\"}''),
     s0\<lparr>sent := [create_issue_req cfg0 rq0]\<rparr>)"
  using serve_issue_creation_rejected [OF read_config_env0 parse_request_raw0,
      of "mock (Reply 422 (Inr (Obj [(''message'', Str ''Validation Failed'')]))) pd_ok item_json created" s0 422]
  by (simp add: s0_def js_stringify_def json_quote_def json_escape_def)

text \<open>
  C5. If the project has no field named Status, the handler fails after the issue was
  created and the project queried, and adds nothing to the project. The failure is not the
  code's not-found message: \<^verbatim>\<open>statusField.options\<close> is read before the guard of line 106,
  so the answer carries the \<^verbatim>\<open>TypeError\<close> of reading \<^verbatim>\<open>options\<close> of \<^verbatim>\<open>undefined\<close>.
\<close>

theorem serve_no_status_field:
  assumes cfg: "read_config env = Inr cfg" and rq: "parse_request raw = Inr rq"
    and c: "up (world s) (create_issue_req cfg rq) = (Reply st1 (Inr issue), w1)" "200 \<le> st1" "st1 \<le> 299"
    and q: "up w1 (project_query_req cfg) = (Reply st2 (Inr pd), w2)"
    and p: "get_path pd (project_path @ [''id'']) = Inr pid"
           "get_path pd (project_path @ [''fields'', ''nodes'']) = Inr (Arr nodes)"
    and n: "\<forall>x\<in>set nodes. name_is ''Status'' x = Inr False"
  shows "serve up env raw s =
    (error_response (JsExn TypeError ''Cannot read properties of undefined (reading 'options')''),
     s\<lparr>world := w2, sent := sent s @ [create_issue_req cfg rq, project_query_req cfg]\<rparr>)"
  using serve_resolve_fails [OF cfg rq c q resolve_project_no_status [OF p n]]
  by (simp add: read_error_def squote_def)

theorem serve_no_status_field_witness:
  "serve (mock created pd_no_status item_json created) env0 raw0 s0 =
    (error_response (JsExn TypeError ''Cannot read properties of undefined (reading 'options')''),
     s0\<lparr>sent := [create_issue_req cfg0 rq0, project_query_req cfg0]\<rparr>)"
  using serve_no_status_field [OF read_config_env0 parse_request_raw0,
      of "mock created pd_no_status item_json created" s0 201 issue42 "()" 200 pd_no_status "()" "Str ''PVT_1''"
      "[Obj [], Obj [(''id'', Str ''F_P''), (''name'', Str ''Priority''), (''options'', Arr [])]]"]
  by (simp add: scenario_defs project_path_def)

text \<open>
  C6. If the Status field has no option named Icebox, the handler fails with
  \<^verbatim>\<open>Status field or Icebox option not found in the project\<close> after the create and query
  calls, and makes neither mutation.
\<close>

theorem serve_no_icebox_option:
  assumes cfg: "read_config env = Inr cfg" and rq: "parse_request raw = Inr rq"
    and c: "up (world s) (create_issue_req cfg rq) = (Reply st1 (Inr issue), w1)" "200 \<le> st1" "st1 \<le> 299"
    and q: "up w1 (project_query_req cfg) = (Reply st2 (Inr pd), w2)"
    and p: "get_path pd (project_path @ [''id'']) = Inr pid"
           "get_path pd (project_path @ [''fields'', ''nodes'']) = Inr (Arr nodes)"
    and f: "find_js (name_is ''Status'') nodes = Inr (Obj f)" "map_of f ''options'' = Some (Arr opts)"
    and o: "\<forall>x\<in>set opts. name_is ''Icebox'' x = Inr False"
  shows "serve up env raw s =
    (error_response (JsExn Error ''Status field or Icebox option not found in the project''),
     s\<lparr>world := w2, sent := sent s @ [create_issue_req cfg rq, project_query_req cfg]\<rparr>)"
  using serve_resolve_fails [OF cfg rq c q resolve_project_no_icebox [OF p f o]] .

theorem serve_no_icebox_option_witness:
  "serve (mock created pd_no_icebox item_json created) env0 raw0 s0 =
    (error_response (JsExn Error ''Status field or Icebox option not found in the project''),
     s0\<lparr>sent := [create_issue_req cfg0 rq0, project_query_req cfg0]\<rparr>)"
  using serve_no_icebox_option [OF read_config_env0 parse_request_raw0,
      of "mock created pd_no_icebox item_json created" s0 201 issue42 "()" 200 pd_no_icebox "()" "Str ''PVT_1''"
      "[Obj [(''id'', Str ''F_S''), (''name'', Str ''Status''), (''options'', Arr [Obj [(''id'', Str ''O_T''), (''name'', Str ''Todo'')]])]]"
      "[(''id'', Str ''F_S''), (''name'', Str ''Status''), (''options'', Arr [Obj [(''id'', Str ''O_T''), (''name'', Str ''Todo'')]])]"
      "[Obj [(''id'', Str ''O_T''), (''name'', Str ''Todo'')]]"]
  by (simp add: scenario_defs project_path_def)

text \<open>
  C7. Every run sends a prefix of the sequence create issue, project query, add item,
  update field, at most four calls and in this order; a 201 answer comes only after all four.
\<close>

theorem serve_call_order:
  "\<exists>cs. sent (snd (serve up env raw s)) = sent s @ cs \<and> length cs \<le> 4 \<and>
     map call_kind cs = take (length cs) [CreateIssueCall, ProjectQueryCall, AddItemCall, UpdateFieldCall] \<and>
     (resp_status (fst (serve up env raw s)) = 201 \<longrightarrow> length cs = 4)"
proof (cases "handle_body up env raw s")
  case (Pair x s')
  then obtain cs where "sent s' = sent s @ cs" "length cs \<le> 4"
    "map call_kind cs = take (length cs) [CreateIssueCall, ProjectQueryCall, AddItemCall, UpdateFieldCall]"
    "\<not> isl x \<longrightarrow> length cs = 4"
    using handle_body_trace by blast
  with Pair show ?thesis by (auto simp: serve_def error_response_def split: sum.splits)
qed

theorem serve_call_order_witness:
  "resp_status (fst (serve (mock created pd_ok item_json (Reply 200 (Inr (Obj [])))) env0 raw0 s0)) = 201 \<and>
   map call_kind (sent (snd (serve (mock created pd_ok item_json (Reply 200 (Inr (Obj [])))) env0 raw0 s0))) =
     [CreateIssueCall, ProjectQueryCall, AddItemCall, UpdateFieldCall]"
  using serve_call_order [of "mock created pd_ok item_json (Reply 200 (Inr (Obj [])))" env0 raw0 s0]
  by (simp add: serve_mock_ok)

text \<open>
  C8. Partial failure: when the add-to-project mutation returns no item (for example
  \<^verbatim>\<open>data: null\<close> with GraphQL errors), the handler answers 400 after three calls, and the
  remote world keeps the state the issue creation left: there is no rollback.
\<close>

theorem serve_add_item_fails:
  assumes cfg: "read_config env = Inr cfg" and rq: "parse_request raw = Inr rq"
    and c: "up (world s) (create_issue_req cfg rq) = (Reply st1 (Inr issue), w1)" "200 \<le> st1" "st1 \<le> 299" "truthy issue"
    and q: "up w1 (project_query_req cfg) = (Reply st2 (Inr pd), w2)"
    and r: "resolve_project pd = Inr (pid, sf, io)"
    and a: "up w2 (add_item_req cfg pid (member issue ''node_id'')) = (Reply st3 (Inr ad), w3)"
           "get_path ad [''data'', ''addProjectV2ItemById'', ''item'', ''id''] = Inl e"
  shows "serve up env raw s =
    (error_response e, s\<lparr>world := w3, sent := sent s @ [create_issue_req cfg rq, project_query_req cfg,
                                                         add_item_req cfg pid (member issue ''node_id'')]\<rparr>)"
  using a(2) by (simp add: serve_def handle_body_after_add [OF cfg rq c q r a(1)])

theorem serve_add_item_fails_witness:
  "serve (mock created pd_ok graphql_error (Reply 200 (Inr (Obj [])))) env0 raw0 s0 =
    (error_response (JsExn TypeError ''Cannot read properties of null (reading 'addProjectV2ItemById')''),
     s0\<lparr>sent := [create_issue_req cfg0 rq0, project_query_req cfg0, add_item_req cfg0 (Str ''PVT_1'') (Str ''I_42'')]\<rparr>)"
proof -
  have r: "resolve_project pd_ok = Inr (Str ''PVT_1'', status_field, icebox_option)"
    by (simp add: resolve_project_def project_path_def array_find_def scenario_defs)
  show ?thesis
    using serve_add_item_fails [OF read_config_env0 parse_request_raw0,
        of "mock created pd_ok graphql_error (Reply 200 (Inr (Obj [])))" s0 201 issue42 "()" 200 pd_ok "()"
        "Str ''PVT_1''" status_field icebox_option 200 graphql_error "()"] r
    by (simp add: scenario_defs read_error_def squote_def)
qed

text \<open>
  C9. When the last mutation's \<^verbatim>\<open>fetch\<close> itself rejects, the handler answers 400
  with the network error's message although the issue was created and added to the project.
\<close>

theorem serve_update_network_failure:
  assumes cfg: "read_config env = Inr cfg" and rq: "parse_request raw = Inr rq"
    and c: "up (world s) (create_issue_req cfg rq) = (Reply st1 (Inr issue), w1)" "200 \<le> st1" "st1 \<le> 299" "truthy issue"
    and q: "up w1 (project_query_req cfg) = (Reply st2 (Inr pd), w2)"
    and r: "resolve_project pd = Inr (pid, sf, io)"
    and a: "up w2 (add_item_req cfg pid (member issue ''node_id'')) = (Reply st3 (Inr ad), w3)"
           "get_path ad [''data'', ''addProjectV2ItemById'', ''item'', ''id''] = Inr item"
    and u: "up w3 (update_field_req cfg pid item (member sf ''id'') (member io ''id'')) = (NetworkError m, w4)"
  shows "serve up env raw s =
    (error_response (JsExn TypeError m),
     s\<lparr>world := w4, sent := sent s @ [create_issue_req cfg rq, project_query_req cfg,
          add_item_req cfg pid (member issue ''node_id''), update_field_req cfg pid item (member sf ''id'') (member io ''id'')]\<rparr>)"
proof -
  have t: "truthy sf" "truthy io" using resolve_project_Inr_truthy [OF r] by auto
  define s3 where "s3 = s\<lparr>world := w3, sent := sent s @ [create_issue_req cfg rq,
        project_query_req cfg, add_item_req cfg pid (member issue ''node_id'')]\<rparr>"
  have 4: "set_status up cfg pid item sf io s3 =
      (Inl (JsExn TypeError m), s3\<lparr>world := w4, sent := sent s3 @ [update_field_req cfg pid item (member sf ''id'') (member io ''id'')]\<rparr>)"
    using set_status_NetworkError [OF t, of up s3 cfg pid item m w4] u by (simp add: s3_def)
  show ?thesis
    using 4 by (simp add: serve_def handle_body_after_add [OF cfg rq c q r a(1)] bindE_apply a(2) s3_def del: get_path.simps)
qed

theorem serve_update_network_failure_witness:
  "serve (mock created pd_ok item_json (NetworkError ''fetch failed'')) env0 raw0 s0 =
    (error_response (JsExn TypeError ''fetch failed''),
     s0\<lparr>sent := [create_issue_req cfg0 rq0, project_query_req cfg0, add_item_req cfg0 (Str ''PVT_1'') (Str ''I_42''),
                  update_field_req cfg0 (Str ''PVT_1'') (Str ''PVTI_7'') (Str ''F_S'') (Str ''O_I'')]\<rparr>)"
proof -
  have r: "resolve_project pd_ok = Inr (Str ''PVT_1'', status_field, icebox_option)"
    by (simp add: resolve_project_def project_path_def array_find_def scenario_defs)
  show ?thesis
    using serve_update_network_failure [OF read_config_env0 parse_request_raw0,
        of "mock created pd_ok item_json (NetworkError ''fetch failed'')" s0 201 issue42 "()" 200 pd_ok "()"
        "Str ''PVT_1''" status_field icebox_option 200 item_json "()" "Str ''PVTI_7''" "''fetch failed''" "()"] r
    by (simp add: scenario_defs)
qed

text \<open>
  C10. Every outbound request of a run is a POST carrying
  \<^verbatim>\<open>Authorization: Bearer {GITHUB_TOKEN}\<close> with the configured, non-empty token and a JSON
  content type.
\<close>

theorem serve_requests_authorized:
  "\<forall>r\<in>set (drop (length (sent s)) (sent (snd (serve up env raw s)))).
     \<exists>tok. env ''GITHUB_TOKEN'' = Some tok \<and> tok \<noteq> [] \<and> req_method r = ''POST'' \<and>
       (''Authorization'', ''Bearer '' @ tok) \<in> set (req_headers r) \<and>
       (''Content-Type'', ''application/json'') \<in> set (req_headers r)"
proof (cases "handle_body up env raw s")
  case (Pair x s')
  then obtain cs where cs: "sent s' = sent s @ cs"
    "\<forall>r\<in>set cs. \<exists>cfg. read_config env = Inr cfg \<and> req_headers r \<in> {rest_headers cfg, graphql_headers cfg} \<and> req_method r = ''POST''"
    using handle_body_trace_auth by blast
  have "snd (serve up env raw s) = s'" using Pair by (simp add: serve_def split: sum.splits)
  with cs show ?thesis
    by (fastforce simp: read_config_Inr rest_headers_def graphql_headers_def)
qed

theorem serve_requests_authorized_witness:
  "\<exists>tok. env0 ''GITHUB_TOKEN'' = Some tok \<and> tok \<noteq> [] \<and> req_method (create_issue_req cfg0 rq0) = ''POST'' \<and>
     (''Authorization'', ''Bearer '' @ tok) \<in> set (req_headers (create_issue_req cfg0 rq0)) \<and>
     (''Content-Type'', ''application/json'') \<in> set (req_headers (create_issue_req cfg0 rq0))"
  using serve_requests_authorized [of s0 "mock created pd_ok item_json (Reply 200 (Inr (Obj [])))" env0 raw0]
  by (simp add: serve_mock_ok)

text \<open>
  C11. The handler always answers: either 201 with \<^verbatim>\<open>success: true\<close>, or 400 with
  \<^verbatim>\<open>success: false\<close> and a string \<^verbatim>\<open>error\<close>. No exception escapes.
\<close>

theorem serve_response_shape:
  "(resp_status (fst (serve up env raw s)) = 201 \<and> member (resp_body (fst (serve up env raw s))) ''success'' = Bool True) \<or>
   (resp_status (fst (serve up env raw s)) = 400 \<and> member (resp_body (fst (serve up env raw s))) ''success'' = Bool False \<and>
    (\<exists>m. member (resp_body (fst (serve up env raw s))) ''error'' = Str m))"
proof (cases "handle_body up env raw s")
  case (Pair x s')
  show ?thesis
  proof (cases x)
    case (Inl e)
    with Pair show ?thesis by (simp add: serve_def error_response_def)
  next
    case (Inr r)
    with Pair obtain cfg issue where "success_response cfg issue = Inr r" using handle_body_Inr by blast
    with Pair Inr show ?thesis by (simp add: serve_def success_response_Inr)
  qed
qed

text \<open>
  C12. Refinement: against a GitHub whose configuration matches the environment and whose
  project has a Status field with an Icebox option among its first 20 fields, one
  invocation with a string title does what the abstract operation \<open>file_issue\<close>
  specifies: the tracker gains exactly one ticket, the request's, filed in the Icebox
  column, and the answer reports that ticket's number.
\<close>

theorem serve_refines_file_issue:
  assumes "board_ready env (world s)" and "parse_request raw = Inr rq" and "rq_title rq = Str t"
  shows "board (world (snd (serve gh_serve env raw s))) = fst (file_issue (board (world s)) rq) \<and>
         fst (serve gh_serve env raw s) = filed_response (world s) (snd (file_issue (board (world s)) rq))"
  using serve_gh_step [OF assms] by (simp add: file_issue_def board_def)

theorem serve_refines_file_issue_witness:
  "board (world (snd (serve gh_serve env0 raw0 gs0))) =
     [\<lparr>tk_title = ''Bug X'', tk_body = Str ''repro steps'', tk_labels = Arr [Str ''bug''], tk_filing = Filed (Some ''Icebox'')\<rparr>] \<and>
   fst (serve gh_serve env0 raw0 gs0) = filed_response gh0 1"
  using serve_refines_file_issue [of env0 gs0 raw0 rq0 "''Bug X''"] board_ready_gh0
  by (simp add: gs0_def rq0_def file_issue_def request_ticket_def received_def board_def gh0_def)

text \<open>
  C14. Bounds: the project query asks for a page of 20 fields (\<^verbatim>\<open>fields(first: 20)\<close>,
  line 63; GitHub answers with as many fields as the document's argument asks for, and
  the handler never asks for a second page). When none of the first 20 is
  the single-select Status field, the run fails with the \<^verbatim>\<open>TypeError\<close> of reading
  \<^verbatim>\<open>options\<close> of \<^verbatim>\<open>undefined\<close>, even if the project has a Status field further on,
  and the issue it created stays in the repository, not on the board.
\<close>

theorem serve_status_beyond_first_20:
  assumes "gh_wf (world s)" "env_matches env (world s)" "parse_request raw = Inr rq" "rq_title rq = Str t"
    and "list_all (\<lambda>fl. \<not> is_status_field fl) (take 20 (gh_fields (world s)))"
  shows "fst (serve gh_serve env raw s) = error_response (JsExn TypeError ''Cannot read properties of undefined (reading 'options')'') \<and>
         board (world (snd (serve gh_serve env raw s))) = board (world s) @ [request_ticket rq Unfiled]"
proof -
  have "find is_status_field (take 20 (gh_fields (world s))) = None"
    using assms(5) by (simp add: find_None_iff list_all_iff)
  then have "resolve_project (gh_project_answer (world s) 20) = Inl (read_error ''undefined'' ''options'')"
    by (simp add: resolve_project_answer)
  then show ?thesis
    using serve_gh_unfiled [OF assms(1-4)] by (simp add: read_error_def squote_def)
qed

theorem serve_status_beyond_first_20_witness:
  "find is_status_field (gh_fields gh_wide) = Some (SingleSelect ''F_S'' ''Status'' status_options) \<and>
   fst (serve gh_serve env0 raw0 (gs0\<lparr>world := gh_wide\<rparr>)) =
     error_response (JsExn TypeError ''Cannot read properties of undefined (reading 'options')'') \<and>
   board (world (snd (serve gh_serve env0 raw0 (gs0\<lparr>world := gh_wide\<rparr>)))) =
     [\<lparr>tk_title = ''Bug X'', tk_body = Str ''repro steps'', tk_labels = Arr [Str ''bug''], tk_filing = Unfiled\<rparr>]"
  using serve_status_beyond_first_20 [of "gs0\<lparr>world := gh_wide\<rparr>" env0 raw0 rq0 "''Bug X''"]
    gh_worlds_wf(3) env0_matches(3)
  by (simp add: gh_wide_def gh0_def text_fields_def is_status_field_def rq0_def board_def request_ticket_def received_def)

text \<open>
  C15. When the Status field among the first 20 has no Icebox option, the run fails with
  the not-found message of line 107 and leaves the created issue off the board.
\<close>

theorem serve_no_icebox_unfiled:
  assumes "gh_wf (world s)" "env_matches env (world s)" "parse_request raw = Inr rq" "rq_title rq = Str t"
    and "find is_status_field (take 20 (gh_fields (world s))) = Some (SingleSelect fi nm opts)"
    and "\<not> list_ex is_icebox opts"
  shows "fst (serve gh_serve env raw s) = error_response (JsExn Error ''Status field or Icebox option not found in the project'') \<and>
         board (world (snd (serve gh_serve env raw s))) = board (world s) @ [request_ticket rq Unfiled]"
proof -
  have "find is_icebox opts = None" using assms(6) by (simp add: find_None_iff list_ex_iff)
  then have "resolve_project (gh_project_answer (world s) 20) = Inl (JsExn Error ''Status field or Icebox option not found in the project'')"
    using assms(5) by (simp add: resolve_project_answer)
  then show ?thesis
    using serve_gh_unfiled [OF assms(1-4)] by simp
qed

theorem serve_no_icebox_unfiled_witness:
  "fst (serve gh_serve env0 raw0 (gs0\<lparr>world := gh_no_icebox\<rparr>)) =
     error_response (JsExn Error ''Status field or Icebox option not found in the project'') \<and>
   board (world (snd (serve gh_serve env0 raw0 (gs0\<lparr>world := gh_no_icebox\<rparr>)))) =
     [\<lparr>tk_title = ''Bug X'', tk_body = Str ''repro steps'', tk_labels = Arr [Str ''bug''], tk_filing = Unfiled\<rparr>]"
  using serve_no_icebox_unfiled [of "gs0\<lparr>world := gh_no_icebox\<rparr>" env0 raw0 rq0 "''Bug X''" "''F_S''" "''Status''"
      "[(''O_T'', ''Todo''), (''O_D'', ''Done'')]"]
    gh_worlds_wf(2) env0_matches(2)
  by (simp add: gh_no_icebox_def gh0_def is_status_field_def is_icebox_def rq0_def board_def request_ticket_def received_def)

text \<open>
  C13. Successive invocations with string titles file every request in turn: the
  answers report consecutive issue numbers, one per request, and the tracker is the
  abstract \<open>file_all\<close> of the requests; the world stays ready for the next request.
\<close>

theorem serve_seq_files_each:
  assumes "board_ready env (world s)" "list_all filable raws"
  shows "fst (serve_seq gh_serve env raws s) =
           map (filed_response (world s)) [Suc (length (gh_issues (world s)))..<Suc (length (gh_issues (world s)) + length raws)] \<and>
         board (world (snd (serve_seq gh_serve env raws s))) = file_all (board (world s)) (map (\<lambda>raw. projr (parse_request raw)) raws) \<and>
         board_ready env (world (snd (serve_seq gh_serve env raws s)))"
  using assms
proof (induction raws arbitrary: s)
  case Nil
  then show ?case by simp
next
  case (Cons raw raws)
  obtain rq t where rq: "parse_request raw = Inr rq" "rq_title rq = Str t"
    using Cons.prems(2) by (auto simp: filable_def split: sum.splits jsval.splits)
  obtain r s1 where run: "serve gh_serve env raw s = (r, s1)" by fastforce
  have step: "r = filed_response (world s) (Suc (length (gh_issues (world s))))"
    "board (world s1) = board (world s) @ [request_ticket rq (Filed (Some ''Icebox''))]"
    "length (gh_issues (world s1)) = Suc (length (gh_issues (world s)))"
    "same_settings (world s) (world s1)" "board_ready env (world s1)"
    using serve_gh_step [OF Cons.prems(1) rq] run by simp_all
  have ih: "fst (serve_seq gh_serve env raws s1) =
           map (filed_response (world s1)) [Suc (length (gh_issues (world s1)))..<Suc (length (gh_issues (world s1)) + length raws)] \<and>
         board (world (snd (serve_seq gh_serve env raws s1))) = file_all (board (world s1)) (map (\<lambda>raw. projr (parse_request raw)) raws) \<and>
         board_ready env (world (snd (serve_seq gh_serve env raws s1)))"
    using Cons.IH [OF step(5)] Cons.prems(2) by (simp del: upt_Suc)
  show ?case
    using ih step rq by (simp add: run split_def filed_response_settings [OF step(4)] upt_Suc_Cons file_issue_def del: upt_Suc)
qed

theorem serve_seq_files_each_witness:
  "fst (serve_seq gh_serve env0 [raw0, raw0] gs0) = [filed_response gh0 1, filed_response gh0 2]"
  using serve_seq_files_each [of env0 gs0 "[raw0, raw0]"] board_ready_gh0
  by (simp add: gs0_def filable_def rq0_def gh0_def numeral_2_eq_2 del: serve_seq.simps)

text \<open>
  Witness of C16: two invocations of the same request in flight on the fresh repository
  leave two tickets, both the request's and both in the Icebox column.
\<close>

theorem concurrent_runs_file_each_witness:
  "board (world gs2) =
     [\<lparr>tk_title = ''Bug X'', tk_body = Str ''repro steps'', tk_labels = Arr [Str ''bug''], tk_filing = Filed (Some ''Icebox'')\<rparr>,
      \<lparr>tk_title = ''Bug X'', tk_body = Str ''repro steps'', tk_labels = Arr [Str ''bug''], tk_filing = Filed (Some ''Icebox'')\<rparr>]"
    (is "_ = [?t, ?t]")
proof -
  have b0: "board gh0 = []" by (simp add: board_def gh0_def)
  have rt: "request_ticket rq0 (Filed (Some ''Icebox'')) = ?t" by (simp add: rq0_def request_ticket_def received_def)
  have f: "list_all filable [raw0, raw0]" by (simp add: filable_def rq0_def)
  have stop: "\<forall>p\<in>set done2. \<exists>x. p = Ret x" by (simp add: done2_def)
  obtain ns where len: "length (board (world gs2)) = length (board gh0) + length [raw0, raw0]"
    and d: "distinct ns" "length ns = length [raw0, raw0]"
    and each: "\<forall>i<length [raw0, raw0]. length (board gh0) < ns ! i \<and> ns ! i \<le> length (board (world gs2)) \<and>
                 done2 ! i = Ret (Inr (filed_response gh0 (ns ! i))) \<and>
                 board (world gs2) ! (ns ! i - 1) = request_ticket (projr (parse_request ([raw0, raw0] ! i))) (Filed (Some ''Icebox''))"
    using Concurrency.concurrent_runs_file_each [OF board_ready_gh0 f two_runs_reach stop] by blast
  have e0: "0 < ns ! 0" "ns ! 0 \<le> 2" "board (world gs2) ! (ns ! 0 - 1) = ?t"
    using each [rule_format, of 0] len b0 rt by simp_all
  have e1: "0 < ns ! 1" "ns ! 1 \<le> 2" "board (world gs2) ! (ns ! 1 - 1) = ?t"
    using each [rule_format, of 1] len b0 rt by simp_all
  have "ns ! 0 \<noteq> ns ! 1" using d by (simp add: nth_eq_iff_index_eq)
  then have "\<forall>k<2. ns ! 0 - 1 = k \<or> ns ! 1 - 1 = k" using e0 e1 by arith
  then have "\<forall>k<2. board (world gs2) ! k = ?t" using e0(3) e1(3) by metis
  moreover obtain a b where "board (world gs2) = [a, b]"
    using len b0 by (auto simp: numeral_2_eq_2 length_Suc_conv)
  ultimately show ?thesis by (simp add: less_2_cases_iff)
qed

text \<open>
  C17. A request body that is not JSON: \<^verbatim>\<open>req.json()\<close> throws a \<^verbatim>\<open>SyntaxError\<close>
  (line 26), and with a valid configuration the handler answers 400 with the runtime's
  message; no call to GitHub is made and nothing changes.
\<close>

theorem serve_body_not_json:
  assumes cfg: "read_config env = Inr cfg" and bad: "json_parse text = Inl JsonSyntax"
  shows "req_json msg text = Some (Inl (msg text)) \<and>
         serve up env (Inl (msg text)) s = (error_response (JsExn SyntaxError (msg text)), s)"
  using bad by (simp add: req_json_def serve_def handle_body_def parse_request_def bindE_apply cfg
      liftE_def throwE_def)

theorem serve_body_not_json_witness:
  "serve (mock created pd_ok item_json created) env0 (Inl ''Unexpected token }'') s0 =
     (error_response (JsExn SyntaxError ''Unexpected token }''), s0)"
proof -
  have "json_parse ''{\"title\": }'' = Inl JsonSyntax" by code_simp
  from serve_body_not_json [OF read_config_env0 this, of "\<lambda>_. ''Unexpected token }''"] show ?thesis by blast
qed

text \<open>
  C18. What GitHub reads is what the caller sent: for a request body text that
  \<^verbatim>\<open>req.json()\<close> reads into a request, the issue payload the handler sends, printed by
  \<^verbatim>\<open>JSON.stringify\<close> and read by GitHub's \<^verbatim>\<open>JSON.parse\<close>, is the object of the
  caller's title, body and labels, exactly as they were in the caller's text, without the
  ones the caller left out. This is the reading of request bodies the GitHub model
  (\<open>received\<close>) assumes.
\<close>

theorem create_issue_text_read_back:
  assumes v: "json_parse text = Inr v" and rq: "parse_request (Inr v) = Inr rq"
  shows "json_parse (json_text (req_body (create_issue_req cfg rq))) =
           Inr (Obj (filter (\<lambda>(k, x). x \<noteq> Undefined)
             [(''title'', rq_title rq), (''body'', rq_body rq), (''labels'', rq_labels rq)]))"
proof -
  have p: "keys_ok v" "wire v = v" using json_parse_plain [OF v] by simp_all
  have f: "rq_title rq = member v ''title''" "rq_body rq = member v ''body''" "rq_labels rq = member v ''labels''"
    using rq by (auto simp: parse_request_Inr destructure_request_Inr)
  have m: "x = Undefined \<or> (keys_ok x \<and> wire x = x)" if "x \<in> {rq_title rq, rq_body rq, rq_labels rq}" for x
    using that f member_plain [OF p] by auto
  define P where "P = Obj [(''title'', rq_title rq), (''body'', rq_body rq), (''labels'', rq_labels rq)]"
  have w: "wire P = Obj (filter (\<lambda>(k, x). x \<noteq> Undefined)
             [(''title'', rq_title rq), (''body'', rq_body rq), (''labels'', rq_labels rq)])"
    using m by (auto simp: P_def)
  have k: "keys_ok (wire P)" unfolding w using m by auto
  have "pv (2 * length (json_text P) + 1) (json_text P @ []) = Inr (wire P, [])"
    using pv_json_text(1) [OF k, of "[]"] by (simp add: json_stop_def del: pv.simps)
  then show ?thesis using w by (simp add: json_parse_def skip_ws_def create_issue_req_def P_def [symmetric] del: pv.simps)
qed

theorem create_issue_text_read_back_witness:
  "json_parse (json_text (req_body (create_issue_req cfg0
     \<lparr>rq_title = Str ''Issue Title'', rq_body = Str ''Issue description'', rq_labels = Arr [Str ''bug'']\<rparr>))) =
   Inr curl_value"
  using create_issue_text_read_back [OF curl_parse parse_request_curl, of cfg0] by (simp add: curl_value_def)


text \<open>
  C19. The answer of the project query is read without looking at its status or its
  \<^verbatim>\<open>errors\<close> (lines 95--96): whatever the status, when the answer has no
  \<^verbatim>\<open>data.organization.projectV2\<close> to read (a GraphQL failure answers
  \<^verbatim>\<open>data: null\<close>), the handler answers 400 with the \<^verbatim>\<open>TypeError\<close> of that read,
  after exactly the issue creation and the query: the created issue is left behind, off
  the board, and GitHub's own error message never reaches the caller.
\<close>

theorem serve_project_query_fails:
  assumes cfg: "read_config env = Inr cfg" and rq: "parse_request raw = Inr rq"
    and c: "up (world s) (create_issue_req cfg rq) = (Reply st1 (Inr issue), w1)" "200 \<le> st1" "st1 \<le> 299"
    and q: "up w1 (project_query_req cfg) = (Reply st2 (Inr pd), w2)"
    and e: "get_path pd (project_path @ [''id'']) = Inl e"
  shows "serve up env raw s = (error_response e, s\<lparr>world := w2, sent := sent s @ [create_issue_req cfg rq, project_query_req cfg]\<rparr>)"
proof -
  have "resolve_project pd = Inl e" using e by (simp add: resolve_project_def)
  then show ?thesis using serve_resolve_fails [OF cfg rq c q] by simp
qed

theorem serve_project_query_fails_witness:
  "serve (mock created graphql_error item_json created) env0 raw0 s0 =
    (error_response (JsExn TypeError ''Cannot read properties of null (reading 'organization')''),
     s0\<lparr>sent := [create_issue_req cfg0 rq0, project_query_req cfg0]\<rparr>)"
  using serve_project_query_fails [OF read_config_env0 parse_request_raw0,
      of "mock created graphql_error item_json created" s0 201 issue42 "()" 200 graphql_error "()"
      "JsExn TypeError ''Cannot read properties of null (reading 'organization')''"]
  by (simp add: scenario_defs graphql_error_def project_path_def read_error_def squote_def)

end
